(* ===== verification/Hash_Map.thy ===== *)
theory Hash_Map
  imports Prelude
begin

text \<open>
  \<open>std::collections::HashMap\<close> and \<open>HashSet\<close>. A map is its list of entries in the
  order in which the code's iterators yield them; that order is not specified by the library, so
  the components only state properties that do not depend on it. The operations are the ones the
  code calls: \<open>get\<close>, \<open>insert\<close>, \<open>remove\<close>, \<open>entry(k).or_insert(d)\<close>, \<open>get_mut\<close> followed by a
  write, \<open>len\<close>, \<open>is_empty\<close>, \<open>values\<close>, \<open>keys\<close>. The locale \<open>map_interface\<close> states the laws the
  components rely on, and the interpretation at the end proves them for this model.
\<close>

type_synonym ('k, 'v) hmap = "('k \<times> 'v) list"

definition hm_new :: "('k, 'v) hmap" where
  "hm_new = []"

definition hm_get :: "('k, 'v) hmap \<Rightarrow> 'k \<Rightarrow> 'v option" where
  "hm_get m k = map_of m k"

fun hm_insert :: "'k \<Rightarrow> 'v \<Rightarrow> ('k, 'v) hmap \<Rightarrow> ('k, 'v) hmap" where
  "hm_insert k v [] = [(k, v)]"
| "hm_insert k v (e # m) = (if fst e = k then (k, v) # m else e # hm_insert k v m)"

definition hm_remove :: "'k \<Rightarrow> ('k, 'v) hmap \<Rightarrow> ('k, 'v) hmap" where
  "hm_remove k m = filter (\<lambda>e. fst e \<noteq> k) m"

definition hm_entry_or_insert :: "'k \<Rightarrow> 'v \<Rightarrow> ('k, 'v) hmap \<Rightarrow> ('k, 'v) hmap" where
  "hm_entry_or_insert k d m = (case hm_get m k of None \<Rightarrow> hm_insert k d m | Some _ \<Rightarrow> m)"

definition hm_len :: "('k, 'v) hmap \<Rightarrow> nat" where
  "hm_len m = length m"

definition hm_is_empty :: "('k, 'v) hmap \<Rightarrow> bool" where
  "hm_is_empty m \<longleftrightarrow> hm_len m = 0"

definition hm_values :: "('k, 'v) hmap \<Rightarrow> 'v list" where
  "hm_values m = map snd m"

definition hm_keys :: "('k, 'v) hmap \<Rightarrow> 'k list" where
  "hm_keys m = map fst m"

definition hm_wf :: "('k, 'v) hmap \<Rightarrow> bool" where
  "hm_wf m \<longleftrightarrow> distinct (map fst m)"

section \<open>Laws\<close>

locale map_interface =
  fixes new :: "'m"
    and get :: "'m \<Rightarrow> 'k \<Rightarrow> 'v option"
    and ins :: "'k \<Rightarrow> 'v \<Rightarrow> 'm \<Rightarrow> 'm"
    and rem :: "'k \<Rightarrow> 'm \<Rightarrow> 'm"
    and len :: "'m \<Rightarrow> nat"
    and entries :: "'m \<Rightarrow> ('k \<times> 'v) list"
    and wf :: "'m \<Rightarrow> bool"
  assumes get_new: "get new k = None"
    and get_ins: "get (ins k v m) j = (if j = k then Some v else get m j)"
    and get_rem: "get (rem k m) j = (if j = k then None else get m j)"
    and wf_new: "wf new"
    and wf_ins: "wf m \<Longrightarrow> wf (ins k v m)"
    and wf_rem: "wf m \<Longrightarrow> wf (rem k m)"
    and get_entries: "wf m \<Longrightarrow> get m k = Some v \<longleftrightarrow> (k, v) \<in> set (entries m)"
    and distinct_entries: "wf m \<Longrightarrow> distinct (map fst (entries m))"
    and len_entries: "len m = length (entries m)"
begin

lemma len_dom: "wf m \<Longrightarrow> len m = card {k. get m k \<noteq> None}"
proof -
  assume wf: "wf m"
  have "{k. get m k \<noteq> None} = fst ` set (entries m)"
    using get_entries [OF wf] by force
  moreover have "card (fst ` set (entries m)) = length (entries m)"
    using distinct_card [OF distinct_entries [OF wf]] by simp
  ultimately show ?thesis
    by (simp add: len_entries)
qed

lemma finite_dom: "wf m \<Longrightarrow> finite {k. get m k \<noteq> None}"
proof -
  assume wf: "wf m"
  have "{k. get m k \<noteq> None} \<subseteq> fst ` set (entries m)"
    using get_entries [OF wf] by force
  then show ?thesis
    by (rule finite_subset) simp
qed

lemma len_ins:
  assumes wf: "wf m"
  shows "len (ins k v m) = (if get m k = None then Suc (len m) else len m)"
proof -
  have "{j. get (ins k v m) j \<noteq> None} = insert k {j. get m j \<noteq> None}"
    by (auto simp: get_ins)
  then show ?thesis
    using finite_dom [OF wf]
    by (auto simp: len_dom wf wf_ins card_insert_if)
qed

lemma len_rem:
  assumes wf: "wf m"
  shows "len (rem k m) = (if get m k = None then len m else len m - 1)"
proof -
  have "{j. get (rem k m) j \<noteq> None} = {j. get m j \<noteq> None} - {k}"
    by (auto simp: get_rem)
  then show ?thesis
    using finite_dom [OF wf]
    by (auto simp: len_dom wf wf_rem card_Diff_singleton_if)
qed

lemma len_0_iff: "wf m \<Longrightarrow> len m = 0 \<longleftrightarrow> (\<forall>k. get m k = None)"
  using len_dom finite_dom by auto

end

lemma hm_get_Nil [simp]: "hm_get [] k = None"
  by (simp add: hm_get_def)

lemma hm_get_Cons: "hm_get (e # m) k = (if k = fst e then Some (snd e) else hm_get m k)"
  by (cases e) (simp add: hm_get_def)

lemma hm_get_insert [map_simps]: "hm_get (hm_insert k v m) j = (if j = k then Some v else hm_get m j)"
  by (induction m) (auto simp: hm_get_Cons)

lemma hm_get_remove [map_simps]: "hm_get (hm_remove k m) j = (if j = k then None else hm_get m j)"
  by (induction m) (auto simp: hm_get_Cons hm_remove_def)

lemma hm_get_entry [map_simps]:
  "hm_get (hm_entry_or_insert k d m) j =
     (if j = k then Some (case hm_get m k of None \<Rightarrow> d | Some v \<Rightarrow> v) else hm_get m j)"
  by (auto simp: hm_entry_or_insert_def map_simps split: option.splits)

lemma fst_set_hm_insert: "fst ` set (hm_insert k v m) = insert k (fst ` set m)"
  by (induction m) auto

lemma hm_insert_fresh: "k \<notin> fst ` set m \<Longrightarrow> hm_insert k v m = m @ [(k, v)]"
  by (induction m) auto

lemma hm_insert_same: "hm_get m k = Some v \<Longrightarrow> hm_insert k v m = m"
  by (induction m) (auto simp: hm_get_def split: if_splits)

lemma hm_wf_insert [map_simps]: "hm_wf m \<Longrightarrow> hm_wf (hm_insert k v m)"
  by (induction m) (auto simp: hm_wf_def fst_set_hm_insert)

lemma hm_wf_remove [map_simps]: "hm_wf m \<Longrightarrow> hm_wf (hm_remove k m)"
  by (auto simp: hm_wf_def hm_remove_def distinct_map_filter)

lemma hm_wf_entry [map_simps]: "hm_wf m \<Longrightarrow> hm_wf (hm_entry_or_insert k d m)"
  by (auto simp: hm_entry_or_insert_def map_simps split: option.splits)

lemma hm_wf_new [simp]: "hm_wf []"
  by (simp add: hm_wf_def)

lemma hm_get_eq_Some: "hm_wf m \<Longrightarrow> hm_get m k = Some v \<longleftrightarrow> (k, v) \<in> set m"
  by (simp add: hm_wf_def hm_get_def map_of_eq_Some_iff)

interpretation hm: map_interface hm_new hm_get hm_insert hm_remove hm_len "\<lambda>m. m" hm_wf
  by unfold_locales
    (auto simp: map_simps hm_new_def hm_get_eq_Some hm_len_def, simp add: hm_wf_def)

lemma hm_get_None_iff: "hm_get m k = None \<longleftrightarrow> k \<notin> set (hm_keys m)"
  by (simp add: hm_get_def hm_keys_def map_of_eq_None_iff)

lemma dom_hm_get: "dom (hm_get m) = set (hm_keys m)"
proof -
  have "hm_get m = map_of m" by (intro ext) (simp add: hm_get_def)
  then show ?thesis by (simp add: hm_keys_def dom_map_of_conv_image_fst)
qed

lemma hm_len_insert_le: "hm_wf m \<Longrightarrow> hm_len (hm_insert k v m) \<le> Suc (hm_len m)"
  by (simp add: hm.len_ins)

lemma set_hm_values: "hm_wf m \<Longrightarrow> v \<in> set (hm_values m) \<longleftrightarrow> (\<exists>k. hm_get m k = Some v)"
  by (force simp: hm_values_def hm_get_eq_Some)

end
