(* ===== verification/Json.thy ===== *)
theory Json
  imports Hash_Map
begin

text \<open>
  JSON values and the shapes of code that \<open>#[derive(Serialize, Deserialize)]\<close> stands for: a
  struct is an object whose fields are looked up by name (each at most once, unknown ones
  ignored, also accepted as an array in field order), \<open>skip_serializing_if\<close> drops an absent
  field, \<open>default\<close> fills a missing one, an enum of units is a string, an internally tagged
  enum (\<open>tag = ".."\<close>) is the variant's object with the tag added. The text format itself is the
  third-party \<open>serde_json\<close>: a pair of functions of the record \<open>crates\<close>, a parameter of every
  model that prints or parses text. The locale \<open>json_codec\<close> is the contract of a message type.
\<close>

section \<open>Values\<close>

datatype json =
    JNull
  | JBool bool
  | JNum int
  | JReal string  \<comment> \<open>a number literal with a fraction or an exponent\<close>
  | JStr string
  | JArr "json list"
  | JObj "(string \<times> json) list"

text \<open>The values the code's own encoders produce: numbers are integers of at most 64 bits.\<close>

fun json_plain :: "json \<Rightarrow> bool" where
  "json_plain (JNum i) = (- (2 ^ 63) \<le> i \<and> i < 2 ^ 64)"
| "json_plain (JReal _) = False"
| "json_plain (JArr vs) = list_all json_plain vs"
| "json_plain (JObj kvs) = list_all (\<lambda>e. json_plain (snd e)) kvs"
| "json_plain _ = True"

section \<open>External crates\<close>

text \<open>
  The functions of third-party crates the code calls, as parameters: \<open>uuid\<close>, \<open>serde_json\<close>,
  \<open>base64\<close> (the engine \<open>URL_SAFE_NO_PAD\<close>) and \<open>sha2\<close>. What the code relies on is stated by the
  three laws: printing and parsing back gives the value.
\<close>

record crates =
  x_uuid_print :: "uuid \<Rightarrow> string"
  x_uuid_parse :: "string \<Rightarrow> uuid option"
  x_json_print :: "json \<Rightarrow> string"
  x_json_parse :: "string \<Rightarrow> json option"
  x_b64_encode :: "bytes \<Rightarrow> string"
  x_b64_decode :: "string \<Rightarrow> bytes option"
  x_sha256 :: "bytes \<Rightarrow> bytes"

definition uuid_law :: "('z) crates_scheme \<Rightarrow> bool" where
  "uuid_law X \<longleftrightarrow> (\<forall>u. x_uuid_parse X (x_uuid_print X u) = Some u)"

definition json_law :: "('z) crates_scheme \<Rightarrow> bool" where
  "json_law X \<longleftrightarrow> (\<forall>j. json_plain j \<longrightarrow> x_json_parse X (x_json_print X j) = Some j)"

text \<open>The alphabet of the engine is \<open>A-Z a-z 0-9 - _\<close>: no dot, the separator of the tokens.\<close>

definition b64_law :: "('z) crates_scheme \<Rightarrow> bool" where
  "b64_law X \<longleftrightarrow> (\<forall>bs. x_b64_decode X (x_b64_encode X bs) = Some bs
                      \<and> CHR ''.'' \<notin> set (x_b64_encode X bs))"

section \<open>Fields of a struct\<close>

text \<open>
  \<open>get_fields fs j\<close> gives the value of each field of \<open>fs\<close>, in order. A field is its name and
  whether it carries \<open>#[serde(default)]\<close> (only such fields may be missing from the array form).
\<close>

fun get_fields :: "(string \<times> bool) list \<Rightarrow> json \<Rightarrow> json option list option" where
  "get_fields fs (JObj kvs) =
     (if list_all (\<lambda>f. length (filter (\<lambda>e. fst e = fst f) kvs) \<le> 1) fs
      then Some (map (\<lambda>f. map_of kvs (fst f)) fs) else None)"
| "get_fields fs (JArr vs) =
     (if length vs \<le> length fs \<and> list_all snd (drop (length vs) fs)
      then Some (map Some vs @ replicate (length fs - length vs) None) else None)"
| "get_fields fs j = None"

fun req_field :: "(json \<Rightarrow> 'a option) \<Rightarrow> json option \<Rightarrow> 'a option" where
  "req_field dec None = None"
| "req_field dec (Some v) = dec v"

fun opt_field :: "(json \<Rightarrow> 'a option) \<Rightarrow> json option \<Rightarrow> 'a option option" where
  "opt_field dec None = Some None"
| "opt_field dec (Some v) = (if v = JNull then Some None else map_option Some (dec v))"

fun def_field :: "'a \<Rightarrow> (json \<Rightarrow> 'a option) \<Rightarrow> json option \<Rightarrow> 'a option" where
  "def_field d dec None = Some d"
| "def_field d dec (Some v) = dec v"

fun opt_entry :: "string \<Rightarrow> ('a \<Rightarrow> json) \<Rightarrow> 'a option \<Rightarrow> (string \<times> json) list" where
  "opt_entry n enc None = []"
| "opt_entry n enc (Some x) = [(n, enc x)]"

section \<open>Scalars, sequences, maps, enums\<close>

fun dec_str :: "json \<Rightarrow> string option" where
  "dec_str (JStr s) = Some s"
| "dec_str _ = None"

fun dec_bool :: "json \<Rightarrow> bool option" where
  "dec_bool (JBool b) = Some b"
| "dec_bool _ = None"

definition enc_word :: "'w::len word \<Rightarrow> json" where
  "enc_word w = JNum (uint w)"

fun dec_word :: "json \<Rightarrow> 'w::len word option" where
  "dec_word (JNum i) = (if 0 \<le> i \<and> i < 2 ^ LENGTH('w) then Some (word_of_int i) else None)"
| "dec_word _ = None"

fun those_map :: "('a \<Rightarrow> 'b option) \<Rightarrow> 'a list \<Rightarrow> 'b list option" where
  "those_map f [] = Some []"
| "those_map f (x # xs) =
     (case f x of None \<Rightarrow> None | Some y \<Rightarrow> map_option (Cons y) (those_map f xs))"

definition enc_list :: "('a \<Rightarrow> json) \<Rightarrow> 'a list \<Rightarrow> json" where
  "enc_list enc xs = JArr (map enc xs)"

fun dec_list :: "(json \<Rightarrow> 'a option) \<Rightarrow> json \<Rightarrow> 'a list option" where
  "dec_list dec (JArr vs) = those_map dec vs"
| "dec_list dec _ = None"

text \<open>A \<open>HashMap<String, V>\<close>: entries are inserted in the order of the text, the last one wins.\<close>

definition enc_map :: "('v \<Rightarrow> json) \<Rightarrow> (string, 'v) hmap \<Rightarrow> json" where
  "enc_map enc m = JObj (map (\<lambda>(k, v). (k, enc v)) m)"

fun dec_entries :: "(json \<Rightarrow> 'v option) \<Rightarrow> (string, 'v) hmap \<Rightarrow> (string \<times> json) list
    \<Rightarrow> (string, 'v) hmap option" where
  "dec_entries dec m [] = Some m"
| "dec_entries dec m ((k, j) # es) =
     (case dec j of None \<Rightarrow> None | Some v \<Rightarrow> dec_entries dec (hm_insert k v m) es)"

fun dec_map :: "(json \<Rightarrow> 'v option) \<Rightarrow> json \<Rightarrow> (string, 'v) hmap option" where
  "dec_map dec (JObj es) = dec_entries dec [] es"
| "dec_map dec _ = None"

text \<open>
  An externally tagged enum of unit variants: the variant's name, or an object with that one key
  and the value \<open>null\<close>.
\<close>

fun unit_variant :: "json \<Rightarrow> string option" where
  "unit_variant (JStr s) = Some s"
| "unit_variant (JObj [(s, JNull)]) = Some s"
| "unit_variant _ = None"

text \<open>
  An internally tagged enum: the tag is taken out (exactly one, a string) and the variant is
  decoded from what remains.
\<close>

fun untag :: "string \<Rightarrow> json \<Rightarrow> (string \<times> json) option" where
  "untag tag (JObj kvs) =
     (case filter (\<lambda>e. fst e = tag) kvs of
        [(k, JStr t)] \<Rightarrow> Some (t, JObj (filter (\<lambda>e. fst e \<noteq> tag) kvs))
      | _ \<Rightarrow> None)"
| "untag tag (JArr (JStr t # vs)) = Some (t, JArr vs)"
| "untag tag _ = None"

fun add_tag :: "string \<Rightarrow> string \<Rightarrow> json \<Rightarrow> json" where
  "add_tag tag t (JObj kvs) = JObj ((tag, JStr t) # kvs)"
| "add_tag tag t j = j"

lemma untag_add_tag [codec_simps]:
  "tag \<notin> fst ` set kvs \<Longrightarrow> untag tag (JObj ((tag, JStr t) # kvs)) = Some (t, JObj kvs)"
proof -
  assume "tag \<notin> fst ` set kvs"
  then have "filter (\<lambda>e. fst e = tag) kvs = []" and "filter (\<lambda>e. fst e \<noteq> tag) kvs = kvs"
    by (force simp: filter_empty_conv, force simp: filter_id_conv)
  then show ?thesis by simp
qed

lemma dec_enc_word [codec_simps]: "dec_word (enc_word w) = Some w"
  by (simp add: enc_word_def)

lemma enc_word_not_JNull [codec_simps]: "enc_word w \<noteq> JNull"
  by (simp add: enc_word_def)

lemma enc_word_plain [codec_simps]:
  "LENGTH('w) \<le> 64 \<Longrightarrow> json_plain (enc_word (w :: 'w::len word))"
proof -
  assume "LENGTH('w) \<le> 64"
  then have le: "(2 :: int) ^ LENGTH('w) \<le> 2 ^ 64"
    by (intro power_increasing) auto
  have "uint w < 2 ^ 64"
    by (rule less_le_trans [OF unsigned_less le])
  moreover have "0 \<le> uint w"
    by (rule unsigned_greater_eq)
  then have "- (2 ^ 63) \<le> uint w"
    by (rule order_trans [rotated]) simp
  ultimately show ?thesis by (simp add: enc_word_def)
qed

lemma opt_entry_plain [simp]:
  "list_all (\<lambda>e. json_plain (snd e)) (opt_entry n enc x) \<longleftrightarrow>
     (case x of None \<Rightarrow> True | Some y \<Rightarrow> json_plain (enc y))"
  by (cases x) simp_all

section \<open>The contract of a message type\<close>

locale json_codec =
  fixes enc :: "'a \<Rightarrow> json" and dec :: "json \<Rightarrow> 'a option"
  assumes roundtrip: "dec (enc x) = Some x"
    and not_null: "enc x \<noteq> JNull"
    and plain: "json_plain (enc x)"
begin

lemma enc_inject: "enc x = enc y \<longleftrightarrow> x = y"
  by (metis option.inject roundtrip)

lemma dec_list_enc: "dec_list dec (enc_list enc xs) = Some xs"
  by (induction xs) (auto simp: enc_list_def roundtrip)

lemma dec_entries_enc:
  "distinct (map fst (m @ es)) \<Longrightarrow>
   dec_entries dec m (map (\<lambda>(k, v). (k, enc v)) es) = Some (m @ es)"
proof (induction es arbitrary: m)
  case Nil
  then show ?case by simp
next
  case (Cons e es)
  then have "fst e \<notin> fst ` set m" by auto
  with Cons show ?case
    by (cases e) (auto simp: roundtrip hm_insert_fresh)
qed

lemma dec_map_enc: "hm_wf m \<Longrightarrow> dec_map dec (enc_map enc m) = Some m"
  using dec_entries_enc [of "[]" m] by (simp add: enc_map_def hm_wf_def)

lemma plain_list: "json_plain (enc_list enc xs)"
  by (simp add: enc_list_def plain list_all_iff)

lemma plain_map: "json_plain (enc_map enc m)"
  by (auto simp: enc_map_def plain list_all_iff)

lemma opt_field_enc: "opt_field dec (map_option enc x) = Some x"
  by (cases x) (auto simp: roundtrip not_null)

lemma codec_rules:
  "dec (enc x) = Some x" "enc x \<noteq> JNull" "dec_list dec (enc_list enc xs) = Some xs"
  by (rule roundtrip, rule not_null, rule dec_list_enc)

text \<open>A text sent with \<open>to_string\<close> is read back by \<open>from_str\<close>.\<close>

lemma text_roundtrip:
  "json_law X \<Longrightarrow> Option.bind (x_json_parse X (x_json_print X (enc x))) dec = Some x"
  by (simp add: json_law_def roundtrip plain)

end

interpretation str_codec: json_codec JStr dec_str
  by unfold_locales auto

interpretation bool_codec: json_codec JBool dec_bool
  by unfold_locales auto

interpretation u16_codec: json_codec "enc_word :: u16 \<Rightarrow> json" dec_word
  by unfold_locales (simp_all add: codec_simps)

interpretation u64_codec: json_codec "enc_word :: u64 \<Rightarrow> json" dec_word
  by unfold_locales (simp_all add: codec_simps)

lemma json_codec_list: "json_codec enc dec \<Longrightarrow> json_codec (enc_list enc) (dec_list dec)"
  by unfold_locales
    (rule json_codec.dec_list_enc, assumption, simp add: enc_list_def, rule json_codec.plain_list)

section \<open>Text\<close>

text \<open>\<open>serde_json::to_string\<close>, \<open>from_str\<close> and \<open>from_slice\<close> at a message type.\<close>

definition to_text :: "('z) crates_scheme \<Rightarrow> ('a \<Rightarrow> json) \<Rightarrow> 'a \<Rightarrow> string" where
  "to_text X enc x = x_json_print X (enc x)"

definition from_text :: "('z) crates_scheme \<Rightarrow> (json \<Rightarrow> 'a option) \<Rightarrow> string \<Rightarrow> 'a option" where
  "from_text X dec s = Option.bind (x_json_parse X s) dec"

lemma from_text_to_text:
  "json_law X \<Longrightarrow> json_codec enc dec \<Longrightarrow> from_text X dec (to_text X enc x) = Some x"
  using json_codec.text_roundtrip by (simp add: from_text_def to_text_def)

text \<open>A Rust string is its bytes, so \<open>from_slice\<close> parses the text the bytes spell.\<close>

definition from_slice :: "('z) crates_scheme \<Rightarrow> (json \<Rightarrow> 'a option) \<Rightarrow> bytes \<Rightarrow> 'a option" where
  "from_slice X dec bs = from_text X dec (of_bytes bs)"

lemma from_slice_plain:
  "json_law X \<Longrightarrow> json_plain (enc x) \<Longrightarrow> from_slice X dec (as_bytes (to_text X enc x)) = dec (enc x)"
  by (simp add: from_slice_def from_text_def to_text_def json_law_def)

lemma from_slice_to_text:
  "json_law X \<Longrightarrow> json_codec enc dec \<Longrightarrow> from_slice X dec (as_bytes (to_text X enc x)) = Some x"
  by (simp add: from_slice_def from_text_to_text)

end
