(* ===== verification/Core_Model.thy ===== *)
theory Core_Model
  imports Json
begin

text \<open>
  The shared data model, \<open>core/src/model\<close>: the device types and the file metadata exchanged by
  both transports, with the JSON form their derive attributes give.
\<close>

section \<open>Device types (model/discovery.rs)\<close>

datatype device_type = Mobile | Desktop | Web | Headless | Server

fun enc_device_type :: "device_type \<Rightarrow> json" where
  "enc_device_type Mobile = JStr ''MOBILE''"
| "enc_device_type Desktop = JStr ''DESKTOP''"
| "enc_device_type Web = JStr ''WEB''"
| "enc_device_type Headless = JStr ''HEADLESS''"
| "enc_device_type Server = JStr ''SERVER''"

definition dec_device_type :: "json \<Rightarrow> device_type option" where
  "dec_device_type j = (case unit_variant j of None \<Rightarrow> None | Some s \<Rightarrow>
     if s = ''MOBILE'' then Some Mobile
     else if s = ''DESKTOP'' then Some Desktop
     else if s = ''WEB'' then Some Web
     else if s = ''HEADLESS'' then Some Headless
     else if s = ''SERVER'' then Some Server
     else None)"

interpretation device_type_codec: json_codec enc_device_type dec_device_type
proof unfold_locales
  show "dec_device_type (enc_device_type t) = Some t" for t
    by (cases t) (simp_all add: dec_device_type_def)
  show "enc_device_type t \<noteq> JNull" and "json_plain (enc_device_type t)" for t
    by (cases t; simp)+
qed

section \<open>Files (model/transfer.rs)\<close>

record file_metadata =
  fm_modified :: "string option"
  fm_accessed :: "string option"

definition enc_file_metadata :: "file_metadata \<Rightarrow> json" where
  "enc_file_metadata m = JObj (
     opt_entry ''modified'' JStr (fm_modified m) @
     opt_entry ''accessed'' JStr (fm_accessed m))"

definition dec_file_metadata :: "json \<Rightarrow> file_metadata option" where
  "dec_file_metadata j =
     (case get_fields [(''modified'', False), (''accessed'', False)] j of
        Some [a, b] \<Rightarrow>
          (case (opt_field dec_str a, opt_field dec_str b) of
             (Some ma, Some ac) \<Rightarrow> Some \<lparr>fm_modified = ma, fm_accessed = ac\<rparr>
           | _ \<Rightarrow> None)
      | _ \<Rightarrow> None)"

interpretation file_metadata_codec: json_codec enc_file_metadata dec_file_metadata
proof unfold_locales
  show "dec_file_metadata (enc_file_metadata m) = Some m" for m
    by (cases "fm_modified m"; cases "fm_accessed m")
      (simp_all add: enc_file_metadata_def dec_file_metadata_def)
  show "enc_file_metadata m \<noteq> JNull" and "json_plain (enc_file_metadata m)" for m
    by (simp_all add: enc_file_metadata_def split: option.split)
qed

record file_dto =
  fd_id :: string
  fd_file_name :: string
  fd_size :: u64
  fd_file_type :: string
  fd_sha256 :: "string option"
  fd_preview :: "string option"
  fd_metadata :: "file_metadata option"

definition enc_file_dto :: "file_dto \<Rightarrow> json" where
  "enc_file_dto f = JObj (
     [(''id'', JStr (fd_id f)), (''fileName'', JStr (fd_file_name f)),
      (''size'', enc_word (fd_size f)), (''fileType'', JStr (fd_file_type f))] @
     opt_entry ''sha256'' JStr (fd_sha256 f) @
     opt_entry ''preview'' JStr (fd_preview f) @
     opt_entry ''metadata'' enc_file_metadata (fd_metadata f))"

definition dec_file_dto :: "json \<Rightarrow> file_dto option" where
  "dec_file_dto j =
     (case get_fields [(''id'', False), (''fileName'', False), (''size'', False),
         (''fileType'', False), (''sha256'', False), (''preview'', False), (''metadata'', False)] j of
        Some [a, b, c, d, e, f, g] \<Rightarrow>
          (case (req_field dec_str a, req_field dec_str b, req_field dec_word c, req_field dec_str d,
                 opt_field dec_str e, opt_field dec_str f, opt_field dec_file_metadata g) of
             (Some i, Some n, Some s, Some t, Some h, Some p, Some m) \<Rightarrow>
               Some \<lparr>fd_id = i, fd_file_name = n, fd_size = s, fd_file_type = t,
                 fd_sha256 = h, fd_preview = p, fd_metadata = m\<rparr>
           | _ \<Rightarrow> None)
      | _ \<Rightarrow> None)"

interpretation file_dto_codec: json_codec enc_file_dto dec_file_dto
proof unfold_locales
  show "dec_file_dto (enc_file_dto f) = Some f" for f
    by (cases "fd_sha256 f"; cases "fd_preview f"; cases "fd_metadata f")
      (simp_all add: enc_file_dto_def dec_file_dto_def codec_simps
        file_metadata_codec.roundtrip file_metadata_codec.not_null)
  show "enc_file_dto f \<noteq> JNull" and "json_plain (enc_file_dto f)" for f
    by (simp_all add: enc_file_dto_def codec_simps file_metadata_codec.plain split: option.split)
qed

end
