(* ===== verification/Signaling_Messages.thy ===== *)
theory Signaling_Messages
  imports Core_Model
begin

text \<open>
  The messages between a client and the signaling server, \<open>core/src/webrtc/signaling.rs\<close> lines
  18 to 175: the peer descriptions, the two message enums (internally tagged by \<open>type\<close>) and
  their JSON forms. A UUID travels as text, printed and parsed by the \<open>uuid\<close> crate, so the codecs
  that contain one take the record \<open>crates\<close> and round-trip under its law.
\<close>

section \<open>Peer descriptions\<close>

record client_info =
  ci_id :: uuid
  ci_alias :: string
  ci_version :: string
  ci_device_model :: "string option"
  ci_device_type :: "device_type option"
  ci_token :: string

record client_info_without_id =
  cw_alias :: string
  cw_version :: string
  cw_device_model :: "string option"
  cw_device_type :: "device_type option"
  cw_token :: string

definition client_info_from :: "client_info_without_id \<Rightarrow> uuid \<Rightarrow> client_info" where
  "client_info_from info i = \<lparr>ci_id = i, ci_alias = cw_alias info, ci_version = cw_version info,
     ci_device_model = cw_device_model info, ci_device_type = cw_device_type info,
     ci_token = cw_token info\<rparr>"

definition without_id :: "client_info \<Rightarrow> client_info_without_id" where
  "without_id info = \<lparr>cw_alias = ci_alias info, cw_version = ci_version info,
     cw_device_model = ci_device_model info, cw_device_type = ci_device_type info,
     cw_token = ci_token info\<rparr>"

lemma without_id_from [simp]: "without_id (client_info_from w i) = w"
  by (simp add: without_id_def client_info_from_def)

lemma from_without_id [simp]: "client_info_from (without_id c) (ci_id c) = c"
  by (simp add: without_id_def client_info_from_def)

lemma ci_id_from [simp]: "ci_id (client_info_from w i) = i"
  by (simp add: client_info_from_def)

definition enc_client_info_without_id :: "client_info_without_id \<Rightarrow> json" where
  "enc_client_info_without_id c = JObj (
     [(''alias'', JStr (cw_alias c)), (''version'', JStr (cw_version c))] @
     opt_entry ''deviceModel'' JStr (cw_device_model c) @
     opt_entry ''deviceType'' enc_device_type (cw_device_type c) @
     [(''token'', JStr (cw_token c))])"

definition dec_client_info_without_id :: "json \<Rightarrow> client_info_without_id option" where
  "dec_client_info_without_id j =
     (case get_fields [(''alias'', False), (''version'', False), (''deviceModel'', False),
         (''deviceType'', False), (''token'', False)] j of
        Some [a, b, c, d, e] \<Rightarrow>
          (case (req_field dec_str a, req_field dec_str b, opt_field dec_str c,
                 opt_field dec_device_type d, req_field dec_str e) of
             (Some al, Some ve, Some mo, Some ty, Some tok) \<Rightarrow>
               Some \<lparr>cw_alias = al, cw_version = ve, cw_device_model = mo,
                 cw_device_type = ty, cw_token = tok\<rparr>
           | _ \<Rightarrow> None)
      | _ \<Rightarrow> None)"

interpretation client_info_without_id_codec:
  json_codec enc_client_info_without_id dec_client_info_without_id
proof unfold_locales
  show "dec_client_info_without_id (enc_client_info_without_id c) = Some c" for c
    by (cases "cw_device_model c"; cases "cw_device_type c")
      (simp_all add: enc_client_info_without_id_def dec_client_info_without_id_def
        device_type_codec.roundtrip device_type_codec.not_null)
  show "enc_client_info_without_id c \<noteq> JNull" and "json_plain (enc_client_info_without_id c)" for c
    by (simp_all add: enc_client_info_without_id_def device_type_codec.plain split: option.split)
qed

definition enc_uuid :: "('z) crates_scheme \<Rightarrow> uuid \<Rightarrow> json" where
  "enc_uuid X u = JStr (x_uuid_print X u)"

definition dec_uuid :: "('z) crates_scheme \<Rightarrow> json \<Rightarrow> uuid option" where
  "dec_uuid X j = Option.bind (dec_str j) (x_uuid_parse X)"

lemma uuid_codec: "uuid_law X \<Longrightarrow> json_codec (enc_uuid X) (dec_uuid X)"
  by unfold_locales (auto simp: enc_uuid_def dec_uuid_def uuid_law_def)

definition enc_client_info :: "('z) crates_scheme \<Rightarrow> client_info \<Rightarrow> json" where
  "enc_client_info X c = JObj (
     [(''id'', enc_uuid X (ci_id c)), (''alias'', JStr (ci_alias c)),
      (''version'', JStr (ci_version c))] @
     opt_entry ''deviceModel'' JStr (ci_device_model c) @
     opt_entry ''deviceType'' enc_device_type (ci_device_type c) @
     [(''token'', JStr (ci_token c))])"

definition dec_client_info :: "('z) crates_scheme \<Rightarrow> json \<Rightarrow> client_info option" where
  "dec_client_info X j =
     (case get_fields [(''id'', False), (''alias'', False), (''version'', False),
         (''deviceModel'', False), (''deviceType'', False), (''token'', False)] j of
        Some [i, a, b, c, d, e] \<Rightarrow>
          (case (req_field (dec_uuid X) i, req_field dec_str a, req_field dec_str b,
                 opt_field dec_str c, opt_field dec_device_type d, req_field dec_str e) of
             (Some u, Some al, Some ve, Some mo, Some ty, Some tok) \<Rightarrow>
               Some \<lparr>ci_id = u, ci_alias = al, ci_version = ve, ci_device_model = mo,
                 ci_device_type = ty, ci_token = tok\<rparr>
           | _ \<Rightarrow> None)
      | _ \<Rightarrow> None)"

lemma client_info_codec:
  assumes "uuid_law X"
  shows "json_codec (enc_client_info X) (dec_client_info X)"
proof unfold_locales
  show "dec_client_info X (enc_client_info X c) = Some c" for c
    by (cases "ci_device_model c"; cases "ci_device_type c")
      (simp_all add: enc_client_info_def dec_client_info_def
        device_type_codec.roundtrip device_type_codec.not_null
        json_codec.roundtrip [OF uuid_codec [OF assms]])
  show "enc_client_info X c \<noteq> JNull" and "json_plain (enc_client_info X c)" for c
    by (simp_all add: enc_client_info_def device_type_codec.plain
        json_codec.plain [OF uuid_codec [OF assms]] split: option.split)
qed

section \<open>SDP messages\<close>

record ws_server_sdp_message =
  ss_peer :: client_info
  ss_session_id :: string
  ss_sdp :: string

record ws_client_sdp_message =
  cs_session_id :: string
  cs_target :: uuid
  cs_sdp :: string

definition ws_server_sdp_entries ::
    "('z) crates_scheme \<Rightarrow> ws_server_sdp_message \<Rightarrow> (string \<times> json) list" where
  "ws_server_sdp_entries X m =
     [(''peer'', enc_client_info X (ss_peer m)), (''sessionId'', JStr (ss_session_id m)),
      (''sdp'', JStr (ss_sdp m))]"

definition dec_ws_server_sdp :: "('z) crates_scheme \<Rightarrow> json \<Rightarrow> ws_server_sdp_message option" where
  "dec_ws_server_sdp X j =
     (case get_fields [(''peer'', False), (''sessionId'', False), (''sdp'', False)] j of
        Some [a, b, c] \<Rightarrow>
          (case (req_field (dec_client_info X) a, req_field dec_str b, req_field dec_str c) of
             (Some p, Some s, Some d) \<Rightarrow> Some \<lparr>ss_peer = p, ss_session_id = s, ss_sdp = d\<rparr>
           | _ \<Rightarrow> None)
      | _ \<Rightarrow> None)"

definition ws_client_sdp_entries ::
    "('z) crates_scheme \<Rightarrow> ws_client_sdp_message \<Rightarrow> (string \<times> json) list" where
  "ws_client_sdp_entries X m =
     [(''sessionId'', JStr (cs_session_id m)), (''target'', enc_uuid X (cs_target m)),
      (''sdp'', JStr (cs_sdp m))]"

definition dec_ws_client_sdp :: "('z) crates_scheme \<Rightarrow> json \<Rightarrow> ws_client_sdp_message option" where
  "dec_ws_client_sdp X j =
     (case get_fields [(''sessionId'', False), (''target'', False), (''sdp'', False)] j of
        Some [a, b, c] \<Rightarrow>
          (case (req_field dec_str a, req_field (dec_uuid X) b, req_field dec_str c) of
             (Some s, Some t, Some d) \<Rightarrow> Some \<lparr>cs_session_id = s, cs_target = t, cs_sdp = d\<rparr>
           | _ \<Rightarrow> None)
      | _ \<Rightarrow> None)"

section \<open>Messages of the server\<close>

datatype ws_server_message =
    Hello client_info "client_info list"
  | Join client_info
  | Update client_info
  | Left uuid
  | Offer ws_server_sdp_message
  | Answer ws_server_sdp_message
  | Error u16

fun enc_ws_server_message :: "('z) crates_scheme \<Rightarrow> ws_server_message \<Rightarrow> json" where
  "enc_ws_server_message X (Hello c ps) = add_tag ''type'' ''HELLO''
     (JObj [(''client'', enc_client_info X c), (''peers'', enc_list (enc_client_info X) ps)])"
| "enc_ws_server_message X (Join p) = add_tag ''type'' ''JOIN''
     (JObj [(''peer'', enc_client_info X p)])"
| "enc_ws_server_message X (Update p) = add_tag ''type'' ''UPDATE''
     (JObj [(''peer'', enc_client_info X p)])"
| "enc_ws_server_message X (Left i) = add_tag ''type'' ''LEFT''
     (JObj [(''peerId'', enc_uuid X i)])"
| "enc_ws_server_message X (Offer m) = add_tag ''type'' ''OFFER''
     (JObj (ws_server_sdp_entries X m))"
| "enc_ws_server_message X (Answer m) = add_tag ''type'' ''ANSWER''
     (JObj (ws_server_sdp_entries X m))"
| "enc_ws_server_message X (Error c) = add_tag ''type'' ''ERROR''
     (JObj [(''code'', enc_word c)])"

definition dec_single :: "string \<Rightarrow> (json \<Rightarrow> 'a option) \<Rightarrow> json \<Rightarrow> 'a option" where
  "dec_single n dec j =
     (case get_fields [(n, False)] j of Some [a] \<Rightarrow> req_field dec a | _ \<Rightarrow> None)"

definition dec_hello :: "('z) crates_scheme \<Rightarrow> json \<Rightarrow> ws_server_message option" where
  "dec_hello X j =
     (case get_fields [(''client'', False), (''peers'', False)] j of
        Some [a, b] \<Rightarrow>
          (case (req_field (dec_client_info X) a, req_field (dec_list (dec_client_info X)) b) of
             (Some c, Some ps) \<Rightarrow> Some (Hello c ps) | _ \<Rightarrow> None)
      | _ \<Rightarrow> None)"

definition dec_ws_server_message :: "('z) crates_scheme \<Rightarrow> json \<Rightarrow> ws_server_message option" where
  "dec_ws_server_message X j =
     (case untag ''type'' j of None \<Rightarrow> None | Some (t, c) \<Rightarrow>
        if t = ''HELLO'' then dec_hello X c
        else if t = ''JOIN'' then map_option Join (dec_single ''peer'' (dec_client_info X) c)
        else if t = ''UPDATE'' then map_option Update (dec_single ''peer'' (dec_client_info X) c)
        else if t = ''LEFT'' then map_option Left (dec_single ''peerId'' (dec_uuid X) c)
        else if t = ''OFFER'' then map_option Offer (dec_ws_server_sdp X c)
        else if t = ''ANSWER'' then map_option Answer (dec_ws_server_sdp X c)
        else if t = ''ERROR'' then map_option Error (dec_single ''code'' dec_word c)
        else None)"

lemma ws_server_message_codec:
  assumes "uuid_law X"
  shows "json_codec (enc_ws_server_message X) (dec_ws_server_message X)"
proof -
  note ci = client_info_codec [OF assms]
  note rules = json_codec.roundtrip [OF ci] json_codec.dec_list_enc [OF ci]
    json_codec.roundtrip [OF uuid_codec [OF assms]]
    dec_ws_server_message_def dec_hello_def dec_single_def dec_ws_server_sdp_def
    ws_server_sdp_entries_def untag_add_tag dec_enc_word
  note plain = json_codec.plain [OF ci] json_codec.plain_list [OF ci] enc_word_plain
    json_codec.plain [OF uuid_codec [OF assms]] ws_server_sdp_entries_def
  have "dec_ws_server_message X (enc_ws_server_message X m) = Some m" for m
    by (cases m) (simp_all add: rules)
  moreover have "enc_ws_server_message X m \<noteq> JNull" and "json_plain (enc_ws_server_message X m)" for m
    by (cases m; simp add: plain)+
  ultimately show ?thesis by unfold_locales
qed

section \<open>Messages of the client\<close>

datatype ws_client_message =
    CUpdate client_info_without_id
  | COffer ws_client_sdp_message
  | CAnswer ws_client_sdp_message

fun enc_ws_client_message :: "('z) crates_scheme \<Rightarrow> ws_client_message \<Rightarrow> json" where
  "enc_ws_client_message X (CUpdate i) = add_tag ''type'' ''UPDATE''
     (JObj [(''info'', enc_client_info_without_id i)])"
| "enc_ws_client_message X (COffer m) = add_tag ''type'' ''OFFER''
     (JObj (ws_client_sdp_entries X m))"
| "enc_ws_client_message X (CAnswer m) = add_tag ''type'' ''ANSWER''
     (JObj (ws_client_sdp_entries X m))"

definition dec_ws_client_message :: "('z) crates_scheme \<Rightarrow> json \<Rightarrow> ws_client_message option" where
  "dec_ws_client_message X j =
     (case untag ''type'' j of None \<Rightarrow> None | Some (t, c) \<Rightarrow>
        if t = ''UPDATE'' then map_option CUpdate (dec_single ''info'' dec_client_info_without_id c)
        else if t = ''OFFER'' then map_option COffer (dec_ws_client_sdp X c)
        else if t = ''ANSWER'' then map_option CAnswer (dec_ws_client_sdp X c)
        else None)"

lemma ws_client_message_codec:
  assumes "uuid_law X"
  shows "json_codec (enc_ws_client_message X) (dec_ws_client_message X)"
proof -
  note rules = client_info_without_id_codec.roundtrip
    json_codec.roundtrip [OF uuid_codec [OF assms]]
    dec_ws_client_message_def dec_single_def dec_ws_client_sdp_def
    ws_client_sdp_entries_def untag_add_tag
  note plain = client_info_without_id_codec.plain
    json_codec.plain [OF uuid_codec [OF assms]] ws_client_sdp_entries_def
  have "dec_ws_client_message X (enc_ws_client_message X m) = Some m" for m
    by (cases m) (simp_all add: rules)
  moreover have "enc_ws_client_message X m \<noteq> JNull" and "json_plain (enc_ws_client_message X m)" for m
    by (cases m; simp add: plain)+
  ultimately show ?thesis by unfold_locales
qed

end
