(* ===== verification/Ip_Group.thy ===== *)
theory Ip_Group
  imports Prelude
begin

text \<open>
  \<open>server/src/util/ip.rs\<close>: the group a client's address belongs to. An IPv4 address prints in
  dotted decimal and is its own group, an IPv6 address is cut to its first four segments, printed
  in hexadecimal. The lemmas decide when two addresses share a group.
\<close>

text \<open>\<open>std::net::IpAddr\<close>: four octets, or eight 16-bit segments.\<close>

datatype ip_addr =
    V4 u8 u8 u8 u8
  | V6 u16 u16 u16 u16 u16 u16 u16 u16

text \<open>\<open>Ipv4Addr::to_string\<close>: the octets in decimal, joined by dots.\<close>

definition v4_to_string :: "u8 \<Rightarrow> u8 \<Rightarrow> u8 \<Rightarrow> u8 \<Rightarrow> string" where
  "v4_to_string a b c d = join_with ''.''
     [show_dec (unat a), show_dec (unat b), show_dec (unat c), show_dec (unat d)]"

fun segments :: "ip_addr \<Rightarrow> u16 list" where
  "segments (V4 a b c d) = []"
| "segments (V6 a b c d e f g h) = [a, b, c, d, e, f, g, h]"

fun get_ip_group :: "ip_addr \<Rightarrow> string" where
  "get_ip_group (V4 a b c d) = v4_to_string a b c d"
| "get_ip_group (V6 a b c d e f g h) = join_with '':''
     [show_hex (unat a), show_hex (unat b), show_hex (unat c), show_hex (unat d)]"

section \<open>Parsing an address\<close>

text \<open>
  \<open>IpAddr::from_str\<close> of the standard library, as its recursive-descent parser does it: every
  reader returns the value and the rest of the input. A decimal octet has at most three digits
  and no leading zero; a hexadecimal segment at most four digits; an IPv6 address has eight
  segments or one \<open>::\<close>, and may end in a dotted IPv4 address.
\<close>

fun span_digits :: "(char \<Rightarrow> bool) \<Rightarrow> nat \<Rightarrow> string \<Rightarrow> string \<times> string" where
  "span_digits p (Suc n) (c # cs) =
     (if p c then (case span_digits p n cs of (a, r) \<Rightarrow> (c # a, r)) else ([], c # cs))"
| "span_digits p n cs = ([], cs)"

definition is_hex_digit :: "char \<Rightarrow> bool" where
  "is_hex_digit c \<longleftrightarrow> is_dec_digit c
     \<or> (97 \<le> (of_char c :: nat) \<and> (of_char c :: nat) \<le> 102)
     \<or> (65 \<le> (of_char c :: nat) \<and> (of_char c :: nat) \<le> 70)"

definition lower_char :: "char \<Rightarrow> char" where
  "lower_char c = (if 65 \<le> (of_char c :: nat) \<and> (of_char c :: nat) \<le> 90
     then char_of ((of_char c :: nat) + 32) else c)"

definition read_octet :: "string \<Rightarrow> (u8 \<times> string) option" where
  "read_octet s = (case span_digits is_dec_digit 4 s of (ds, r) \<Rightarrow>
     if ds = [] \<or> 3 < length ds \<or> (hd ds = CHR ''0'' \<and> 1 < length ds) \<or> 255 < read_radix 10 ds
     then None else Some (word_of_nat (read_radix 10 ds), r))"

definition read_segment :: "string \<Rightarrow> (u16 \<times> string) option" where
  "read_segment s = (case span_digits is_hex_digit 5 s of (ds, r) \<Rightarrow>
     if ds = [] \<or> 4 < length ds then None
     else Some (word_of_nat (read_radix 16 (map lower_char ds)), r))"

definition read_sep :: "char \<Rightarrow> nat \<Rightarrow> (string \<Rightarrow> ('a \<times> string) option) \<Rightarrow> string
    \<Rightarrow> ('a \<times> string) option" where
  "read_sep c i p s =
     (if i = 0 then p s else (case s of x # s' \<Rightarrow> if x = c then p s' else None | [] \<Rightarrow> None))"

definition read_v4 :: "string \<Rightarrow> ((u8 \<times> u8 \<times> u8 \<times> u8) \<times> string) option" where
  "read_v4 s =
     Option.bind (read_sep CHR ''.'' 0 read_octet s) (\<lambda>(a, s1).
     Option.bind (read_sep CHR ''.'' 1 read_octet s1) (\<lambda>(b, s2).
     Option.bind (read_sep CHR ''.'' 2 read_octet s2) (\<lambda>(c, s3).
     Option.bind (read_sep CHR ''.'' 3 read_octet s3) (\<lambda>(d, s4).
       Some ((a, b, c, d), s4)))))"

definition segment_pair :: "u8 \<Rightarrow> u8 \<Rightarrow> u16" where
  "segment_pair a b = ucast a * 256 + ucast b"

text \<open>\<open>read_groups\<close>: the segments read, the rest, and whether they end in an IPv4 address.\<close>

fun read_groups :: "nat \<Rightarrow> nat \<Rightarrow> string \<Rightarrow> u16 list \<times> bool \<times> string" where
  "read_groups i 0 s = ([], False, s)"
| "read_groups i (Suc n) s =
     (case (if 0 < n then read_sep CHR '':'' i read_v4 s else None) of
        Some ((a, b, c, d), r) \<Rightarrow> ([segment_pair a b, segment_pair c d], True, r)
      | None \<Rightarrow>
         (case read_sep CHR '':'' i read_segment s of
            None \<Rightarrow> ([], False, s)
          | Some (g, r) \<Rightarrow> (case read_groups (Suc i) n r of (gs, v4, r') \<Rightarrow> (g # gs, v4, r'))))"

fun v6_of :: "u16 list \<Rightarrow> ip_addr option" where
  "v6_of [a, b, c, d, e, f, g, h] = Some (V6 a b c d e f g h)"
| "v6_of _ = None"

definition read_v6 :: "string \<Rightarrow> (ip_addr \<times> string) option" where
  "read_v6 s =
     (case read_groups 0 8 s of (hs, v4, r) \<Rightarrow>
        if length hs = 8 then map_option (\<lambda>i. (i, r)) (v6_of hs)
        else if v4 then None
        else (case r of c1 # c2 # r' \<Rightarrow>
            if c1 = CHR '':'' \<and> c2 = CHR '':'' then
              (case read_groups 0 (7 - length hs) r' of (ts, _, r'') \<Rightarrow>
                 map_option (\<lambda>i. (i, r''))
                   (v6_of (hs @ replicate (8 - length hs - length ts) 0 @ ts)))
            else None
          | _ \<Rightarrow> None))"

definition ip_from_str :: "string \<Rightarrow> ip_addr option" where
  "ip_from_str s =
     (case (case read_v4 s of
              Some ((a, b, c, d), r) \<Rightarrow> Some (V4 a b c d, r)
            | None \<Rightarrow> read_v6 s) of
        Some (i, []) \<Rightarrow> Some i
      | _ \<Rightarrow> None)"

section \<open>When two addresses share a group\<close>

definition same_net :: "ip_addr \<Rightarrow> ip_addr \<Rightarrow> bool" where
  "same_net i j = (case (i, j) of
     (V4 a b c d, V4 a' b' c' d') \<Rightarrow> i = j
   | (V6 _ _ _ _ _ _ _ _, V6 _ _ _ _ _ _ _ _) \<Rightarrow> take 4 (segments i) = take 4 (segments j)
   | _ \<Rightarrow> False)"

lemma join_inject:
  assumes "ps \<noteq> []" "qs \<noteq> []" "\<forall>p \<in> set ps. c \<notin> set p" "\<forall>q \<in> set qs. c \<notin> set q"
  shows "join_with [c] ps = join_with [c] qs \<longleftrightarrow> ps = qs"
  using assms by (metis split_on_join)

lemma v4_to_string_inject:
  "v4_to_string a b c d = v4_to_string a' b' c' d' \<longleftrightarrow> a = a' \<and> b = b' \<and> c = c' \<and> d = d'"
  by (simp add: v4_to_string_def join_inject show_radix_no_sep show_radix_inject
      word_unat_eq_iff del: join_with.simps)

lemma colon_in_v6: "CHR '':'' \<in> set (get_ip_group (V6 a b c d e f g h))"
  by simp

lemma colon_not_in_v4: "CHR '':'' \<notin> set (v4_to_string a b c d)"
  by (simp add: v4_to_string_def show_radix_no_sep)

lemma v4_group_not_v6:
  "get_ip_group (V4 a b c d) \<noteq> get_ip_group (V6 a' b' c' d' e' f' g' h')"
  using colon_in_v6 [of a' b' c' d' e' f' g' h'] colon_not_in_v4 [of a b c d]
  by (metis get_ip_group.simps(1))

text \<open>
  C35. Two clients meet in the signaling server exactly when their addresses agree on the network
  part: equal IPv4 addresses, or IPv6 addresses with the same /64; an IPv4 client never shares a
  group with an IPv6 client.
\<close>

theorem get_ip_group_eq_iff: "get_ip_group i = get_ip_group j \<longleftrightarrow> same_net i j"
proof (cases i)
  case i: (V4 a b c d)
  show ?thesis
  proof (cases j)
    case (V4 a' b' c' d')
    with i show ?thesis by (simp add: same_net_def v4_to_string_inject)
  next
    case (V6 a' b' c' d' e' f' g' h')
    have "get_ip_group i \<noteq> get_ip_group j"
      using v4_group_not_v6 [of a b c d a' b' c' d' e' f' g' h'] i V6 by metis
    with i V6 show ?thesis by (simp add: same_net_def)
  qed
next
  case i: (V6 a b c d e f g h)
  show ?thesis
  proof (cases j)
    case (V4 a' b' c' d')
    have "get_ip_group i \<noteq> get_ip_group j"
      using v4_group_not_v6 [of a' b' c' d' a b c d e f g h] i V4 by metis
    with i V4 show ?thesis by (simp add: same_net_def)
  next
    case (V6 a' b' c' d' e' f' g' h')
    with i show ?thesis
      by (simp add: same_net_def join_inject show_radix_no_sep show_radix_inject
          word_unat_eq_iff del: join_with.simps)
  qed
qed

text \<open>
  All IPv4 clients that reach a dual-stack socket (addresses \<open>::ffff:a.b.c.d\<close>) fall into
  one group, \<open>0:0:0:0\<close>, whatever their IPv4 address is.
\<close>

theorem v4_mapped_one_group: "get_ip_group (V6 0 0 0 0 0 0xFFFF g h) = ''0:0:0:0''"
proof -
  have "show_hex 0 = ''0''" by code_simp
  then show ?thesis by simp
qed

end
