(* ===== verification/Ws_Controller.thy ===== *)
theory Ws_Controller
  imports Signaling_Messages Ip_Group
begin

text \<open>
  The signaling server, \<open>server/src/controller/ws_controller.rs\<close> with \<open>config/state.rs\<close>,
  \<open>config/error.rs\<close> and \<open>config/scheduler.rs\<close>. The shared state is a map from IP groups to the
  peers connected from there and a request counter per group; every critical section (the code
  between taking and releasing the lock of \<open>tx_map\<close>) is one function on it, and the messages
  the code sends after releasing the lock are returned as a list of (channel, message) pairs in
  the order of the code. A channel is a number standing for the \<open>mpsc::Sender\<close> of a connection.
\<close>

section \<open>Limits (the two LazyLock statics)\<close>

record limits =
  max_connections :: usize
  max_requests :: u32

text \<open>The environment variable or its default, parsed; \<open>None\<close> is the panic of \<open>unwrap\<close>.\<close>

definition max_connections_of_env :: "string option \<Rightarrow> usize option" where
  "max_connections_of_env v =
     map_option word_of_nat (parse_uint (2 ^ 64 - 1) (case v of None \<Rightarrow> ''10'' | Some s \<Rightarrow> s))"

definition max_requests_of_env :: "string option \<Rightarrow> u32 option" where
  "max_requests_of_env v =
     map_option word_of_nat (parse_uint (2 ^ 32 - 1) (case v of None \<Rightarrow> ''1000'' | Some s \<Rightarrow> s))"

section \<open>Errors (config/error.rs)\<close>

record app_error =
  ae_status :: u16
  ae_message :: "string option"
  ae_error :: "string option"

definition app_error_status :: "u16 \<Rightarrow> string option \<Rightarrow> app_error" where
  "app_error_status st msg = \<lparr>ae_status = st, ae_message = msg, ae_error = None\<rparr>"

definition app_error_from :: "string \<Rightarrow> app_error" where
  "app_error_from err = \<lparr>ae_status = 500, ae_message = None, ae_error = Some err\<rparr>"

text \<open>The status and body of the response; the log line for server errors is not modelled.\<close>

definition app_error_into_response :: "app_error \<Rightarrow> u16 \<times> string option" where
  "app_error_into_response e =
     (case ae_message e of Some m \<Rightarrow> (ae_status e, Some m) | None \<Rightarrow> (ae_status e, None))"

section \<open>Shared state (config/state.rs)\<close>

type_synonym chan = nat

record client_state =
  st_client :: client_info_without_id
  st_tx :: chan

type_synonym tx_local_map = "(uuid, client_state) hmap"

record app_state =
  tx_map :: "(string, tx_local_map) hmap"
  request_count_map :: "(string, u32) hmap"

definition app_state_new :: app_state where
  "app_state_new = \<lparr>tx_map = hm_new, request_count_map = hm_new\<rparr>"

text \<open>The hourly job of \<open>config/scheduler.rs\<close>.\<close>

definition clear_request_counts :: "app_state \<Rightarrow> app_state" where
  "clear_request_counts s = s\<lparr>request_count_map := []\<rparr>"

section \<open>The upgrade handler\<close>

text \<open>
  \<open>str::trim\<close> on the header's text (visible ASCII and tabs only, so these are all the white
  space characters that can occur).
\<close>

definition is_ws :: "char \<Rightarrow> bool" where
  "is_ws c \<longleftrightarrow> c = CHR '' '' \<or> (9 \<le> (of_char c :: nat) \<and> (of_char c :: nat) \<le> 13)"

definition trim :: "string \<Rightarrow> string" where
  "trim s = rev (dropWhile is_ws (rev (dropWhile is_ws s)))"

text \<open>
  The client's address: the last component of \<open>x-forwarded-for\<close> (its value as text, \<open>None\<close>
  when the header is missing or not text) if it parses, the socket's address otherwise.
\<close>

definition client_ip :: "string option \<Rightarrow> ip_addr \<Rightarrow> ip_addr" where
  "client_ip xff addr =
     (case Option.bind (map_option (\<lambda>v. trim (last (split_on CHR '','' v))) xff) ip_from_str of
        Some i \<Rightarrow> i
      | None \<Rightarrow> addr)"

text \<open>
  The query parameter decoded in three steps, each failing with status 400. \<open>new_id\<close> is the
  value of \<open>Uuid::new_v4\<close>.
\<close>

definition decode_register :: "('z) crates_scheme \<Rightarrow> uuid \<Rightarrow> string \<Rightarrow> app_error + client_info" where
  "decode_register X new_id d =
     (case x_b64_decode X d of
        None \<Rightarrow> Inl (app_error_status 400 None)
      | Some raw \<Rightarrow>
         (case from_utf8 raw of
            None \<Rightarrow> Inl (app_error_status 400 None)
          | Some txt \<Rightarrow>
             (case from_text X dec_client_info_without_id txt of
                None \<Rightarrow> Inl (app_error_status 400 None)
              | Some dto \<Rightarrow> Inr (client_info_from dto new_id))))"

text \<open>The arguments with which \<open>ws_handler\<close> starts \<open>handle_socket\<close>, or the error it answers.\<close>

definition ws_handler ::
    "('z) crates_scheme \<Rightarrow> uuid \<Rightarrow> string \<Rightarrow> ip_addr \<Rightarrow> string option
      \<Rightarrow> app_error + (string \<times> client_info)" where
  "ws_handler X new_id d addr xff =
     (case decode_register X new_id d of
        Inl e \<Rightarrow> Inl e
      | Inr peer \<Rightarrow> Inr (get_ip_group (client_ip xff addr), peer))"

section \<open>The request counter\<close>

definition protect_ddos_request_count ::
    "limits \<Rightarrow> string \<Rightarrow> (string, u32) hmap \<Rightarrow> (app_error + unit) \<times> (string, u32) hmap" where
  "protect_ddos_request_count L g m =
     (let m1 = hm_entry_or_insert g 0 m;
          count = the (hm_get m1 g)
      in if max_requests L \<le> count then (Inl (app_error_status 429 None), m1)
         else (Inr (), hm_insert g (count + 1) m1))"

section \<open>Connecting\<close>

datatype lock_result =
    LimitReached
  | Joined "chan list" "client_info list"  \<comment> \<open>\<open>peers_tx\<close> and \<open>peers\<close>\<close>

text \<open>The block \<open>'lock\<close> of \<open>handle_socket\<close>.\<close>

definition connect_locked ::
    "limits \<Rightarrow> string \<Rightarrow> client_info \<Rightarrow> chan \<Rightarrow> app_state \<Rightarrow> lock_result \<times> app_state" where
  "connect_locked L g peer tx s =
     (let tm = hm_entry_or_insert g hm_new (tx_map s);
          local = the (hm_get tm g)
      in if unat (max_connections L) \<le> hm_len local then (LimitReached, s\<lparr>tx_map := tm\<rparr>)
         else
           (case protect_ddos_request_count L g (request_count_map s) of
              (Inl _, rc) \<Rightarrow> (LimitReached, s\<lparr>tx_map := tm, request_count_map := rc\<rparr>)
            | (Inr _, rc) \<Rightarrow>
               (Joined (map st_tx (hm_values local))
                  (map (\<lambda>(k, v). client_info_from (st_client v) k) local),
                s\<lparr>request_count_map := rc,
                  tx_map := hm_insert g
                    (hm_insert (ci_id peer) \<lparr>st_client = without_id peer, st_tx = tx\<rparr> local) tm\<rparr>)))"

text \<open>What the connection sends once the lock is released.\<close>

fun connect_sends :: "client_info \<Rightarrow> chan \<Rightarrow> lock_result \<Rightarrow> (chan \<times> ws_server_message) list" where
  "connect_sends peer tx LimitReached = []"
| "connect_sends peer tx (Joined peers_tx peers) =
     map (\<lambda>t. (t, Join peer)) peers_tx @ [(tx, Hello peer peers)]"

section \<open>Disconnecting\<close>

definition disconnect_locked :: "string \<Rightarrow> uuid \<Rightarrow> app_state \<Rightarrow> chan list \<times> app_state" where
  "disconnect_locked g peer_id s =
     (case hm_get (tx_map s) g of
        Some local \<Rightarrow>
          (let local' = hm_remove peer_id local
           in if hm_is_empty local' then ([], s\<lparr>tx_map := hm_remove g (tx_map s)\<rparr>)
              else (map st_tx (hm_values local'), s\<lparr>tx_map := hm_insert g local' (tx_map s)\<rparr>))
      | None \<Rightarrow> ([], s))"

definition disconnect_sends :: "uuid \<Rightarrow> chan list \<Rightarrow> (chan \<times> ws_server_message) list" where
  "disconnect_sends peer_id remaining = map (\<lambda>t. (t, Left peer_id)) remaining"

section \<open>Messages of a connected client\<close>

definition send_update_to_other_peers ::
    "string \<Rightarrow> uuid \<Rightarrow> client_info_without_id \<Rightarrow> app_state
      \<Rightarrow> (chan \<times> ws_server_message) list \<times> app_state" where
  "send_update_to_other_peers g peer_id info s =
     (case hm_get (tx_map s) g of
        None \<Rightarrow> ([], s)
      | Some local \<Rightarrow>
         (case hm_get local peer_id of
            None \<Rightarrow> ([], s)
          | Some peer_state \<Rightarrow>
             (let local' = hm_insert peer_id (peer_state\<lparr>st_client := info\<rparr>) local;
                  peers_tx = map (\<lambda>(_, v). st_tx v) (filter (\<lambda>(k, _). k \<noteq> peer_id) local')
              in (map (\<lambda>t. (t, Update (client_info_from info peer_id))) peers_tx,
                  s\<lparr>tx_map := hm_insert g local' (tx_map s)\<rparr>))))"

datatype sdp_wrapper = WOffer ws_client_sdp_message | WAnswer ws_client_sdp_message

fun sdp_inner :: "sdp_wrapper \<Rightarrow> ws_client_sdp_message" where
  "sdp_inner (WOffer m) = m"
| "sdp_inner (WAnswer m) = m"

definition to_server_sdp :: "client_info \<Rightarrow> ws_client_sdp_message \<Rightarrow> ws_server_sdp_message" where
  "to_server_sdp origin m =
     \<lparr>ss_peer = origin, ss_session_id = cs_session_id m, ss_sdp = cs_sdp m\<rparr>"

fun wrapper_message :: "client_info \<Rightarrow> sdp_wrapper \<Rightarrow> ws_server_message" where
  "wrapper_message origin (WOffer m) = Offer (to_server_sdp origin m)"
| "wrapper_message origin (WAnswer m) = Answer (to_server_sdp origin m)"

definition send_to_peer ::
    "string \<Rightarrow> client_info \<Rightarrow> sdp_wrapper \<Rightarrow> app_state \<Rightarrow> (chan \<times> ws_server_message) list" where
  "send_to_peer g origin msg s =
     (case hm_get (tx_map s) g of
        None \<Rightarrow> []
      | Some local \<Rightarrow>
         (case hm_get local (cs_target (sdp_inner msg)) of
            None \<Rightarrow> []
          | Some peer_state \<Rightarrow> [(st_tx peer_state, wrapper_message origin msg)]))"

text \<open>
  One round of \<open>recv_task\<close>. Only text frames with a well-formed message count as requests;
  when the group's budget is used up the client gets an error message and the task returns.
  \<open>peer\<close> is the description captured when the connection was opened.
\<close>

datatype ws_frame = Text string | Binary bytes | Ping bytes | Pong bytes | Close

datatype recv_next = Continue | Return

definition dispatch_message ::
    "string \<Rightarrow> client_info \<Rightarrow> ws_client_message \<Rightarrow> app_state
      \<Rightarrow> (chan \<times> ws_server_message) list \<times> app_state" where
  "dispatch_message g peer msg s =
     (case msg of
        CUpdate info \<Rightarrow> send_update_to_other_peers g (ci_id peer) info s
      | COffer sdp \<Rightarrow> (send_to_peer g peer (WOffer sdp) s, s)
      | CAnswer sdp \<Rightarrow> (send_to_peer g peer (WAnswer sdp) s, s))"

definition recv_frame ::
    "('z) crates_scheme \<Rightarrow> limits \<Rightarrow> string \<Rightarrow> client_info \<Rightarrow> chan \<Rightarrow> ws_frame \<Rightarrow> app_state
      \<Rightarrow> recv_next \<times> (chan \<times> ws_server_message) list \<times> app_state" where
  "recv_frame X L g peer tx frame s =
     (case frame of
        Text txt \<Rightarrow>
          (case from_text X (dec_ws_client_message X) txt of
             None \<Rightarrow> (Continue, [], s)
           | Some msg \<Rightarrow>
              (case protect_ddos_request_count L g (request_count_map s) of
                 (Inl _, rc) \<Rightarrow> (Return, [(tx, Error 429)], s\<lparr>request_count_map := rc\<rparr>)
               | (Inr _, rc) \<Rightarrow>
                  (case dispatch_message g peer msg (s\<lparr>request_count_map := rc\<rparr>) of
                     (sends, s') \<Rightarrow> (Continue, sends, s'))))
      | _ \<Rightarrow> (Continue, [], s))"

end
