(* ===== verification/Ws_Rooms.thy ===== *)
theory Ws_Rooms
  imports Ws_Controller
begin

text \<open>
  The abstract view of the signaling server and the refinement of the critical sections: a
  group is a finite partial map from peer ids to their state (\<open>members\<close>), its request budget a
  number (\<open>used\<close>). Each operation on the nested hash maps is shown to be the expected
  operation on this view; the state invariant \<open>ws_inv\<close> is kept by all of them; the request
  counter is an instance of the locale \<open>rate_limiter\<close>.
\<close>

section \<open>Abstract view and invariant\<close>

definition members :: "app_state \<Rightarrow> string \<Rightarrow> uuid \<Rightarrow> client_state option" where
  "members s g = (case hm_get (tx_map s) g of None \<Rightarrow> Map.empty | Some m \<Rightarrow> hm_get m)"

definition used :: "app_state \<Rightarrow> string \<Rightarrow> u32" where
  "used s g = (case hm_get (request_count_map s) g of None \<Rightarrow> 0 | Some c \<Rightarrow> c)"

definition ws_inv :: "limits \<Rightarrow> app_state \<Rightarrow> bool" where
  "ws_inv L s \<longleftrightarrow> hm_wf (tx_map s) \<and> hm_wf (request_count_map s)
     \<and> (\<forall>g m. hm_get (tx_map s) g = Some m \<longrightarrow> hm_wf m \<and> hm_len m \<le> unat (max_connections L))
     \<and> (\<forall>g. used s g \<le> max_requests L)"

lemma members_tx_map:
  "hm_get (tx_map s) g = Some m \<Longrightarrow> members s g = hm_get m"
  "hm_get (tx_map s) g = None \<Longrightarrow> members s g = Map.empty"
  by (simp_all add: members_def)

lemma ws_invD:
  assumes "ws_inv L s"
  shows "hm_wf (tx_map s)" "hm_wf (request_count_map s)" "used s g \<le> max_requests L"
    and "hm_get (tx_map s) g = Some m \<Longrightarrow> hm_wf m"
    and "hm_get (tx_map s) g = Some m \<Longrightarrow> hm_len m \<le> unat (max_connections L)"
  using assms by (auto simp: ws_inv_def)

lemma card_members:
  assumes "ws_inv L s" "hm_get (tx_map s) g = Some m"
  shows "card (dom (members s g)) = hm_len m"
  using assms by (simp add: members_def dom_def hm.len_dom ws_invD(4))

lemma finite_members: "ws_inv L s \<Longrightarrow> finite (dom (members s g))"
  using hm.finite_dom by (auto simp: members_def dom_def ws_invD(4) split: option.splits)

lemma members_bounded:
  assumes "ws_inv L s"
  shows "card (dom (members s g)) \<le> unat (max_connections L)"
proof (cases "hm_get (tx_map s) g")
  case None
  then show ?thesis by (simp add: members_def)
next
  case (Some m)
  with card_members [OF assms Some] ws_invD(5) [OF assms Some] show ?thesis by simp
qed

text \<open>Changes of the two maps, seen through the abstraction.\<close>

lemma members_insert:
  "members (s\<lparr>tx_map := hm_insert g m (tx_map s)\<rparr>) h = (if h = g then hm_get m else members s h)"
  by (simp add: members_def map_simps)

lemma members_remove:
  "members (s\<lparr>tx_map := hm_remove g (tx_map s)\<rparr>) h = (if h = g then Map.empty else members s h)"
  by (simp add: members_def map_simps)

lemma members_request_count [simp]:
  "members (s\<lparr>request_count_map := rc\<rparr>) = members s"
  by (simp add: members_def fun_eq_iff)

lemma members_request_count_tx [simp]:
  "members (s\<lparr>request_count_map := rc, tx_map := tm\<rparr>) = members (s\<lparr>tx_map := tm\<rparr>)"
  by (simp add: members_def fun_eq_iff)

lemma used_request_count_tx [simp]:
  "used (s\<lparr>tx_map := tm, request_count_map := rc\<rparr>) = used (s\<lparr>request_count_map := rc\<rparr>)"
  by (simp add: used_def fun_eq_iff)

lemma members_tx_map_cong:
  "tx_map s = tx_map t \<Longrightarrow> members s = members t"
  by (simp add: members_def fun_eq_iff)

lemma used_tx_map [simp]: "used (s\<lparr>tx_map := tm\<rparr>) = used s"
  by (simp add: used_def fun_eq_iff)

lemma members_entry:
  "tx_map t = hm_entry_or_insert g hm_new (tx_map s) \<Longrightarrow> members t = members s"
  by (auto simp: members_def map_simps hm_new_def fun_eq_iff split: option.splits)

lemma ws_inv_tx_insert:
  assumes "ws_inv L s" "hm_wf m" "hm_len m \<le> unat (max_connections L)"
  shows "ws_inv L (s\<lparr>tx_map := hm_insert g m (tx_map s)\<rparr>)"
  using assms by (auto simp: ws_inv_def map_simps)

lemma ws_inv_tx_remove: "ws_inv L s \<Longrightarrow> ws_inv L (s\<lparr>tx_map := hm_remove g (tx_map s)\<rparr>)"
  by (auto simp: ws_inv_def map_simps)

lemma ws_inv_tx_entry:
  "ws_inv L s \<Longrightarrow> ws_inv L (s\<lparr>tx_map := hm_entry_or_insert g hm_new (tx_map s)\<rparr>)"
  by (auto simp: ws_inv_def map_simps hm_new_def hm_len_def split: option.splits)

section \<open>The request counter\<close>

text \<open>
  The contract of a rate limiter: a key may pass \<open>limit\<close> times, a passing request uses one unit
  of its own key's budget, a refused one changes no budget.
\<close>

locale rate_limiter =
  fixes hit :: "'k \<Rightarrow> 'st \<Rightarrow> bool \<times> 'st" and spent :: "'st \<Rightarrow> 'k \<Rightarrow> nat" and limit :: nat
  assumes hit_passes: "fst (hit k st) \<longleftrightarrow> spent st k < limit"
    and hit_spent: "spent (snd (hit k st)) j =
      (if j = k \<and> spent st k < limit then Suc (spent st j) else spent st j)"

fun run_hits :: "('k \<Rightarrow> 'st \<Rightarrow> bool \<times> 'st) \<Rightarrow> 'k list \<Rightarrow> 'st \<Rightarrow> bool list \<times> 'st" where
  "run_hits hit [] st = ([], st)"
| "run_hits hit (k # ks) st =
     (case hit k st of (b, st') \<Rightarrow> case run_hits hit ks st' of (bs, st'') \<Rightarrow> (b # bs, st''))"

definition passed :: "'k \<Rightarrow> 'k list \<Rightarrow> bool list \<Rightarrow> nat" where
  "passed k ks bs = length (filter (\<lambda>(j, b). j = k \<and> b) (zip ks bs))"

context rate_limiter
begin

lemma passed_run:
  "spent st k \<le> limit \<Longrightarrow>
   passed k ks (fst (run_hits hit ks st)) = min (count_list ks k) (limit - spent st k)"
proof (induction ks arbitrary: st)
  case Nil
  then show ?case by (simp add: passed_def)
next
  case (Cons j ks)
  obtain b st' where h: "hit j st = (b, st')" by force
  have b: "b \<longleftrightarrow> spent st j < limit" and st': "spent st' k =
      (if k = j \<and> spent st j < limit then Suc (spent st k) else spent st k)"
    using hit_passes [of j st] hit_spent [of j st k] h by simp_all
  have "passed k ks (fst (run_hits hit ks st')) = min (count_list ks k) (limit - spent st' k)"
    using Cons.prems st' by (intro Cons.IH) auto
  then show ?case
    using Cons.prems b st' h by (auto simp: passed_def split: prod.split)
qed

end

definition group_hit ::
    "limits \<Rightarrow> string \<Rightarrow> (string, u32) hmap \<Rightarrow> bool \<times> (string, u32) hmap" where
  "group_hit L g m =
     (case protect_ddos_request_count L g m of (r, m') \<Rightarrow> (case r of Inl _ \<Rightarrow> False | Inr _ \<Rightarrow> True, m'))"

definition group_spent :: "(string, u32) hmap \<Rightarrow> string \<Rightarrow> nat" where
  "group_spent m g = (case hm_get m g of None \<Rightarrow> 0 | Some c \<Rightarrow> unat c)"

lemma unat_Suc_less:
  fixes c m :: u32
  assumes "\<not> m \<le> c"
  shows "unat (c + 1) = Suc (unat c)"
proof -
  have "unat c < unat m" and "unat m < 2 ^ LENGTH(32)"
    using assms by (simp add: word_le_nat_alt, intro unsigned_less)
  then show ?thesis
    by (simp add: unat_word_ariths)
qed

interpretation ddos: rate_limiter "group_hit L" group_spent "unat (max_requests L)" for L
proof unfold_locales
  show "fst (group_hit L g m) \<longleftrightarrow> group_spent m g < unat (max_requests L)" for g m
    by (auto simp: group_hit_def protect_ddos_request_count_def group_spent_def Let_def map_simps
        word_le_nat_alt split: option.splits)
  show "group_spent (snd (group_hit L g m)) h =
      (if h = g \<and> group_spent m g < unat (max_requests L) then Suc (group_spent m h)
       else group_spent m h)" for g m h
    by (auto simp: group_hit_def protect_ddos_request_count_def group_spent_def Let_def map_simps
        word_le_nat_alt unat_Suc_less split: option.splits)
qed

lemma protect_cases:
  assumes "protect_ddos_request_count L g (request_count_map s) = (r, rc)"
  shows "(case r of
      Inl e \<Rightarrow> e = app_error_status 429 None \<and> max_requests L \<le> used s g
        \<and> used (t\<lparr>request_count_map := rc\<rparr>) = used s
    | Inr _ \<Rightarrow> used s g < max_requests L
        \<and> used (t\<lparr>request_count_map := rc\<rparr>) = (used s)(g := used s g + 1))"
  using assms
  by (auto simp: protect_ddos_request_count_def Let_def map_simps used_def fun_eq_iff
      word_gt_0 not_le split: if_splits option.splits sum.splits)

lemma ws_inv_protect:
  assumes inv: "ws_inv L s"
    and p: "protect_ddos_request_count L g (request_count_map s) = (r, rc)"
  shows "ws_inv L (s\<lparr>request_count_map := rc\<rparr>)"
proof -
  have "hm_wf rc"
    using p ws_invD(2) [OF inv]
    by (auto simp: protect_ddos_request_count_def Let_def map_simps split: if_splits)
  moreover have "used (s\<lparr>request_count_map := rc\<rparr>) h \<le> max_requests L" for h
  proof (cases r)
    case (Inl e)
    then show ?thesis
      using protect_cases [OF p, where t = s] ws_invD(3) [OF inv] by simp
  next
    case (Inr u)
    then have lt: "used s g < max_requests L"
      and eq: "used (s\<lparr>request_count_map := rc\<rparr>) = (used s)(g := used s g + 1)"
      using protect_cases [OF p, where t = s] by simp_all
    from lt have "used s g + 1 \<le> max_requests L"
      using unat_Suc_less [of "max_requests L" "used s g"]
      by (simp add: word_le_nat_alt word_less_nat_alt not_le)
    then show ?thesis
      using eq ws_invD(3) [OF inv] by simp
  qed
  ultimately show ?thesis
    using inv by (simp add: ws_inv_def)
qed

section \<open>Connecting refines adding a member\<close>

definition others_tx :: "(uuid \<Rightarrow> client_state option) \<Rightarrow> chan set" where
  "others_tx r = st_tx ` ran r"

definition peer_infos :: "(uuid \<Rightarrow> client_state option) \<Rightarrow> client_info set" where
  "peer_infos r = {client_info_from (st_client v) i | i v. r i = Some v}"

lemma set_local_values:
  "hm_wf m \<Longrightarrow> set (map st_tx (hm_values m)) = others_tx (hm_get m)"
  by (force simp: others_tx_def ran_def set_hm_values)

lemma set_local_infos:
  "hm_wf m \<Longrightarrow>
   set (map (\<lambda>(k, v). client_info_from (st_client v) k) m) = peer_infos (hm_get m)"
  by (force simp: peer_infos_def hm_get_eq_Some)

lemma entry_local:
  assumes "ws_inv L s"
  obtains m where "hm_get (hm_entry_or_insert g hm_new (tx_map s)) g = Some m"
    and "hm_get m = members s g" and "hm_wf m"
    and "card (dom (members s g)) = hm_len m" and "hm_len m \<le> unat (max_connections L)"
proof (cases "hm_get (tx_map s) g")
  case None
  then show thesis
    by (intro that [of hm_new]) (auto simp: map_simps members_def hm_new_def hm_len_def)
next
  case (Some m)
  then show thesis
    using ws_invD(4) [OF assms Some] ws_invD(5) [OF assms Some] card_members [OF assms Some]
    by (intro that [of m]) (auto simp: map_simps members_def)
qed

definition join_room :: "limits \<Rightarrow> string \<Rightarrow> client_info \<Rightarrow> chan \<Rightarrow> app_state
    \<Rightarrow> lock_result \<times> app_state \<Rightarrow> bool" where
  "join_room L g peer tx s r \<longleftrightarrow>
     (let full = (unat (max_connections L) \<le> card (dom (members s g)));
          exhausted = (max_requests L \<le> used s g)
      in case r of
           (LimitReached, t) \<Rightarrow> (full \<or> exhausted) \<and> members t = members s \<and> used t = used s
         | (Joined txs ps, t) \<Rightarrow> \<not> full \<and> \<not> exhausted
             \<and> members t = (members s)(g := (members s g)(ci_id peer \<mapsto>
                  \<lparr>st_client = without_id peer, st_tx = tx\<rparr>))
             \<and> used t = (used s)(g := used s g + 1)
             \<and> set txs = others_tx (members s g) \<and> set ps = peer_infos (members s g))"

lemma connect_refines:
  assumes inv: "ws_inv L s"
  shows "join_room L g peer tx s (connect_locked L g peer tx s)
    \<and> ws_inv L (snd (connect_locked L g peer tx s))"
proof -
  let ?tm = "hm_entry_or_insert g hm_new (tx_map s)"
  obtain m where m: "hm_get ?tm g = Some m" "hm_get m = members s g" "hm_wf m"
    "card (dom (members s g)) = hm_len m" "hm_len m \<le> unat (max_connections L)"
    using entry_local [OF inv] .
  have mem: "members (s\<lparr>tx_map := ?tm\<rparr>) = members s"
    by (rule members_entry) simp
  note inv_tm = ws_inv_tx_entry [OF inv, of g]
  show ?thesis
  proof (cases "unat (max_connections L) \<le> hm_len m")
    case True
    then show ?thesis
      using m mem inv_tm by (simp add: connect_locked_def join_room_def)
  next
    case room: False
    obtain r rc where p: "protect_ddos_request_count L g (request_count_map s) = (r, rc)"
      by force
    have p': "protect_ddos_request_count L g (request_count_map (s\<lparr>tx_map := ?tm\<rparr>)) = (r, rc)"
      using p by simp
    note inv_rc = ws_inv_protect [OF inv_tm p']
    show ?thesis
    proof (cases r)
      case (Inl e)
      have "members (s\<lparr>tx_map := ?tm, request_count_map := rc\<rparr>) = members s"
        using mem members_request_count by metis
      then show ?thesis
        using Inl room m p inv_rc protect_cases [OF p, where t = "s\<lparr>tx_map := ?tm\<rparr>"]
        by (simp add: connect_locked_def join_room_def)
    next
      case (Inr u)
      let ?cs = "\<lparr>st_client = without_id peer, st_tx = tx\<rparr>"
      let ?m' = "hm_insert (ci_id peer) ?cs m"
      let ?t = "s\<lparr>tx_map := ?tm, request_count_map := rc\<rparr>"
      have len: "hm_len ?m' \<le> unat (max_connections L)"
        using room hm_len_insert_le [OF m(3), of "ci_id peer" ?cs] by simp
      have "members ?t = members s"
        using mem members_request_count by metis
      then have "members (?t\<lparr>tx_map := hm_insert g ?m' (tx_map ?t)\<rparr>)
          = (members s)(g := (members s g)(ci_id peer \<mapsto> ?cs))"
        using m(2) members_insert [where s = ?t and g = g and m = ?m']
        by (intro ext) (simp add: map_simps fun_eq_iff)
      moreover have "ws_inv L (?t\<lparr>tx_map := hm_insert g ?m' (tx_map ?t)\<rparr>)"
        using inv_rc m(3) len by (intro ws_inv_tx_insert) (auto simp: map_simps)
      ultimately show ?thesis
        using Inr room m p protect_cases [OF p, where t = s]
          set_local_values [OF m(3)] set_local_infos [OF m(3)]
        by (simp add: connect_locked_def join_room_def not_le)
    qed
  qed
qed

section \<open>The other operations\<close>

definition leave_room ::
    "string \<Rightarrow> uuid \<Rightarrow> app_state \<Rightarrow> chan list \<times> app_state \<Rightarrow> bool" where
  "leave_room g i s r \<longleftrightarrow>
     members (snd r) = (members s)(g := (members s g)(i := None))
     \<and> used (snd r) = used s
     \<and> set (fst r) = others_tx ((members s g)(i := None))
     \<and> ((members s g)(i := None) = Map.empty \<longrightarrow> hm_get (tx_map (snd r)) g = None)"

lemma hm_get_remove_fun: "hm_get (hm_remove i m) = (hm_get m)(i := None)"
  by (simp add: fun_eq_iff map_simps)

lemma hm_get_insert_fun: "hm_get (hm_insert i v m) = (hm_get m)(i \<mapsto> v)"
  by (simp add: fun_eq_iff map_simps)

lemma hm_is_empty_iff: "hm_wf m \<Longrightarrow> hm_is_empty m \<longleftrightarrow> hm_get m = Map.empty"
  by (simp add: hm_is_empty_def hm.len_0_iff fun_eq_iff)

lemma hm_len_remove_le: "hm_len (hm_remove k m) \<le> hm_len m"
  by (simp add: hm_len_def hm_remove_def)

lemma disconnect_refines:
  assumes inv: "ws_inv L s"
  shows "leave_room g i s (disconnect_locked g i s) \<and> ws_inv L (snd (disconnect_locked g i s))"
proof (cases "hm_get (tx_map s) g")
  case None
  then have "members s g = Map.empty" by (simp add: members_def)
  then show ?thesis
    using None inv by (auto simp: disconnect_locked_def leave_room_def others_tx_def)
next
  case (Some m)
  note wf = ws_invD(4) [OF inv Some] and mem = members_tx_map(1) [OF Some]
  have wf': "hm_wf (hm_remove i m)"
    using wf by (simp add: map_simps)
  have len: "hm_len (hm_remove i m) \<le> unat (max_connections L)"
    using hm_len_remove_le [of i m] ws_invD(5) [OF inv Some] by simp
  show ?thesis
  proof (cases "hm_is_empty (hm_remove i m)")
    case True
    then have "(members s g)(i := None) = Map.empty"
      using hm_is_empty_iff [OF wf'] mem by (simp add: hm_get_remove_fun)
    moreover have "members (s\<lparr>tx_map := hm_remove g (tx_map s)\<rparr>) = (members s)(g := Map.empty)"
      by (intro ext) (simp add: members_remove)
    ultimately show ?thesis
      using True Some inv
      by (simp add: disconnect_locked_def leave_room_def others_tx_def ws_inv_tx_remove map_simps)
  next
    case False
    then have "(members s g)(i := None) \<noteq> Map.empty"
      using hm_is_empty_iff [OF wf'] mem by (simp add: hm_get_remove_fun)
    moreover have "members (s\<lparr>tx_map := hm_insert g (hm_remove i m) (tx_map s)\<rparr>)
        = (members s)(g := (members s g)(i := None))"
      by (intro ext) (simp add: members_insert hm_get_remove_fun mem)
    ultimately show ?thesis
      using False Some mem set_local_values [OF wf'] ws_inv_tx_insert [OF inv wf' len]
      by (simp add: disconnect_locked_def leave_room_def hm_get_remove_fun Let_def)
  qed
qed

definition update_room :: "string \<Rightarrow> uuid \<Rightarrow> client_info_without_id \<Rightarrow> app_state
    \<Rightarrow> (chan \<times> ws_server_message) list \<times> app_state \<Rightarrow> bool" where
  "update_room g i info s r \<longleftrightarrow>
     (case members s g i of
        None \<Rightarrow> r = ([], s)
      | Some v \<Rightarrow> members (snd r) = (members s)(g := (members s g)(i \<mapsto> v\<lparr>st_client := info\<rparr>))
          \<and> used (snd r) = used s
          \<and> set (fst r) = (\<lambda>t. (t, Update (client_info_from info i))) `
              others_tx ((members s g)(i := None)))"

lemma set_filtered_tx:
  assumes "hm_wf m"
  shows "set (map (\<lambda>(_, v). st_tx v) (filter (\<lambda>(k, _). k \<noteq> i) m)) =
    others_tx ((hm_get m)(i := None))"
  using assms by (force simp: others_tx_def ran_def hm_get_eq_Some split: if_splits)

lemma update_refines:
  assumes inv: "ws_inv L s"
  shows "update_room g i info s (send_update_to_other_peers g i info s)
    \<and> ws_inv L (snd (send_update_to_other_peers g i info s))"
proof (cases "hm_get (tx_map s) g")
  case None
  then show ?thesis
    using inv by (simp add: send_update_to_other_peers_def update_room_def members_def)
next
  case m: (Some m)
  note wf = ws_invD(4) [OF inv m] and mem = members_tx_map(1) [OF m]
  show ?thesis
  proof (cases "hm_get m i")
    case None
    then show ?thesis
      using inv m mem by (simp add: send_update_to_other_peers_def update_room_def)
  next
    case (Some v)
    let ?m' = "hm_insert i (v\<lparr>st_client := info\<rparr>) m"
    have wf': "hm_wf ?m'"
      using wf by (simp add: map_simps)
    have len: "hm_len ?m' \<le> unat (max_connections L)"
      using ws_invD(5) [OF inv m] Some wf by (simp add: hm.len_ins)
    have tx: "set (map (\<lambda>(_, v). st_tx v) (filter (\<lambda>(k, _). k \<noteq> i) ?m'))
        = others_tx ((members s g)(i := None))"
      unfolding set_filtered_tx [OF wf'] by (simp add: hm_get_insert_fun mem)
    have "members (s\<lparr>tx_map := hm_insert g ?m' (tx_map s)\<rparr>)
        = (members s)(g := (members s g)(i \<mapsto> v\<lparr>st_client := info\<rparr>))"
      by (intro ext) (simp add: members_insert hm_get_insert_fun mem)
    then show ?thesis
      using m mem Some ws_inv_tx_insert [OF inv wf' len] tx
      by (simp add: send_update_to_other_peers_def update_room_def Let_def del: set_map map_map)
        (metis list.set_map)
  qed
qed

lemma send_to_peer_eq:
  "send_to_peer g origin msg s =
     (case members s g (cs_target (sdp_inner msg)) of
        None \<Rightarrow> [] | Some v \<Rightarrow> [(st_tx v, wrapper_message origin msg)])"
  by (simp add: send_to_peer_def members_def split: option.splits)

lemma dispatch_inv: "ws_inv L s \<Longrightarrow> ws_inv L (snd (dispatch_message g peer msg s))"
  using update_refines by (auto simp: dispatch_message_def split: ws_client_message.splits)

lemma recv_frame_inv:
  assumes inv: "ws_inv L s"
  shows "ws_inv L (snd (snd (recv_frame X L g peer tx frame s)))"
proof -
  obtain r rc where p: "protect_ddos_request_count L g (request_count_map s) = (r, rc)"
    by force
  from dispatch_inv [OF ws_inv_protect [OF inv p]] ws_inv_protect [OF inv p] show ?thesis
    using inv p
    by (auto simp: recv_frame_def split: ws_frame.splits option.splits sum.splits prod.splits)
qed

lemma ws_inv_clear: "ws_inv L s \<Longrightarrow> ws_inv L (clear_request_counts s)"
  by (simp add: ws_inv_def clear_request_counts_def used_def)

lemma ws_inv_new: "ws_inv L app_state_new"
  by (simp add: ws_inv_def app_state_new_def used_def hm_new_def)

lemmas ws_inv_operations = ws_inv_new ws_inv_clear recv_frame_inv
  connect_refines [THEN conjunct2] disconnect_refines [THEN conjunct2]

end
