(* ===== verification/Ws_System.thy ===== *)
theory Ws_System
  imports Ws_Rooms
begin

text \<open>
  The whole signaling server as a transition system: any number of connections run
  \<open>handle_socket\<close> concurrently, interleaved at the await points. A connection is its phase (the
  part of \<open>handle_socket\<close> it is in, with the sends it has still to do), the contents of its
  \<open>mpsc::channel(4)\<close>, and the messages already written to its socket. A send to a full channel
  blocks, a send to a closed one is lost (\<open>let _ = tx.send(..)\<close>), and only \<open>send_task\<close>, spawned
  after the connect phase, takes messages out.
\<close>

section \<open>Connections and the system state\<close>

type_synonym sends = "(chan \<times> ws_server_message) list"

datatype phase =
    Setup sends      \<comment> \<open>before the tasks are spawned: \<open>Join\<close> to the others, \<open>Hello\<close> to itself\<close>
  | Running sends    \<comment> \<open>both tasks run; \<open>recv_task\<close> still has these messages to send\<close>
  | Stopping sends   \<comment> \<open>\<open>recv_task\<close> is about to return after sending these\<close>
  | Exiting          \<comment> \<open>the \<open>select!\<close> has fired, both tasks are gone, still registered\<close>
  | Leaving sends    \<comment> \<open>deregistered, \<open>Left\<close> to the others\<close>
  | Gone

record conn =
  cn_group :: string
  cn_peer :: client_info
  cn_phase :: phase
  cn_queue :: "ws_server_message list"
  cn_open :: bool
  cn_out :: "ws_server_message list"

record system =
  sy_state :: app_state
  sy_conns :: "chan \<Rightarrow> conn option"

definition channel_capacity :: nat where
  "channel_capacity = 4"

definition system_new :: system where
  "system_new = \<lparr>sy_state = app_state_new, sy_conns = Map.empty\<rparr>"

definition conn_new :: "string \<Rightarrow> client_info \<Rightarrow> sends \<Rightarrow> conn" where
  "conn_new g peer todo = \<lparr>cn_group = g, cn_peer = peer, cn_phase = Setup todo, cn_queue = [],
     cn_open = True, cn_out = []\<rparr>"

text \<open>One \<open>tx.send(m).await\<close>: \<open>None\<close> while the channel is full.\<close>

definition deliver :: "chan \<Rightarrow> ws_server_message \<Rightarrow> (chan \<Rightarrow> conn option) \<Rightarrow> (chan \<Rightarrow> conn option) option"
  where
  "deliver t m cs =
     (case cs t of
        None \<Rightarrow> Some cs
      | Some cn \<Rightarrow>
         if \<not> cn_open cn then Some cs
         else if length (cn_queue cn) < channel_capacity
         then Some (cs(t \<mapsto> cn\<lparr>cn_queue := cn_queue cn @ [m]\<rparr>))
         else None)"

section \<open>Actions\<close>

text \<open>
  What can happen next: a client connects (with the id \<open>Uuid::new_v4\<close> drew for it), a
  connection does its next send or moves to its next phase, \<open>send_task\<close> writes one message to
  the socket, a frame arrives, the tasks end, the connection deregisters, the hourly job runs.
\<close>

datatype action =
    AConnect chan string client_info
  | ASend chan
  | ASpawn chan
  | ADrain chan
  | AFrame chan ws_frame
  | AExit chan
  | ADeregister chan
  | AFinish chan
  | AClear

fun phase_todo :: "phase \<Rightarrow> sends" where
  "phase_todo (Setup todo) = todo"
| "phase_todo (Running todo) = todo"
| "phase_todo (Stopping todo) = todo"
| "phase_todo (Leaving todo) = todo"
| "phase_todo _ = []"

fun phase_with :: "phase \<Rightarrow> sends \<Rightarrow> phase" where
  "phase_with (Setup _) todo = Setup todo"
| "phase_with (Running _) todo = Running todo"
| "phase_with (Stopping _) todo = Stopping todo"
| "phase_with (Leaving _) todo = Leaving todo"
| "phase_with p _ = p"

definition fresh_id :: "system \<Rightarrow> uuid \<Rightarrow> chan list \<Rightarrow> bool" where
  "fresh_id s u cs \<longleftrightarrow> list_all (\<lambda>c. case sy_conns s c of None \<Rightarrow> True
     | Some cn \<Rightarrow> ci_id (cn_peer cn) \<noteq> u) cs"

text \<open>
  Channels are numbered in the order in which connections are opened, so \<open>c\<close> is the next
  channel when all smaller numbers are in use.
\<close>

fun ws_act :: "('z) crates_scheme \<Rightarrow> limits \<Rightarrow> action \<Rightarrow> system \<Rightarrow> system option" where
  "ws_act X L (AConnect c g peer) s =
     (if sy_conns s c = None \<and> list_all (\<lambda>d. sy_conns s d \<noteq> None) [0..<c]
         \<and> fresh_id s (ci_id peer) [0..<c]
      then (case connect_locked L g peer c (sy_state s) of
              (LimitReached, st) \<Rightarrow> Some (s\<lparr>sy_state := st\<rparr>)
            | (Joined txs ps, st) \<Rightarrow>
                Some \<lparr>sy_state = st, sy_conns =
                  (sy_conns s)(c \<mapsto> conn_new g peer (connect_sends peer c (Joined txs ps)))\<rparr>)
      else None)"
| "ws_act X L (ASend c) s =
     (case sy_conns s c of
        None \<Rightarrow> None
      | Some cn \<Rightarrow>
         (case phase_todo (cn_phase cn) of
            [] \<Rightarrow> None
          | (t, m) # todo \<Rightarrow>
             map_option (\<lambda>cs. s\<lparr>sy_conns := cs\<rparr>)
               (deliver t m ((sy_conns s)(c \<mapsto> cn\<lparr>cn_phase := phase_with (cn_phase cn) todo\<rparr>)))))"
| "ws_act X L (ASpawn c) s =
     (case sy_conns s c of
        Some cn \<Rightarrow> (if cn_phase cn = Setup []
            then Some (s\<lparr>sy_conns := (sy_conns s)(c \<mapsto> cn\<lparr>cn_phase := Running []\<rparr>)\<rparr>) else None)
      | None \<Rightarrow> None)"
| "ws_act X L (ADrain c) s =
     (case sy_conns s c of
        None \<Rightarrow> None
      | Some cn \<Rightarrow>
         (case (cn_phase cn, cn_queue cn) of
            (Running _, m # q) \<Rightarrow>
              Some (s\<lparr>sy_conns := (sy_conns s)(c \<mapsto> cn\<lparr>cn_queue := q, cn_out := cn_out cn @ [m]\<rparr>)\<rparr>)
          | (Stopping _, m # q) \<Rightarrow>
              Some (s\<lparr>sy_conns := (sy_conns s)(c \<mapsto> cn\<lparr>cn_queue := q, cn_out := cn_out cn @ [m]\<rparr>)\<rparr>)
          | _ \<Rightarrow> None))"
| "ws_act X L (AFrame c f) s =
     (case sy_conns s c of
        None \<Rightarrow> None
      | Some cn \<Rightarrow>
         if cn_phase cn = Running [] then
           (case recv_frame X L (cn_group cn) (cn_peer cn) c f (sy_state s) of
              (next, todo, st) \<Rightarrow>
                Some \<lparr>sy_state = st, sy_conns = (sy_conns s)(c \<mapsto>
                  cn\<lparr>cn_phase := (case next of Continue \<Rightarrow> Running todo | Return \<Rightarrow> Stopping todo)\<rparr>)\<rparr>)
         else None)"
| "ws_act X L (AExit c) s =
     (case sy_conns s c of
        None \<Rightarrow> None
      | Some cn \<Rightarrow>
         (case cn_phase cn of
            Running _ \<Rightarrow> Some (s\<lparr>sy_conns := (sy_conns s)(c \<mapsto>
              cn\<lparr>cn_phase := Exiting, cn_queue := [], cn_open := False\<rparr>)\<rparr>)
          | Stopping _ \<Rightarrow> Some (s\<lparr>sy_conns := (sy_conns s)(c \<mapsto>
              cn\<lparr>cn_phase := Exiting, cn_queue := [], cn_open := False\<rparr>)\<rparr>)
          | _ \<Rightarrow> None))"
| "ws_act X L (ADeregister c) s =
     (case sy_conns s c of
        None \<Rightarrow> None
      | Some cn \<Rightarrow>
         if cn_phase cn = Exiting then
           (case disconnect_locked (cn_group cn) (ci_id (cn_peer cn)) (sy_state s) of
              (txs, st) \<Rightarrow>
                Some \<lparr>sy_state = st, sy_conns = (sy_conns s)(c \<mapsto>
                  cn\<lparr>cn_phase := Leaving (disconnect_sends (ci_id (cn_peer cn)) txs)\<rparr>)\<rparr>)
         else None)"
| "ws_act X L (AFinish c) s =
     (case sy_conns s c of
        Some cn \<Rightarrow> (if cn_phase cn = Leaving []
            then Some (s\<lparr>sy_conns := (sy_conns s)(c \<mapsto> cn\<lparr>cn_phase := Gone\<rparr>)\<rparr>) else None)
      | None \<Rightarrow> None)"
| "ws_act X L AClear s = Some (s\<lparr>sy_state := clear_request_counts (sy_state s)\<rparr>)"

inductive ws_step :: "('z) crates_scheme \<Rightarrow> limits \<Rightarrow> system \<Rightarrow> system \<Rightarrow> bool" for X L where
  act: "ws_act X L a s = Some t \<Longrightarrow> ws_step X L s t"

inductive_cases ws_stepE: "ws_step X L s t"

fun ws_run :: "('z) crates_scheme \<Rightarrow> limits \<Rightarrow> action list \<Rightarrow> system \<Rightarrow> system option" where
  "ws_run X L [] s = Some s"
| "ws_run X L (a # as) s = Option.bind (ws_act X L a s) (ws_run X L as)"

abbreviation ws_reachable :: "('z) crates_scheme \<Rightarrow> limits \<Rightarrow> system \<Rightarrow> bool" where
  "ws_reachable X L \<equiv> reachable (\<lambda>s. s = system_new) (ws_step X L)"

lemma ws_run_reachable:
  "ws_reachable X L s \<Longrightarrow> ws_run X L as s = Some t \<Longrightarrow> ws_reachable X L t"
proof (induction as arbitrary: s)
  case Nil
  then show ?case by simp
next
  case (Cons a as)
  then obtain u where u: "ws_act X L a s = Some u" "ws_run X L as u = Some t"
    by (auto split: bind_splits)
  from Cons.prems(1) ws_step.act [OF u(1)] have "ws_reachable X L u"
    by (rule reach_step)
  with u(2) show ?case by (rule Cons.IH [rotated])
qed

section \<open>Who is registered where\<close>

text \<open>
  \<open>regs\<close> reads the registry (group, peer id, channel) out of the shared state; \<open>registered\<close> is
  what the phases of the connections say about it; \<open>ident\<close> is the part of a connection that
  never changes.
\<close>

definition regs :: "app_state \<Rightarrow> (string \<times> uuid \<times> chan) set" where
  "regs st = {(g, i, c). \<exists>v. members st g i = Some v \<and> st_tx v = c}"

fun live_phase :: "phase \<Rightarrow> bool" where
  "live_phase (Leaving _) = False"
| "live_phase Gone = False"
| "live_phase _ = True"

definition ident :: "(chan \<Rightarrow> conn option) \<Rightarrow> chan \<Rightarrow> (string \<times> client_info) option" where
  "ident cs c = map_option (\<lambda>cn. (cn_group cn, cn_peer cn)) (cs c)"

definition registered :: "(chan \<Rightarrow> conn option) \<Rightarrow> (string \<times> uuid \<times> chan) set" where
  "registered cs = {(cn_group cn, ci_id (cn_peer cn), c) | c cn.
     cs c = Some cn \<and> live_phase (cn_phase cn)}"

definition group_ids :: "(chan \<Rightarrow> conn option) \<Rightarrow> string \<Rightarrow> uuid set" where
  "group_ids cs g = {ci_id p | c p. ident cs c = Some (g, p)}"

definition group_chans :: "(chan \<Rightarrow> conn option) \<Rightarrow> string \<Rightarrow> chan set" where
  "group_chans cs g = {c. \<exists>p. ident cs c = Some (g, p)}"

text \<open>The peers a message speaks about.\<close>

fun msg_ids :: "ws_server_message \<Rightarrow> uuid list" where
  "msg_ids (Hello c ps) = ci_id c # map ci_id ps"
| "msg_ids (Join p) = [ci_id p]"
| "msg_ids (Update p) = [ci_id p]"
| "msg_ids (Left i) = [i]"
| "msg_ids (Offer m) = [ci_id (ss_peer m)]"
| "msg_ids (Answer m) = [ci_id (ss_peer m)]"
| "msg_ids (Error _) = []"

definition todo_ok :: "chan set \<Rightarrow> uuid set \<Rightarrow> sends \<Rightarrow> bool" where
  "todo_ok C I todo \<longleftrightarrow> (\<forall>(t, m) \<in> set todo. t \<in> C \<and> set (msg_ids m) \<subseteq> I)"

lemma todo_ok_mono: "todo_ok C I todo \<Longrightarrow> C \<subseteq> C' \<Longrightarrow> I \<subseteq> I' \<Longrightarrow> todo_ok C' I' todo"
  by (fastforce simp: todo_ok_def)

lemma todo_ok_simps [simp]:
  "todo_ok C I []" "todo_ok C I (e # es) \<longleftrightarrow> fst e \<in> C \<and> set (msg_ids (snd e)) \<subseteq> I \<and> todo_ok C I es"
  "todo_ok C I (as @ bs) \<longleftrightarrow> todo_ok C I as \<and> todo_ok C I bs"
  by (auto simp: todo_ok_def)

definition reg_chans :: "app_state \<Rightarrow> string \<Rightarrow> chan set" where
  "reg_chans st g = {c. \<exists>i. (g, i, c) \<in> regs st}"

definition reg_ids :: "app_state \<Rightarrow> string \<Rightarrow> uuid set" where
  "reg_ids st g = {i. \<exists>c. (g, i, c) \<in> regs st}"

lemma others_tx_reg: "others_tx (members st g) = reg_chans st g"
  by (force simp: others_tx_def reg_chans_def regs_def ran_def)

lemma others_tx_del_reg: "others_tx ((members st g)(i := None)) \<subseteq> reg_chans st g"
  by (force simp: others_tx_def reg_chans_def regs_def ran_def split: if_splits)

lemma regs_connect:
  assumes "ws_inv L st" and "connect_locked L g peer c st = (Joined txs ps, st')"
    and "ci_id peer \<notin> reg_ids st g"
  shows "regs st' = insert (g, ci_id peer, c) (regs st)"
    and "todo_ok (insert c (reg_chans st g)) (insert (ci_id peer) (reg_ids st g))
      (connect_sends peer c (Joined txs ps))"
proof -
  have m: "members st' = (members st)(g := (members st g)(ci_id peer \<mapsto>
        \<lparr>st_client = without_id peer, st_tx = c\<rparr>))"
    and txs: "set txs = others_tx (members st g)" and ps: "set ps = peer_infos (members st g)"
    using connect_refines [OF assms(1), of g peer c] assms(2) by (simp_all add: join_room_def)
  have "members st g (ci_id peer) = None"
    using assms(3) by (auto simp: reg_ids_def regs_def)
  with m show "regs st' = insert (g, ci_id peer, c) (regs st)"
    by (auto simp: regs_def split: if_splits)
  have "ci_id p \<in> reg_ids st g" if "p \<in> set ps" for p
    using that ps by (auto simp: peer_infos_def reg_ids_def regs_def)
  then show "todo_ok (insert c (reg_chans st g)) (insert (ci_id peer) (reg_ids st g))
      (connect_sends peer c (Joined txs ps))"
    using txs by (auto simp: todo_ok_def others_tx_reg)
qed

lemma regs_refused:
  assumes "ws_inv L st" and "connect_locked L g peer c st = (LimitReached, st')"
  shows "regs st' = regs st"
  using connect_refines [OF assms(1), of g peer c] assms(2) by (simp add: join_room_def regs_def)

lemma regs_disconnect:
  assumes "ws_inv L st" and "disconnect_locked g i st = (txs, st')"
  shows "regs st' = {(h, j, c) \<in> regs st. \<not> (h = g \<and> j = i)}"
    and "todo_ok (reg_chans st g) {i} (disconnect_sends i txs)"
proof -
  have "leave_room g i st (txs, st')"
    using disconnect_refines [OF assms(1), of g i] assms(2) by simp
  then have m: "members st' = (members st)(g := (members st g)(i := None))"
    and txs: "set txs = others_tx ((members st g)(i := None))"
    by (simp_all add: leave_room_def)
  from m show "regs st' = {(h, j, c) \<in> regs st. \<not> (h = g \<and> j = i)}"
    by (auto simp: regs_def split: if_splits)
  from txs show "todo_ok (reg_chans st g) {i} (disconnect_sends i txs)"
    using others_tx_del_reg [of st g i] by (auto simp: todo_ok_def disconnect_sends_def)
qed

lemma regs_request_count [simp]: "regs (st\<lparr>request_count_map := rc\<rparr>) = regs st"
  by (simp add: regs_def)

lemma reg_chans_request_count [simp]:
  "reg_chans (st\<lparr>request_count_map := rc\<rparr>) g = reg_chans st g"
  by (simp add: reg_chans_def)

lemma regs_update:
  assumes "ws_inv L st" and "send_update_to_other_peers g i info st = (todo, st')"
  shows "regs st' = regs st \<and> todo_ok (reg_chans st g) {i} todo"
proof -
  have u: "update_room g i info st (todo, st')"
    using update_refines [OF assms(1), of g i info] assms(2) by simp
  show ?thesis
  proof (cases "members st g i")
    case None
    with u show ?thesis by (simp add: update_room_def)
  next
    case (Some v)
    then have "members st' = (members st)(g := (members st g)(i \<mapsto> v\<lparr>st_client := info\<rparr>))"
      and "set todo = (\<lambda>t. (t, Update (client_info_from info i))) `
        others_tx ((members st g)(i := None))"
      using u by (simp_all add: update_room_def)
    then show ?thesis
      using Some others_tx_del_reg [of st g i]
      by (auto simp: regs_def todo_ok_def split: if_splits)
  qed
qed

lemma msg_ids_wrapper [simp]: "msg_ids (wrapper_message origin w) = [ci_id origin]"
  by (cases w) (simp_all add: to_server_sdp_def)

lemma send_to_peer_ok: "todo_ok (reg_chans st g) {ci_id origin} (send_to_peer g origin w st)"
  by (force simp: send_to_peer_eq reg_chans_def regs_def split: option.splits)

lemma regs_dispatch:
  assumes "ws_inv L st" and "dispatch_message g peer msg st = (todo, st')"
  shows "regs st' = regs st \<and> todo_ok (reg_chans st g) {ci_id peer} todo"
proof (cases msg)
  case (CUpdate info)
  with assms regs_update show ?thesis by (simp add: dispatch_message_def)
next
  case (COffer m)
  with assms(2) send_to_peer_ok show ?thesis by (auto simp: dispatch_message_def)
next
  case (CAnswer m)
  with assms(2) send_to_peer_ok show ?thesis by (auto simp: dispatch_message_def)
qed

lemma regs_recv_frame:
  assumes inv: "ws_inv L st" and r: "recv_frame X L g peer tx f st = (nxt, todo, st')"
  shows "regs st' = regs st \<and> todo_ok (insert tx (reg_chans st g)) {ci_id peer} todo"
proof -
  obtain q rc where p: "protect_ddos_request_count L g (request_count_map st) = (q, rc)"
    by force
  note inv' = ws_inv_protect [OF inv p]
  have "regs st' = regs st \<and> todo_ok (reg_chans st g) {ci_id peer} todo"
    if "dispatch_message g peer msg (st\<lparr>request_count_map := rc\<rparr>) = (todo, st')" for msg
    using regs_dispatch [OF inv' that] by simp
  then show ?thesis
    using r p
    by (fastforce simp: recv_frame_def intro: todo_ok_mono
        split: ws_frame.splits option.splits sum.splits prod.splits)
qed

section \<open>The invariant\<close>

text \<open>
  The registry is exactly the set of live connections; peer ids are unique; a channel holds at
  most four messages; a connection only sends to channels of its group; every message queued,
  delivered or waiting to be sent speaks about peers of the group only.
\<close>

definition conn_ok :: "(chan \<Rightarrow> conn option) \<Rightarrow> conn \<Rightarrow> bool" where
  "conn_ok cs cn \<longleftrightarrow> length (cn_queue cn) \<le> channel_capacity
     \<and> todo_ok (group_chans cs (cn_group cn)) (group_ids cs (cn_group cn)) (phase_todo (cn_phase cn))
     \<and> (\<forall>m \<in> set (cn_queue cn) \<union> set (cn_out cn). set (msg_ids m) \<subseteq> group_ids cs (cn_group cn))"

definition sys_inv :: "limits \<Rightarrow> system \<Rightarrow> bool" where
  "sys_inv L s \<longleftrightarrow> ws_inv L (sy_state s)
     \<and> regs (sy_state s) = registered (sy_conns s)
     \<and> (\<forall>c d g h p q. ident (sy_conns s) c = Some (g, p) \<longrightarrow> ident (sy_conns s) d = Some (h, q)
          \<longrightarrow> ci_id p = ci_id q \<longrightarrow> c = d)
     \<and> (\<forall>c d. c \<le> d \<longrightarrow> sy_conns s c = None \<longrightarrow> sy_conns s d = None)
     \<and> (\<forall>c cn. sy_conns s c = Some cn \<longrightarrow> conn_ok (sy_conns s) cn)"

lemma sys_invI:
  assumes "ws_inv L st" and "regs st = registered cs"
    and "\<And>c d g h p q. ident cs c = Some (g, p) \<Longrightarrow> ident cs d = Some (h, q) \<Longrightarrow>
      ci_id p = ci_id q \<Longrightarrow> c = d"
    and "\<And>d e. d \<le> e \<Longrightarrow> cs d = None \<Longrightarrow> cs e = None"
    and "\<And>d dn. cs d = Some dn \<Longrightarrow> conn_ok cs dn"
  shows "sys_inv L \<lparr>sy_state = st, sy_conns = cs\<rparr>"
  using assms unfolding sys_inv_def system.simps by blast

lemma registered_iff:
  "(g, i, c) \<in> registered cs \<longleftrightarrow> (\<exists>cn. cs c = Some cn \<and> live_phase (cn_phase cn)
     \<and> g = cn_group cn \<and> i = ci_id (cn_peer cn))"
  by (auto simp: registered_def)

lemma registered_sub:
  assumes "regs st = registered cs"
  shows "reg_chans st g \<subseteq> group_chans cs g" "reg_ids st g \<subseteq> group_ids cs g"
proof -
  show "reg_chans st g \<subseteq> group_chans cs g"
    by (force simp: reg_chans_def assms registered_iff group_chans_def ident_def)
  show "reg_ids st g \<subseteq> group_ids cs g"
    by (force simp: reg_ids_def assms registered_iff group_ids_def ident_def)
qed

lemma ident_upd:
  "cs c = Some cn \<Longrightarrow> cn_group cn' = cn_group cn \<Longrightarrow> cn_peer cn' = cn_peer cn \<Longrightarrow>
   ident (cs(c \<mapsto> cn')) = ident cs"
  by (auto simp: ident_def fun_eq_iff)

lemma group_ids_ident: "ident cs' = ident cs \<Longrightarrow> group_ids cs' = group_ids cs"
  by (simp add: group_ids_def fun_eq_iff)

lemma group_chans_ident: "ident cs' = ident cs \<Longrightarrow> group_chans cs' = group_chans cs"
  by (simp add: group_chans_def fun_eq_iff)

lemma conn_ok_ident:
  assumes "ident cs' = ident cs"
  shows "conn_ok cs' = conn_ok cs"
  unfolding conn_ok_def [abs_def] group_ids_ident [OF assms] group_chans_ident [OF assms] by simp

lemma registered_same:
  assumes "cs c = Some cn" "cn_group cn' = cn_group cn" "cn_peer cn' = cn_peer cn"
    and "live_phase (cn_phase cn') = live_phase (cn_phase cn)"
  shows "registered (cs(c \<mapsto> cn')) = registered cs"
proof -
  have "(g, i, d) \<in> registered (cs(c \<mapsto> cn')) \<longleftrightarrow> (g, i, d) \<in> registered cs" for g i d
    using assms by (cases "d = c") (simp_all add: registered_iff)
  then show ?thesis by auto
qed

lemma registered_left:
  assumes "cs c = Some cn" and "\<not> live_phase (cn_phase cn')"
  shows "registered (cs(c \<mapsto> cn')) = {(g, i, d) \<in> registered cs. d \<noteq> c}"
proof -
  have "(g, i, d) \<in> registered (cs(c \<mapsto> cn')) \<longleftrightarrow> (g, i, d) \<in> registered cs \<and> d \<noteq> c" for g i d
    using assms by (cases "d = c") (simp_all add: registered_iff)
  then show ?thesis by auto
qed

lemma registered_new:
  assumes "cs c = None" and "live_phase (cn_phase cn')"
  shows "registered (cs(c \<mapsto> cn')) = insert (cn_group cn', ci_id (cn_peer cn'), c) (registered cs)"
proof -
  have "(g, i, d) \<in> registered (cs(c \<mapsto> cn')) \<longleftrightarrow>
      (g, i, d) \<in> insert (cn_group cn', ci_id (cn_peer cn'), c) (registered cs)" for g i d
    using assms by (cases "d = c") (auto simp: registered_iff)
  then show ?thesis by auto
qed

text \<open>A step that replaces one connection and keeps its identity and the registry.\<close>

lemma sys_inv_upd:
  assumes inv: "sys_inv L s" and c: "sy_conns s c = Some cn"
    and id: "cn_group cn' = cn_group cn" "cn_peer cn' = cn_peer cn"
    and st: "ws_inv L st" "regs st = registered ((sy_conns s)(c \<mapsto> cn'))"
    and ok: "conn_ok (sy_conns s) cn'"
  shows "sys_inv L \<lparr>sy_state = st, sy_conns = (sy_conns s)(c \<mapsto> cn')\<rparr>"
proof -
  have i: "ident ((sy_conns s)(c \<mapsto> cn')) = ident (sy_conns s)"
    using c id by (rule ident_upd)
  have "conn_ok ((sy_conns s)(c \<mapsto> cn')) dn" if "((sy_conns s)(c \<mapsto> cn')) d = Some dn" for d dn
  proof -
    have "conn_ok (sy_conns s) dn"
      using that inv ok by (cases "d = c") (simp_all add: sys_inv_def)
    then show ?thesis by (simp only: conn_ok_ident [OF i])
  qed
  moreover have "c' = d" if "ident (sy_conns s) c' = Some (g, p)" "ident (sy_conns s) d = Some (h, q)"
    "ci_id p = ci_id q" for c' d g h p q
    using inv that unfolding sys_inv_def by blast
  moreover have "((sy_conns s)(c \<mapsto> cn')) e = None"
    if "d \<le> e" "((sy_conns s)(c \<mapsto> cn')) d = None" for d e
    using inv that c by (auto simp: sys_inv_def split: if_splits)
  ultimately show ?thesis
    using st unfolding sys_inv_def by (simp only: i system.simps) blast
qed

lemma phase_with_simps [simp]:
  "phase_todo ph = e # es \<Longrightarrow> phase_todo (phase_with ph es) = es"
  "phase_todo ph = e # es \<Longrightarrow> live_phase (phase_with ph es) = live_phase ph"
  by (cases ph; simp)+

lemma sys_inv_deliver:
  assumes inv: "sys_inv L s" and d: "deliver t m (sy_conns s) = Some cs"
    and m: "set (msg_ids m) \<subseteq> group_ids (sy_conns s) g" and t: "t \<in> group_chans (sy_conns s) g"
  shows "sys_inv L (s\<lparr>sy_conns := cs\<rparr>)"
proof (cases "cs = sy_conns s")
  case True
  with inv show ?thesis by simp
next
  case False
  then obtain tn where tn: "sy_conns s t = Some tn" "length (cn_queue tn) < channel_capacity"
    and cs: "cs = (sy_conns s)(t \<mapsto> tn\<lparr>cn_queue := cn_queue tn @ [m]\<rparr>)"
    using d by (auto simp: deliver_def split: option.splits if_splits)
  have g: "cn_group tn = g"
    using t tn by (simp add: group_chans_def ident_def)
  have "conn_ok (sy_conns s) tn"
    using inv tn by (simp add: sys_inv_def)
  then have "conn_ok (sy_conns s) (tn\<lparr>cn_queue := cn_queue tn @ [m]\<rparr>)"
    using m g tn(2) by (auto simp: conn_ok_def)
  then have "sys_inv L \<lparr>sy_state = sy_state s, sy_conns = cs\<rparr>"
    unfolding cs using inv tn(1)
    by (intro sys_inv_upd) (auto simp: sys_inv_def registered_same)
  moreover have "\<lparr>sy_state = sy_state s, sy_conns = cs\<rparr> = s\<lparr>sy_conns := cs\<rparr>"
    by simp
  ultimately show ?thesis by simp
qed

lemma sys_invD:
  assumes "sys_inv L s"
  shows "ws_inv L (sy_state s)" "regs (sy_state s) = registered (sy_conns s)"
    and "sy_conns s c = Some cn \<Longrightarrow> conn_ok (sy_conns s) cn"
  using assms by (simp_all add: sys_inv_def)

text \<open>A step that changes the phase of one connection and leaves the registry alone.\<close>

lemma sys_inv_phase:
  assumes inv: "sys_inv L s" and c: "sy_conns s c = Some cn"
    and cn': "cn_group cn' = cn_group cn" "cn_peer cn' = cn_peer cn"
      "live_phase (cn_phase cn') = live_phase (cn_phase cn)"
    and st: "ws_inv L st" "regs st = regs (sy_state s)"
    and ok: "conn_ok (sy_conns s) cn'"
  shows "sys_inv L \<lparr>sy_state = st, sy_conns = (sy_conns s)(c \<mapsto> cn')\<rparr>"
proof (rule sys_inv_upd [OF inv c cn'(1,2) st(1) _ ok])
  have "registered ((sy_conns s)(c \<mapsto> cn')) = registered (sy_conns s)"
    using c cn' by (rule registered_same)
  then show "regs st = registered ((sy_conns s)(c \<mapsto> cn'))"
    using st(2) sys_invD(2) [OF inv] by simp
qed

lemma sys_inv_conns:
  assumes "sys_inv L s" "sy_conns s c = Some cn"
    and "cn_group cn' = cn_group cn" "cn_peer cn' = cn_peer cn"
      "live_phase (cn_phase cn') = live_phase (cn_phase cn)"
    and "conn_ok (sy_conns s) cn'"
  shows "sys_inv L (s\<lparr>sy_conns := (sy_conns s)(c \<mapsto> cn')\<rparr>)"
  using sys_inv_phase [OF assms(1-5) sys_invD(1) [OF assms(1)] refl assms(6)]
  by (cases s) simp

lemma sys_inv_send:
  assumes inv: "sys_inv L s" and step: "ws_act X L (ASend c) s = Some s'"
  shows "sys_inv L s'"
proof -
  obtain cn t m todo cs where c: "sy_conns s c = Some cn"
    and todo: "phase_todo (cn_phase cn) = (t, m) # todo"
    and d: "deliver t m ((sy_conns s)(c \<mapsto> cn\<lparr>cn_phase := phase_with (cn_phase cn) todo\<rparr>)) = Some cs"
    and s': "s' = s\<lparr>sy_conns := cs\<rparr>"
    using step by (auto split: option.splits list.splits)
  let ?cn = "cn\<lparr>cn_phase := phase_with (cn_phase cn) todo\<rparr>"
  let ?s = "s\<lparr>sy_conns := (sy_conns s)(c \<mapsto> ?cn)\<rparr>"
  note ok = sys_invD(3) [OF inv c]
  have inv': "sys_inv L ?s"
  proof (rule sys_inv_conns [OF inv c])
    show "conn_ok (sy_conns s) ?cn"
      using ok todo by (simp add: conn_ok_def)
  qed (use todo in simp_all)
  have id: "ident (sy_conns ?s) = ident (sy_conns s)"
    using c by (simp add: ident_upd)
  have "sys_inv L (?s\<lparr>sy_conns := cs\<rparr>)"
  proof (rule sys_inv_deliver [OF inv'])
    show "deliver t m (sy_conns ?s) = Some cs" using d by simp
    show "set (msg_ids m) \<subseteq> group_ids (sy_conns ?s) (cn_group cn)"
      using ok todo unfolding group_ids_ident [OF id] by (simp add: conn_ok_def)
    show "t \<in> group_chans (sy_conns ?s) (cn_group cn)"
      using ok todo unfolding group_chans_ident [OF id] by (simp add: conn_ok_def)
  qed
  then show ?thesis by (simp add: s')
qed

lemma sys_inv_spawn:
  assumes inv: "sys_inv L s" and step: "ws_act X L (ASpawn c) s = Some s'"
  shows "sys_inv L s'"
proof -
  obtain cn where c: "sy_conns s c = Some cn" "cn_phase cn = Setup []"
    and s': "s' = s\<lparr>sy_conns := (sy_conns s)(c \<mapsto> cn\<lparr>cn_phase := Running []\<rparr>)\<rparr>"
    using step by (auto split: option.splits if_splits)
  show ?thesis
    unfolding s' using sys_invD(3) [OF inv c(1)] c
    by (intro sys_inv_conns [OF inv c(1)]) (auto simp: conn_ok_def)
qed

lemma sys_inv_drain:
  assumes inv: "sys_inv L s" and step: "ws_act X L (ADrain c) s = Some s'"
  shows "sys_inv L s'"
proof -
  obtain cn m q where c: "sy_conns s c = Some cn" "cn_queue cn = m # q"
    and s': "s' = s\<lparr>sy_conns := (sy_conns s)(c \<mapsto> cn\<lparr>cn_queue := q, cn_out := cn_out cn @ [m]\<rparr>)\<rparr>"
    using step by (auto split: option.splits phase.splits list.splits)
  show ?thesis
    unfolding s' using sys_invD(3) [OF inv c(1)] c
    by (intro sys_inv_conns [OF inv c(1)]) (auto simp: conn_ok_def)
qed

lemma sys_inv_exit:
  assumes inv: "sys_inv L s" and step: "ws_act X L (AExit c) s = Some s'"
  shows "sys_inv L s'"
proof -
  obtain cn where c: "sy_conns s c = Some cn" "live_phase (cn_phase cn)"
    and s': "s' = s\<lparr>sy_conns := (sy_conns s)(c \<mapsto>
      cn\<lparr>cn_phase := Exiting, cn_queue := [], cn_open := False\<rparr>)\<rparr>"
    using step by (auto split: option.splits phase.splits)
  show ?thesis
    unfolding s' using sys_invD(3) [OF inv c(1)] c
    by (intro sys_inv_conns [OF inv c(1)]) (auto simp: conn_ok_def)
qed

lemma ident_mem:
  assumes "cs c = Some cn"
  shows "c \<in> group_chans cs (cn_group cn)" "ci_id (cn_peer cn) \<in> group_ids cs (cn_group cn)"
  using assms by (auto simp: group_chans_def group_ids_def ident_def intro!: exI [of _ c])

lemma sys_inv_frame:
  assumes inv: "sys_inv L s" and step: "ws_act X L (AFrame c f) s = Some s'"
  shows "sys_inv L s'"
proof -
  obtain cn nxt todo st where c: "sy_conns s c = Some cn" "cn_phase cn = Running []"
    and r: "recv_frame X L (cn_group cn) (cn_peer cn) c f (sy_state s) = (nxt, todo, st)"
    and s': "s' = \<lparr>sy_state = st, sy_conns = (sy_conns s)(c \<mapsto>
      cn\<lparr>cn_phase := (case nxt of Continue \<Rightarrow> Running todo | Return \<Rightarrow> Stopping todo)\<rparr>)\<rparr>"
    using step by (auto split: option.splits if_splits prod.splits)
  note reg = regs_recv_frame [OF sys_invD(1) [OF inv] r]
  have "ws_inv L st"
    using recv_frame_inv [OF sys_invD(1) [OF inv], of X "cn_group cn" "cn_peer cn" c f] r by simp
  moreover have "todo_ok (group_chans (sy_conns s) (cn_group cn))
      (group_ids (sy_conns s) (cn_group cn)) todo"
    using reg registered_sub(1) [OF sys_invD(2) [OF inv], of "cn_group cn"] ident_mem [of "sy_conns s", OF c(1)]
    by (auto elim!: todo_ok_mono)
  ultimately show ?thesis
    unfolding s' using sys_invD(3) [OF inv c(1)] c(2) reg
    by (intro sys_inv_phase [OF inv c(1)]) (auto simp: conn_ok_def split: recv_next.split)
qed

lemma sys_inv_deregister:
  assumes inv: "sys_inv L s" and step: "ws_act X L (ADeregister c) s = Some s'"
  shows "sys_inv L s'"
proof -
  obtain cn txs st where c: "sy_conns s c = Some cn" "cn_phase cn = Exiting"
    and r: "disconnect_locked (cn_group cn) (ci_id (cn_peer cn)) (sy_state s) = (txs, st)"
    and s': "s' = \<lparr>sy_state = st, sy_conns = (sy_conns s)(c \<mapsto>
      cn\<lparr>cn_phase := Leaving (disconnect_sends (ci_id (cn_peer cn)) txs)\<rparr>)\<rparr>"
    using step by (auto split: option.splits if_splits prod.splits)
  note reg = regs_disconnect [OF sys_invD(1) [OF inv] r]
  have st: "ws_inv L st"
    using disconnect_refines [OF sys_invD(1) [OF inv], of "cn_group cn" "ci_id (cn_peer cn)"] r
    by simp
  let ?cn = "cn\<lparr>cn_phase := Leaving (disconnect_sends (ci_id (cn_peer cn)) txs)\<rparr>"
  have own: "h = cn_group cn \<and> j = ci_id (cn_peer cn) \<longleftrightarrow> d = c"
    if mem: "(h, j, d) \<in> registered (sy_conns s)" for h j d
  proof -
    obtain dn where dn: "sy_conns s d = Some dn" "h = cn_group dn" "j = ci_id (cn_peer dn)"
      using mem by (auto simp: registered_iff)
    have "ci_id (cn_peer dn) = ci_id (cn_peer cn) \<Longrightarrow> d = c"
      using inv c(1) dn(1) unfolding sys_inv_def ident_def
      by (metis (no_types, lifting) option.simps(9))
    then show ?thesis using dn c by auto
  qed
  have "regs st = registered ((sy_conns s)(c \<mapsto> ?cn))"
  proof -
    have "registered ((sy_conns s)(c \<mapsto> ?cn)) = {(g, i, d) \<in> registered (sy_conns s). d \<noteq> c}"
      using c by (intro registered_left) auto
    then show ?thesis
      using reg(1) sys_invD(2) [OF inv] by (auto dest: own)
  qed
  moreover have "todo_ok (group_chans (sy_conns s) (cn_group cn))
      (group_ids (sy_conns s) (cn_group cn)) (disconnect_sends (ci_id (cn_peer cn)) txs)"
    using reg(2) registered_sub(1) [OF sys_invD(2) [OF inv], of "cn_group cn"] ident_mem [of "sy_conns s", OF c(1)]
    by (auto elim!: todo_ok_mono)
  ultimately show ?thesis
    unfolding s' using sys_invD(3) [OF inv c(1)]
    by (intro sys_inv_upd [OF inv c(1)] st) (auto simp: conn_ok_def)
qed

lemma sys_inv_finish:
  assumes inv: "sys_inv L s" and step: "ws_act X L (AFinish c) s = Some s'"
  shows "sys_inv L s'"
proof -
  obtain cn where c: "sy_conns s c = Some cn" "cn_phase cn = Leaving []"
    and s': "s' = s\<lparr>sy_conns := (sy_conns s)(c \<mapsto> cn\<lparr>cn_phase := Gone\<rparr>)\<rparr>"
    using step by (auto split: option.splits if_splits)
  show ?thesis
    unfolding s' using sys_invD(3) [OF inv c(1)] c
    by (intro sys_inv_conns [OF inv c(1)]) (auto simp: conn_ok_def)
qed

lemma regs_clear [simp]: "regs (clear_request_counts st) = regs st"
  by (simp add: clear_request_counts_def)

lemma sys_inv_clear:
  "sys_inv L s \<Longrightarrow> sys_inv L (s\<lparr>sy_state := clear_request_counts (sy_state s)\<rparr>)"
  by (simp add: sys_inv_def ws_inv_clear)

lemma conn_ok_mono:
  assumes "group_chans cs (cn_group cn) \<subseteq> group_chans cs' (cn_group cn)"
    and "group_ids cs (cn_group cn) \<subseteq> group_ids cs' (cn_group cn)" and "conn_ok cs cn"
  shows "conn_ok cs' cn"
  using assms todo_ok_mono unfolding conn_ok_def by blast

lemma ident_new:
  assumes "cs c = None"
  shows "group_chans (cs(c \<mapsto> cn)) g = (if g = cn_group cn then insert c else id) (group_chans cs g)"
    and "group_ids (cs(c \<mapsto> cn)) g =
      (if g = cn_group cn then insert (ci_id (cn_peer cn)) else id) (group_ids cs g)"
proof -
  have id: "ident (cs(c \<mapsto> cn)) d = Some (g, p) \<longleftrightarrow>
      (if d = c then g = cn_group cn \<and> p = cn_peer cn else ident cs d = Some (g, p))" for d g p
    by (auto simp: ident_def)
  have no: "ident cs c = None"
    using assms by (simp add: ident_def)
  show "group_chans (cs(c \<mapsto> cn)) g = (if g = cn_group cn then insert c else id) (group_chans cs g)"
    using no by (auto simp: group_chans_def id split: if_splits)
  show "group_ids (cs(c \<mapsto> cn)) g =
      (if g = cn_group cn then insert (ci_id (cn_peer cn)) else id) (group_ids cs g)"
    using no by (auto simp: group_ids_def id split: if_splits) (metis option.distinct(1))+
qed

lemma fresh_idD:
  "fresh_id s u cs \<Longrightarrow> d \<in> set cs \<Longrightarrow> sy_conns s d = Some dn \<Longrightarrow> ci_id (cn_peer dn) \<noteq> u"
  by (induction cs) (auto simp: fresh_id_def)

lemma sys_inv_connect:
  assumes inv: "sys_inv L s" and step: "ws_act X L (AConnect c g peer) s = Some s'"
  shows "sys_inv L s'"
proof -
  let ?cs = "sy_conns s"
  obtain r st where r: "connect_locked L g peer c (sy_state s) = (r, st)"
    by force
  have c: "?cs c = None" and dense: "\<And>d. d < c \<Longrightarrow> ?cs d \<noteq> None"
    and fresh_id: "fresh_id s (ci_id peer) [0..<c]"
    using step by (auto simp: list_all_iff split: if_splits)
  have fresh: "ci_id (cn_peer dn) \<noteq> ci_id peer" if "d < c" "?cs d = Some dn" for d dn
    using fresh_id that by (auto dest: fresh_idD)
  have none: "?cs d = None" if "c \<le> d" for d
    using inv c that unfolding sys_inv_def by blast
  have new: "ci_id p \<noteq> ci_id peer" if "ident ?cs d = Some (h, p)" for d h p
    using that fresh none by (cases "d < c") (auto simp: ident_def)
  have st: "ws_inv L st"
    using connect_refines [OF sys_invD(1) [OF inv], of g peer c] r by simp
  show ?thesis
  proof (cases r)
    case LimitReached
    then have "s' = s\<lparr>sy_state := st\<rparr>"
      using step r by (simp split: if_splits)
    moreover have "regs st = regs (sy_state s)"
      using regs_refused [OF sys_invD(1) [OF inv]] r LimitReached by simp
    ultimately show ?thesis
      using inv st by (simp add: sys_inv_def)
  next
    case (Joined txs ps)
    let ?cn = "conn_new g peer (connect_sends peer c (Joined txs ps))"
    have s': "s' = \<lparr>sy_state = st, sy_conns = ?cs(c \<mapsto> ?cn)\<rparr>"
      using step r Joined by (simp split: if_splits del: connect_sends.simps)
    have cn: "cn_group ?cn = g" "cn_peer ?cn = peer" "live_phase (cn_phase ?cn)"
      by (simp_all add: conn_new_def)
    note new_sets = ident_new [of ?cs, OF c, of ?cn, unfolded cn]
    have nin: "ci_id peer \<notin> group_ids ?cs g"
      using new by (force simp: group_ids_def)
    then have nin': "ci_id peer \<notin> reg_ids (sy_state s) g"
      using registered_sub(2) [OF sys_invD(2) [OF inv], of g] by auto
    note reg = regs_connect [OF sys_invD(1) [OF inv] r [unfolded Joined] nin']
    have reg_eq: "regs st = registered (?cs(c \<mapsto> ?cn))"
      using reg(1) registered_new [of ?cs c ?cn] c cn sys_invD(2) [OF inv] by simp
    have new_ok: "conn_ok (?cs(c \<mapsto> ?cn)) ?cn"
    proof -
      have "todo_ok (insert c (group_chans ?cs g)) (insert (ci_id peer) (group_ids ?cs g))
          (connect_sends peer c (Joined txs ps))"
        using reg(2) registered_sub [OF sys_invD(2) [OF inv], of g]
        by (auto elim!: todo_ok_mono simp del: connect_sends.simps)
      then show ?thesis
        unfolding conn_ok_def cn new_sets by (simp add: conn_new_def del: connect_sends.simps)
    qed
    have old_ok: "conn_ok (?cs(c \<mapsto> ?cn)) dn" if "?cs d = Some dn" for d dn
      using sys_invD(3) [OF inv that]
      by (rule conn_ok_mono [rotated 2]) (auto simp: new_sets simp del: connect_sends.simps)
    have all_ok: "conn_ok (?cs(c \<mapsto> ?cn)) dn" if "(?cs(c \<mapsto> ?cn)) d = Some dn" for d dn
      using that new_ok old_ok by (cases "d = c") (simp_all del: connect_sends.simps)
    have uniq: "d = e" if "ident (?cs(c \<mapsto> ?cn)) d = Some (h, p)"
      "ident (?cs(c \<mapsto> ?cn)) e = Some (k, q)" "ci_id p = ci_id q" for d e h k p q
    proof -
      have eq: "ident (?cs(c \<mapsto> ?cn)) x = (if x = c then Some (g, peer) else ident ?cs x)" for x
        by (simp add: ident_def conn_new_def)
      have "d = e" if "ident ?cs d = Some (h, p)" "ident ?cs e = Some (k, q)"
        using inv that \<open>ci_id p = ci_id q\<close> unfolding sys_inv_def by blast
      then show ?thesis
        using that new unfolding eq by (auto split: if_splits)
    qed
    have dense': "(?cs(c \<mapsto> ?cn)) e = None" if "d \<le> e" "(?cs(c \<mapsto> ?cn)) d = None" for d e
    proof -
      from that(2) have "?cs d = None" "d \<noteq> c" by (simp_all split: if_splits)
      then have "c < d" using dense [of d] by (cases "c < d") auto
      with that(1) none [of e] show ?thesis by simp
    qed
    show ?thesis
      unfolding s' by (rule sys_invI [OF st reg_eq uniq dense' all_ok])
  qed
qed

lemma sys_inv_step: "sys_inv L s \<Longrightarrow> ws_step X L s t \<Longrightarrow> sys_inv L t"
proof (erule ws_stepE)
  fix a
  assume inv: "sys_inv L s" and step: "ws_act X L a s = Some t"
  show "sys_inv L t"
  proof (cases a)
    case (AConnect c g p)
    show ?thesis by (rule sys_inv_connect [OF inv step [unfolded AConnect]])
  next
    case (ASend c)
    show ?thesis by (rule sys_inv_send [OF inv step [unfolded ASend]])
  next
    case (ASpawn c)
    show ?thesis by (rule sys_inv_spawn [OF inv step [unfolded ASpawn]])
  next
    case (ADrain c)
    show ?thesis by (rule sys_inv_drain [OF inv step [unfolded ADrain]])
  next
    case (AFrame c f)
    show ?thesis by (rule sys_inv_frame [OF inv step [unfolded AFrame]])
  next
    case (AExit c)
    show ?thesis by (rule sys_inv_exit [OF inv step [unfolded AExit]])
  next
    case (ADeregister c)
    show ?thesis by (rule sys_inv_deregister [OF inv step [unfolded ADeregister]])
  next
    case (AFinish c)
    show ?thesis by (rule sys_inv_finish [OF inv step [unfolded AFinish]])
  next
    case AClear
    then show ?thesis using step sys_inv_clear [OF inv] by simp
  qed
qed

lemma sys_inv_new: "sys_inv L system_new"
  using ws_inv_new by (auto simp: sys_inv_def system_new_def regs_def members_def app_state_new_def
      hm_new_def registered_def ident_def)

interpretation signaling: inductive_invariant "\<lambda>s. s = system_new" "ws_step X L" "sys_inv L" for X L
  by unfold_locales (auto intro: sys_inv_new sys_inv_step)

end
