(* ===== verification/Ws_Startup.thy ===== *)
theory Ws_Startup
  imports Ws_System
begin

text \<open>
  Starting the signaling server: \<open>server/src/main.rs\<close>, \<open>config/init.rs\<close> and the set-up of the
  hourly job in \<open>config/scheduler.rs\<close>. The scheduler crate, the socket and axum are parameters: the
  results of their calls.
\<close>

section \<open>The hourly job\<close>

record scheduler =
  sd_new :: "string + unit"
  sd_job :: "string + unit"
  sd_add :: "string + unit"
  sd_start :: "string + unit"

text \<open>The job is made before it is added, the scheduler started last.\<close>

definition configure_scheduling :: "scheduler \<Rightarrow> string + unit" where
  "configure_scheduling S =
     bind_ok (sd_new S) (\<lambda>_. bind_ok (sd_job S) (\<lambda>_. bind_ok (sd_add S) (\<lambda>_. sd_start S)))"

text \<open>The cron expression \<open>0 0 * * * *\<close>: second and minute are zero, at every hour of every day.\<close>

definition job_due :: "nat \<Rightarrow> bool" where
  "job_due unix_seconds \<longleftrightarrow> unix_seconds mod 60 = 0 \<and> unix_seconds div 60 mod 60 = 0"

section \<open>The process\<close>

text \<open>\<open>init\<close> builds the state and panics (\<open>None\<close>) when the job cannot be set up.\<close>

definition init :: "scheduler \<Rightarrow> app_state option" where
  "init S =
     (let app_state = app_state_new in
      case configure_scheduling S of Inl _ \<Rightarrow> None | Inr _ \<Rightarrow> Some app_state)"

definition bind_address :: "string option \<Rightarrow> string option \<Rightarrow> string" where
  "bind_address server_ip_var server_port_var =
     (let server_ip = (case server_ip_var of Some v \<Rightarrow> v | None \<Rightarrow> ''0.0.0.0'');
          server_port = (case server_port_var of Some v \<Rightarrow> v | None \<Rightarrow> ''3000'')
      in server_ip @ '':'' @ server_port)"

text \<open>
  The one route. \<open>axum\<close> answers 404 for an unknown path and 405 for a known one with another method;
  \<open>get\<close> serves HEAD as well.
\<close>

datatype routed = NotFound | MethodNotAllowed | WsRoute

definition configure_routes :: "string \<Rightarrow> string \<Rightarrow> routed" where
  "configure_routes http_method path =
     (if path \<noteq> ''/v1/ws'' then NotFound
      else if http_method = ''GET'' \<or> http_method = ''HEAD'' then WsRoute
      else MethodNotAllowed)"

text \<open>
  \<open>main\<close> up to the point where it serves: the state it serves with and the address, \<open>None\<close> when it
  panics. \<open>bind\<close> is what binding a socket to an address returns.
\<close>

definition server_start ::
    "scheduler \<Rightarrow> string option \<Rightarrow> string option \<Rightarrow> (string \<Rightarrow> string + unit) \<Rightarrow> (system \<times> string) option" where
  "server_start S server_ip server_port bind =
     (case init S of
        None \<Rightarrow> None
      | Some app_state \<Rightarrow>
         (let address = bind_address server_ip server_port in
          case bind address of
            Inl _ \<Rightarrow> None
          | Inr _ \<Rightarrow> Some (\<lparr>sy_state = app_state, sy_conns = Map.empty\<rparr>, address)))"

lemma configure_scheduling_ok:
  "configure_scheduling S = Inr () \<longleftrightarrow>
     sd_new S = Inr () \<and> sd_job S = Inr () \<and> sd_add S = Inr () \<and> sd_start S = Inr ()"
  by (cases "sd_new S"; cases "sd_job S"; cases "sd_add S"; cases "sd_start S") (simp_all add: configure_scheduling_def)

lemma job_due_hourly: "job_due t \<longleftrightarrow> t mod 3600 = 0"
proof -
  have "t mod 3600 = 60 * (t div 60 mod 60) + t mod 60"
    using mod_mult2_eq [of t 60 60] by simp
  then show ?thesis by (auto simp: job_due_def)
qed

text \<open>
  A server that starts, starts in the initial state of the transition system, so every theorem
  about its reachable states holds of it; it does not start exactly when the hourly job cannot be
  set up or the address cannot be bound.
\<close>

theorem server_starts_in_initial_state:
  "server_start S server_ip server_port bind
    = (if configure_scheduling S = Inr () \<and> bind (bind_address server_ip server_port) = Inr ()
       then Some (system_new, bind_address server_ip server_port) else None)"
  by (cases "configure_scheduling S"; cases "bind (bind_address server_ip server_port)")
    (simp_all add: server_start_def init_def system_new_def Let_def)

end
