(* ===== verification/Sample_Crates.thy ===== *)
theory Sample_Crates
  imports Json
begin

text \<open>
  A concrete instance of the record \<open>crates\<close>, used only where a theorem about every such record
  is applied to an example: it shows that the laws can hold together. It is not a model of the
  crates: values print in a prefix notation, bytes as pairs of hexadecimal digits.
\<close>

section \<open>A self-delimiting notation for values\<close>

fun pr_str :: "string \<Rightarrow> string" where
  "pr_str [] = ''e''"
| "pr_str (c # cs) = CHR ''c'' # c # pr_str cs"

fun rd_str :: "string \<Rightarrow> (string \<times> string) option" where
  "rd_str (t # r) =
     (if t = CHR ''e'' then Some ([], r)
      else (case r of [] \<Rightarrow> None
        | c # r' \<Rightarrow> map_option (\<lambda>(s, r''). (c # s, r'')) (rd_str r')))"
| "rd_str [] = None"

lemma rd_pr_str [simp]: "rd_str (pr_str s @ r) = Some (s, r)"
  by (induction s) auto

fun pr_json :: "json \<Rightarrow> string" and pr_arr :: "json list \<Rightarrow> string"
  and pr_obj :: "(string \<times> json) list \<Rightarrow> string" where
  "pr_json JNull = ''n''"
| "pr_json (JBool b) = (if b then ''t'' else ''f'')"
| "pr_json (JNum i) = (if 0 \<le> i then ''+'' else ''-'') @ pr_str (show_dec (nat \<bar>i\<bar>))"
| "pr_json (JReal s) = ''r'' @ pr_str s"
| "pr_json (JStr s) = ''s'' @ pr_str s"
| "pr_json (JArr vs) = ''a'' @ pr_arr vs"
| "pr_json (JObj kvs) = ''o'' @ pr_obj kvs"
| "pr_arr [] = '']''"
| "pr_arr (v # vs) = '','' @ pr_json v @ pr_arr vs"
| "pr_obj [] = ''}''"
| "pr_obj ((k, v) # kvs) = '','' @ pr_str k @ pr_json v @ pr_obj kvs"

fun rd_json :: "nat \<Rightarrow> string \<Rightarrow> (json \<times> string) option"
  and rd_arr :: "nat \<Rightarrow> string \<Rightarrow> (json list \<times> string) option"
  and rd_obj :: "nat \<Rightarrow> string \<Rightarrow> ((string \<times> json) list \<times> string) option" where
  "rd_json (Suc n) (c # r) =
     (if c = CHR ''n'' then Some (JNull, r)
      else if c = CHR ''t'' then Some (JBool True, r)
      else if c = CHR ''f'' then Some (JBool False, r)
      else if c = CHR ''+'' then map_option (\<lambda>(s, r). (JNum (int (read_radix 10 s)), r)) (rd_str r)
      else if c = CHR ''-'' then map_option (\<lambda>(s, r). (JNum (- int (read_radix 10 s)), r)) (rd_str r)
      else if c = CHR ''r'' then map_option (\<lambda>(s, r). (JReal s, r)) (rd_str r)
      else if c = CHR ''s'' then map_option (\<lambda>(s, r). (JStr s, r)) (rd_str r)
      else if c = CHR ''a'' then map_option (\<lambda>(vs, r). (JArr vs, r)) (rd_arr n r)
      else if c = CHR ''o'' then map_option (\<lambda>(kvs, r). (JObj kvs, r)) (rd_obj n r)
      else None)"
| "rd_json _ _ = None"
| "rd_arr (Suc n) (c # r) =
     (if c = CHR '']'' then Some ([], r)
      else (case rd_json n r of None \<Rightarrow> None | Some (v, r') \<Rightarrow>
        map_option (\<lambda>(vs, r''). (v # vs, r'')) (rd_arr n r')))"
| "rd_arr _ _ = None"
| "rd_obj (Suc n) (c # r) =
     (if c = CHR ''}'' then Some ([], r)
      else (case rd_str r of None \<Rightarrow> None | Some (k, r1) \<Rightarrow>
        (case rd_json n r1 of None \<Rightarrow> None | Some (v, r2) \<Rightarrow>
          map_option (\<lambda>(kvs, r3). ((k, v) # kvs, r3)) (rd_obj n r2))))"
| "rd_obj _ _ = None"

lemma rd_pr_json:
  "length (pr_json j) \<le> n \<Longrightarrow> rd_json n (pr_json j @ r) = Some (j, r)"
  "length (pr_arr vs) \<le> n \<Longrightarrow> rd_arr n (pr_arr vs @ r) = Some (vs, r)"
  "length (pr_obj kvs) \<le> n \<Longrightarrow> rd_obj n (pr_obj kvs @ r) = Some (kvs, r)"
proof (induction j and vs and kvs arbitrary: n r and n r and n r
    rule: pr_json_pr_arr_pr_obj.induct)
qed (case_tac n; simp add: read_show_radix split: if_splits)+

definition pr_hex :: "bytes \<Rightarrow> string" where
  "pr_hex bs = concat (map (\<lambda>b. [digit_char (unat b div 16), digit_char (unat b mod 16)]) bs)"

fun rd_hex :: "string \<Rightarrow> bytes option" where
  "rd_hex [] = Some []"
| "rd_hex (a # b # r) =
     map_option (Cons (word_of_nat (16 * char_digit a + char_digit b))) (rd_hex r)"
| "rd_hex [_] = None"

lemma rd_pr_hex: "rd_hex (pr_hex bs) = Some bs"
proof (induction bs)
  case (Cons b bs)
  have "unat b < 2 ^ LENGTH(8)" by (rule unsigned_less)
  then have "unat b div 16 < 16" by simp
  with Cons show ?case by (simp add: pr_hex_def)
qed (simp add: pr_hex_def)

lemma pr_hex_no_dot: "CHR ''.'' \<notin> set (pr_hex bs)"
proof -
  have "digit_char (unat b div 16) \<noteq> CHR ''.'' \<and> digit_char (unat b mod 16) \<noteq> CHR ''.''" for b :: u8
  proof -
    have "unat b < 2 ^ LENGTH(8)" by (rule unsigned_less)
    then have "is_radix_char (digit_char (unat b div 16))"
      and "is_radix_char (digit_char (unat b mod 16))"
      by (auto simp: is_radix_char_def)
    then show ?thesis using is_radix_char_alnum by blast
  qed
  then have "\<forall>b :: u8. CHR ''.'' \<noteq> digit_char (unat b div 16) \<and> CHR ''.'' \<noteq> digit_char (unat b mod 16)"
    by metis
  then show ?thesis by (auto simp: pr_hex_def)
qed

definition sample_crates :: crates where
  "sample_crates = \<lparr>
     x_uuid_print = (\<lambda>u. show_hex (unat u)),
     x_uuid_parse = (\<lambda>s. Some (word_of_nat (read_radix 16 s))),
     x_json_print = pr_json,
     x_json_parse = (\<lambda>s. case rd_json (length s) s of Some (j, []) \<Rightarrow> Some j | _ \<Rightarrow> None),
     x_b64_encode = pr_hex,
     x_b64_decode = rd_hex,
     x_sha256 = take 32\<rparr>"

lemma sample_laws:
  "uuid_law sample_crates" "json_law sample_crates" "b64_law sample_crates"
  using rd_pr_json(1) [where r = "[]"]
  by (simp_all add: uuid_law_def json_law_def b64_law_def sample_crates_def read_show_radix
      rd_pr_hex pr_hex_no_dot)

end
