(* ===== verification/Ws_Properties.thy ===== *)
theory Ws_Properties
  imports Ws_System Sample_Crates
begin

text \<open>
  The properties of the signaling server: the critical sections against the abstract rooms, the
  request budget, the answer of \<open>recv_task\<close> to every frame, and the facts that hold in every
  reachable state of the concurrent system (the registry is the set of live connections, nothing
  crosses a group, channels are bounded), with the one schedule in which a connection can block
  for ever on its own channel.
\<close>

definition default_limits :: limits where
  "default_limits = \<lparr>max_connections = 10, max_requests = 1000\<rparr>"

section \<open>A blocked connection\<close>

definition waits_for_itself :: "system \<Rightarrow> chan \<Rightarrow> bool" where
  "waits_for_itself s c \<longleftrightarrow>
     (case sy_conns s c of
        None \<Rightarrow> False
      | Some cn \<Rightarrow>
         (case cn_phase cn of
            Setup ((t, m) # _) \<Rightarrow> t = c \<and> cn_open cn \<and> channel_capacity \<le> length (cn_queue cn)
          | _ \<Rightarrow> False))"

lemma deliver_other: "deliver t m cs = Some cs' \<Longrightarrow> t \<noteq> c \<Longrightarrow> cs' c = cs c"
  by (auto simp: deliver_def split: option.splits if_splits)

lemma deliver_full:
  "deliver t m cs = Some cs' \<Longrightarrow> cs c = Some cn \<Longrightarrow> cn_open cn \<Longrightarrow>
   channel_capacity \<le> length (cn_queue cn) \<Longrightarrow> cs' c = Some cn"
  by (auto simp: deliver_def split: option.splits if_splits)

lemma waits_act:
  assumes w: "waits_for_itself s c" and a: "ws_act X L a s = Some s'"
  shows "waits_for_itself s' c"
proof -
  obtain cn m todo where c: "sy_conns s c = Some cn" "cn_phase cn = Setup ((c, m) # todo)"
      "cn_open cn" "channel_capacity \<le> length (cn_queue cn)"
    using w by (auto simp: waits_for_itself_def split: option.splits phase.splits list.splits)
  have "sy_conns s' c = Some cn"
  proof (cases a)
    case (ASend d)
    obtain dn t n es cs where d: "sy_conns s d = Some dn" "phase_todo (cn_phase dn) = (t, n) # es"
      and dl: "deliver t n ((sy_conns s)(d \<mapsto> dn\<lparr>cn_phase := phase_with (cn_phase dn) es\<rparr>)) = Some cs"
      and s': "s' = s\<lparr>sy_conns := cs\<rparr>"
      using a ASend by (auto split: option.splits list.splits)
    have "d \<noteq> c"
      using d dl c by (auto simp: deliver_def)
    then have "((sy_conns s)(d \<mapsto> dn\<lparr>cn_phase := phase_with (cn_phase dn) es\<rparr>)) c = Some cn"
      using c by simp
    from deliver_full [OF dl this c(3,4)] show ?thesis by (simp add: s')
  qed (use a c in \<open>auto split: option.splits if_splits prod.splits lock_result.splits
      phase.splits list.splits\<close>)
  then show ?thesis
    using c by (simp add: waits_for_itself_def)
qed

lemma waits_forever: "(ws_step X L)\<^sup>*\<^sup>* s t \<Longrightarrow> waits_for_itself s c \<Longrightarrow> waits_for_itself t c"
  by (induction rule: rtranclp_induct) (auto elim!: ws_stepE intro: waits_act)

definition sample_peer :: "uuid \<Rightarrow> client_info" where
  "sample_peer u = \<lparr>ci_id = u, ci_alias = ''peer'', ci_version = ''2.3'', ci_device_model = None,
     ci_device_type = Some Mobile, ci_token = ''t''\<rparr>"

definition blocking_schedule :: "action list" where
  "blocking_schedule =
     map (\<lambda>c. AConnect c ''10.0.0.1'' (sample_peer (word_of_nat c))) [0, 1, 2, 3, 4] @
     map ASend [1, 2, 3, 4]"

lemma blocking_schedule_blocks:
  "case ws_run X default_limits blocking_schedule system_new of
     None \<Rightarrow> False | Some s \<Rightarrow> waits_for_itself s 0"
  by code_simp

lemma default_limits_env:
  "max_connections_of_env None = Some (max_connections default_limits)"
  "max_requests_of_env None = Some (max_requests default_limits)"
  by (simp_all add: max_connections_of_env_def max_requests_of_env_def default_limits_def
      parse_uint_def is_dec_digit_def read_radix_def char_digit_def)

text \<open>
  C20. With the default limits the server reaches a state in which a connection is blocked for
  ever: it sends \<open>Hello\<close> to its own channel, before the task that empties the channel is
  spawned, while four \<open>Join\<close> messages of later connections already fill the four places of the
  channel. Whatever happens afterwards, the connection never gets past that send.
\<close>

theorem hello_can_block_for_ever:
  "\<exists>s. ws_reachable X default_limits s \<and> waits_for_itself s 0
     \<and> {t. (ws_step X default_limits)\<^sup>*\<^sup>* s t} \<subseteq> {t. waits_for_itself t 0}"
proof -
  obtain s where run: "ws_run X default_limits blocking_schedule system_new = Some s"
    and w: "waits_for_itself s 0"
    using blocking_schedule_blocks [of X] by (auto split: option.splits)
  have "ws_reachable X default_limits s"
    by (rule ws_run_reachable [OF reach_init run]) simp
  then show ?thesis
    using w waits_forever by blast
qed

section \<open>Reachable states\<close>

lemma regs_iff: "(g, i, c) \<in> regs st \<longleftrightarrow> (\<exists>v. members st g i = Some v \<and> st_tx v = c)"
  by (simp add: regs_def)

text \<open>
  C4. In every reachable state the shared map lists exactly the live connections: a group holds
  an entry for peer \<open>i\<close> with channel \<open>c\<close> if and only if connection \<open>c\<close> belongs to that group,
  has that id and has not yet left; and no group exceeds the connection limit.
\<close>

theorem registry_is_live_connections:
  assumes "ws_reachable X L s"
  shows "((\<exists>v. members (sy_state s) g i = Some v \<and> st_tx v = c) \<longleftrightarrow>
      (\<exists>cn. sy_conns s c = Some cn \<and> live_phase (cn_phase cn) \<and> cn_group cn = g
        \<and> ci_id (cn_peer cn) = i))
    \<and> card (dom (members (sy_state s) g)) \<le> unat (max_connections L)"
proof -
  have inv: "sys_inv L s"
    using signaling.inv_reachable [OF assms] .
  have "(g, i, c) \<in> regs (sy_state s) \<longleftrightarrow> (g, i, c) \<in> registered (sy_conns s)"
    by (simp only: sys_invD(2) [OF inv])
  then show ?thesis
    using members_bounded [OF sys_invD(1) [OF inv]] by (auto simp: regs_iff registered_iff)
qed

definition sample_system :: "system" where
  "sample_system = the (ws_run sample_crates default_limits
     [AConnect 0 ''10.0.0.1'' (sample_peer 7), ASend 0, ASpawn 0,
      AConnect 1 ''10.0.0.1'' (sample_peer 8), ASend 1, ADrain 0, ADrain 0] system_new)"

lemma sample_run:
  "ws_run sample_crates default_limits
     [AConnect 0 ''10.0.0.1'' (sample_peer 7), ASend 0, ASpawn 0,
      AConnect 1 ''10.0.0.1'' (sample_peer 8), ASend 1, ADrain 0, ADrain 0] system_new
   = Some sample_system"
proof -
  have "ws_run sample_crates default_limits
     [AConnect 0 ''10.0.0.1'' (sample_peer 7), ASend 0, ASpawn 0,
      AConnect 1 ''10.0.0.1'' (sample_peer 8), ASend 1, ADrain 0, ADrain 0] system_new
   \<noteq> None"
    by code_simp
  then show ?thesis by (auto simp: sample_system_def)
qed

lemma sample_reachable: "ws_reachable sample_crates default_limits sample_system"
  by (rule ws_run_reachable [OF reach_init sample_run]) simp

lemma sample_conn:
  "\<exists>cn. sy_conns sample_system 0 = Some cn \<and> live_phase (cn_phase cn)
     \<and> cn_group cn = ''10.0.0.1'' \<and> ci_id (cn_peer cn) = 7
     \<and> cn_out cn = [Hello (sample_peer 7) [], Join (sample_peer 8)]"
proof -
  have "(case sy_conns sample_system 0 of None \<Rightarrow> False | Some cn \<Rightarrow> live_phase (cn_phase cn)
     \<and> cn_group cn = ''10.0.0.1'' \<and> ci_id (cn_peer cn) = 7
     \<and> cn_out cn = [Hello (sample_peer 7) [], Join (sample_peer 8)])"
    by code_simp
  then show ?thesis by (auto split: option.splits)
qed

lemma registry_is_live_connections_witness:
  "\<exists>v. members (sy_state sample_system) ''10.0.0.1'' 7 = Some v \<and> st_tx v = 0"
  using registry_is_live_connections [OF sample_reachable, of "''10.0.0.1''" 7 0] sample_conn
  by blast

text \<open>
  C3. Nothing crosses a group: in every reachable state each message that was written to a
  client's socket, waits in its channel or is about to be sent on its behalf mentions only peers
  that connected from the same IP group, a connection only ever sends to channels of its own
  group, and no channel holds more than its four messages.
\<close>

theorem messages_stay_in_group:
  assumes "ws_reachable X L s" and "sy_conns s c = Some cn"
  shows "(\<forall>m \<in> set (cn_out cn) \<union> set (cn_queue cn) \<union> snd ` set (phase_todo (cn_phase cn)).
      \<forall>i \<in> set (msg_ids m). \<exists>d dn. sy_conns s d = Some dn \<and> cn_group dn = cn_group cn
        \<and> ci_id (cn_peer dn) = i)
    \<and> (\<forall>t \<in> fst ` set (phase_todo (cn_phase cn)).
        \<exists>dn. sy_conns s t = Some dn \<and> cn_group dn = cn_group cn)
    \<and> length (cn_queue cn) \<le> 4"
proof -
  have ok: "conn_ok (sy_conns s) cn"
    using signaling.inv_reachable [OF assms(1)] assms(2) by (rule sys_invD(3))
  have ids: "\<exists>d dn. sy_conns s d = Some dn \<and> cn_group dn = g \<and> ci_id (cn_peer dn) = i"
    if "i \<in> group_ids (sy_conns s) g" for i g
    using that by (auto simp: group_ids_def ident_def)
  have chans: "\<exists>dn. sy_conns s t = Some dn \<and> cn_group dn = g"
    if "t \<in> group_chans (sy_conns s) g" for t g
    using that by (auto simp: group_chans_def ident_def)
  have msgs: "set (msg_ids m) \<subseteq> group_ids (sy_conns s) (cn_group cn)"
    if "m \<in> set (cn_out cn) \<union> set (cn_queue cn) \<union> snd ` set (phase_todo (cn_phase cn))" for m
    using ok that by (fastforce simp: conn_ok_def todo_ok_def)
  have "fst e \<in> group_chans (sy_conns s) (cn_group cn)"
    if "e \<in> set (phase_todo (cn_phase cn))" for e
    using ok that by (auto simp: conn_ok_def todo_ok_def)
  then show ?thesis
    using msgs ids chans ok unfolding conn_ok_def channel_capacity_def by blast
qed

lemma messages_stay_in_group_witness:
  "\<exists>cn d dn. sy_conns sample_system 0 = Some cn \<and> Join (sample_peer 8) \<in> set (cn_out cn)
     \<and> sy_conns sample_system d = Some dn \<and> cn_group dn = ''10.0.0.1'' \<and> ci_id (cn_peer dn) = 8"
proof -
  obtain cn where cn: "sy_conns sample_system 0 = Some cn" "cn_group cn = ''10.0.0.1''"
    "cn_out cn = [Hello (sample_peer 7) [], Join (sample_peer 8)]"
    using sample_conn by blast
  moreover have "Join (sample_peer 8) \<in> set (cn_out cn)" "8 \<in> set (msg_ids (Join (sample_peer 8)))"
    using cn by (simp_all add: sample_peer_def)
  ultimately show ?thesis
    using messages_stay_in_group [OF sample_reachable cn(1)] by fastforce
qed

section \<open>The critical sections\<close>

definition sample_state :: app_state where
  "sample_state = sy_state sample_system"

lemma sample_state_inv: "ws_inv default_limits sample_state"
  unfolding sample_state_def
  by (rule sys_invD(1) [OF signaling.inv_reachable [OF sample_reachable]])




text \<open>
  C16. Disconnecting removes exactly the peer's entry and nothing else, spends no request, sends
  \<open>Left\<close> to the channels of exactly the members that remain, and drops the whole group from the map
  when it was the last member.
\<close>

theorem disconnect_outcome:
  assumes "ws_inv L s" and "disconnect_locked g i s = (txs, t)"
  shows "members t g = (members s g)(i := None) \<and> (\<forall>h. h \<noteq> g \<longrightarrow> members t h = members s h)
    \<and> used t = used s \<and> ws_inv L t
    \<and> set (disconnect_sends i txs) = (\<lambda>v. (st_tx v, Left i)) ` ran ((members s g)(i := None))
    \<and> (dom (members s g) \<subseteq> {i} \<longrightarrow> hm_get (tx_map t) g = None)"
proof -
  have "leave_room g i s (txs, t)" "ws_inv L t"
    using disconnect_refines [OF assms(1), of g i] assms(2) by simp_all
  moreover have "dom (members s g) \<subseteq> {i} \<Longrightarrow> (members s g)(i := None) = Map.empty"
    by (auto simp: fun_eq_iff)
  ultimately show ?thesis
    by (auto simp: leave_room_def disconnect_sends_def others_tx_def)
qed

definition crowded :: app_state where
  "crowded = snd (connect_locked default_limits ''g'' (sample_peer 2) 1
     (snd (connect_locked default_limits ''g'' (sample_peer 1) 0 app_state_new)))"

lemma crowded_inv: "ws_inv default_limits crowded"
  unfolding crowded_def by (intro ws_inv_operations)

lemma disconnect_outcome_witness:
  "hm_get (tx_map (snd (disconnect_locked ''g'' 2 (snd (disconnect_locked ''g'' 1 crowded))))) ''g'' = None"
proof -
  have d: "disconnect_locked ''g'' 1 crowded = ([1], snd (disconnect_locked ''g'' 1 crowded))"
    by code_simp
  note one = disconnect_outcome [OF crowded_inv d]
  have d2: "disconnect_locked ''g'' 2 (snd (disconnect_locked ''g'' 1 crowded))
      = ([], snd (disconnect_locked ''g'' 2 (snd (disconnect_locked ''g'' 1 crowded))))"
    by code_simp
  have "hm_keys (the (hm_get (tx_map crowded) ''g'')) = [1, 2]"
    by code_simp
  moreover have "hm_get (tx_map crowded) ''g'' \<noteq> None"
    by code_simp
  ultimately have "dom (members crowded ''g'') = {1, 2}"
    by (auto simp: members_def dom_hm_get split: option.splits)
  then have "dom (members (snd (disconnect_locked ''g'' 1 crowded)) ''g'') \<subseteq> {2}"
    using one by simp
  then show ?thesis
    using disconnect_outcome [OF conjunct1 [OF conjunct2 [OF conjunct2 [OF conjunct2 [OF one]]]] d2]
    by blast
qed

text \<open>
  C17. A frame of a connected client: anything but a text frame with a well-formed message is ignored
  and costs nothing; when the group's budget is used up the client is told so (error 429) and its
  task ends with nothing forwarded; otherwise one request is spent and an offer or answer goes to
  the one target in the sender's own group, carrying the sender's identity, or nowhere if the
  target is not there, and an update is announced to all the other members under the sender's id.
\<close>

theorem recv_frame_outcome:
  assumes "ws_inv L s" and r: "recv_frame X L g peer tx f s = (nxt, sends, t)"
  shows "case (case f of Text txt \<Rightarrow> from_text X (dec_ws_client_message X) txt | _ \<Rightarrow> None) of
      None \<Rightarrow> nxt = Continue \<and> sends = [] \<and> t = s
    | Some msg \<Rightarrow>
        if max_requests L \<le> used s g
        then nxt = Return \<and> sends = [(tx, Error 429)] \<and> members t = members s \<and> used t = used s
        else nxt = Continue \<and> used t = (used s)(g := used s g + 1) \<and>
          (case msg of
             COffer m \<Rightarrow> members t = members s \<and> sends = (case members s g (cs_target m) of None \<Rightarrow> []
               | Some v \<Rightarrow> [(st_tx v, Offer (to_server_sdp peer m))])
           | CAnswer m \<Rightarrow> members t = members s \<and> sends = (case members s g (cs_target m) of None \<Rightarrow> []
               | Some v \<Rightarrow> [(st_tx v, Answer (to_server_sdp peer m))])
           | CUpdate info \<Rightarrow> (case members s g (ci_id peer) of
               None \<Rightarrow> sends = [] \<and> members t = members s
             | Some v \<Rightarrow> members t = (members s)(g := (members s g)(ci_id peer \<mapsto> v\<lparr>st_client := info\<rparr>))
                 \<and> set sends = (\<lambda>d. (st_tx d, Update (client_info_from info (ci_id peer)))) `
                     ran ((members s g)(ci_id peer := None))))"
proof (cases "case f of Text txt \<Rightarrow> from_text X (dec_ws_client_message X) txt | _ \<Rightarrow> None")
  case None
  then show ?thesis
    using r by (auto simp: recv_frame_def split: ws_frame.splits)
next
  case (Some msg)
  obtain q rc where p: "protect_ddos_request_count L g (request_count_map s) = (q, rc)"
    by force
  let ?s = "s\<lparr>request_count_map := rc\<rparr>"
  have mem: "members ?s = members s"
    by (rule members_request_count)
  show ?thesis
  proof (cases q)
    case (Inl e)
    then show ?thesis
      using Some r p protect_cases [OF p, where t = s] mem
      by (auto simp: recv_frame_def split: ws_frame.splits)
  next
    case (Inr u)
    have disp: "dispatch_message g peer msg ?s = (sends, t)" and nxt: "nxt = Continue"
      using Some r p Inr by (auto simp: recv_frame_def split: ws_frame.splits prod.splits)
    have budget: "used s g < max_requests L" and use: "used ?s = (used s)(g := used s g + 1)"
      using protect_cases [OF p, where t = s] Inr by simp_all
    show ?thesis
    proof (cases msg)
      case (CUpdate info)
      then have "update_room g (ci_id peer) info ?s (sends, t)"
        using disp update_refines [OF ws_inv_protect [OF assms(1) p], of g "ci_id peer" info]
        by (simp add: dispatch_message_def)
      then show ?thesis
        using Some CUpdate nxt budget use mem
        by (auto simp: update_room_def others_tx_def split: option.splits)
    qed (use Some disp nxt budget use mem in
        \<open>auto simp: dispatch_message_def send_to_peer_eq split: option.splits\<close>)
  qed
qed

definition sample_offer :: ws_client_sdp_message where
  "sample_offer = \<lparr>cs_session_id = ''s'', cs_target = 2, cs_sdp = ''sdp''\<rparr>"

lemma recv_frame_outcome_witness:
  "fst (snd (recv_frame sample_crates default_limits ''g'' (sample_peer 1) 0
      (Text (to_text sample_crates (enc_ws_client_message sample_crates) (COffer sample_offer)))
      crowded)) = [(1, Offer (to_server_sdp (sample_peer 1) sample_offer))]"
proof -
  let ?msg = "to_text sample_crates (enc_ws_client_message sample_crates) (COffer sample_offer)"
  have parsed: "from_text sample_crates (dec_ws_client_message sample_crates) ?msg = Some (COffer sample_offer)"
    by (rule from_text_to_text [OF sample_laws(2) ws_client_message_codec [OF sample_laws(1)]])
  have used: "\<not> max_requests default_limits \<le> used crowded ''g''" and target: "cs_target sample_offer = 2"
    by (code_simp, code_simp)
  have mem: "members crowded ''g'' 2 = Some \<lparr>st_client = without_id (sample_peer 2), st_tx = 1\<rparr>"
    by code_simp
  obtain nxt sends t where r: "recv_frame sample_crates default_limits ''g'' (sample_peer 1) 0
      (Text ?msg) crowded = (nxt, sends, t)"
    by (rule prod_cases3)
  show ?thesis
    using recv_frame_outcome [OF crowded_inv r] parsed used mem target
    by (simp add: r)
qed

text \<open>
  C18. The request budget over any sequence of requests of any groups after a run of the hourly job:
  of each group exactly as many requests pass as its budget allows (all of them when there are
  fewer), however the groups interleave; one group never uses up another's budget.
\<close>

theorem request_budget_is_exact:
  "passed g gs (fst (run_hits (group_hit L) gs (request_count_map (clear_request_counts s))))
     = min (count_list gs g) (unat (max_requests L))"
  using ddos.passed_run [of "request_count_map (clear_request_counts s)" g L gs]
  by (simp add: clear_request_counts_def group_spent_def)

section \<open>Well-formedness of the shared state\<close>

text \<open>The four ways in which a task touches the shared state, as one run of any of them.\<close>

datatype shared_operation =
    OpConnect string client_info chan
  | OpDisconnect string uuid
  | OpFrame string client_info chan ws_frame
  | OpClear

fun apply_operation :: "('z) crates_scheme \<Rightarrow> limits \<Rightarrow> shared_operation \<Rightarrow> app_state \<Rightarrow> app_state" where
  "apply_operation X L (OpConnect g peer tx) s = snd (connect_locked L g peer tx s)"
| "apply_operation X L (OpDisconnect g i) s = snd (disconnect_locked g i s)"
| "apply_operation X L (OpFrame g peer tx f) s = snd (snd (recv_frame X L g peer tx f s))"
| "apply_operation X L OpClear s = clear_request_counts s"

text \<open>
  C19. The shared state is well-formed after any sequence of connects, disconnects, frames and runs
  of the hourly job, also ones that no client could cause: no map has two entries for a key, no
  group more members than the connection limit allows, and no counter is above the request limit.
\<close>

theorem shared_state_well_formed:
  "let s = fold (apply_operation X L) ops app_state_new
   in distinct (map fst (tx_map s)) \<and> distinct (map fst (request_count_map s))
    \<and> snd ` set (tx_map s) \<subseteq> {m. distinct (map fst m) \<and> length m \<le> unat (max_connections L)}
    \<and> snd ` set (request_count_map s) \<subseteq> {c. c \<le> max_requests L}"
proof -
  have inv: "ws_inv L (fold (apply_operation X L) ops app_state_new)"
  proof (induction ops rule: rev_induct)
    case (snoc op ops)
    then show ?case by (cases op) (simp_all add: ws_inv_operations)
  qed (simp add: ws_inv_operations)
  have "snd ` set (request_count_map s) \<subseteq> {c. c \<le> max_requests L}" if "ws_inv L s" for s
  proof -
    have "c \<le> max_requests L" if c: "(g, c) \<in> set (request_count_map s)" for g c
      using ws_invD(3) [OF \<open>ws_inv L s\<close>, of g]
        hm_get_eq_Some [OF ws_invD(2) [OF \<open>ws_inv L s\<close>], of g c] c
      by (simp add: used_def)
    then show ?thesis by auto
  qed
  from this [OF inv] inv show ?thesis
    by (auto simp: ws_inv_def Let_def hm_wf_def hm_len_def hm_get_eq_Some)
qed

end
