(* ===== verification/Signaling_Client.thy ===== *)
theory Signaling_Client
  imports Ws_Controller Sample_Crates
begin

text \<open>
  The client end of the signaling connection, \<open>core/src/webrtc/signaling.rs\<close> lines 177 to 415:
  connecting, the task that reads server messages, the listener with its one-shot callbacks for
  answers, and the messages the client sends. A callback is an abstract value; running it is an
  entry of the list of calls.
\<close>

section \<open>Connecting\<close>

definition connect_uri :: "('z) crates_scheme \<Rightarrow> string \<Rightarrow> client_info_without_id \<Rightarrow> string" where
  "connect_uri X uri info =
     (let encoded_info = x_b64_encode X (as_bytes (to_text X enc_client_info_without_id info))
      in uri @ ''?d='' @ encoded_info)"

definition read_frame :: "('z) crates_scheme \<Rightarrow> ws_frame \<Rightarrow> ws_server_message option" where
  "read_frame X frame =
     (case frame of Text txt \<Rightarrow> from_text X (dec_ws_server_message X) txt | _ \<Rightarrow> None)"

text \<open>
  The reading task: what it forwards, given whether the first \<open>Hello\<close> has been seen (its
  receiver is dropped then, so a later \<open>Hello\<close> is not forwarded).
\<close>

fun reader :: "('z) crates_scheme \<Rightarrow> bool \<Rightarrow> ws_frame list \<Rightarrow> ws_server_message list" where
  "reader X greeted [] = []"
| "reader X greeted (f # fs) =
     (case read_frame X f of
        None \<Rightarrow> reader X greeted fs
      | Some (Hello client peers) \<Rightarrow>
          if greeted then reader X greeted fs else Hello client peers # reader X True fs
      | Some m \<Rightarrow> m # reader X greeted fs)"

record signaling_connection =
  sg_client :: client_info
  sg_rx :: "ws_server_message list"

fun first_hello :: "ws_server_message list \<Rightarrow> client_info option" where
  "first_hello [] = None"
| "first_hello (Hello client peers # ms) = Some client"
| "first_hello (m # ms) = first_hello ms"

text \<open>\<open>None\<close>: the connection closed before any \<open>Hello\<close> and \<open>unwrap\<close> panics.\<close>

definition connect :: "('z) crates_scheme \<Rightarrow> ws_frame list \<Rightarrow> signaling_connection option" where
  "connect X frames =
     (let ms = reader X False frames
      in map_option (\<lambda>client. \<lparr>sg_client = client, sg_rx = ms\<rparr>) (first_hello ms))"

section \<open>The managed connection\<close>

record 'cb managed =
  mg_client :: client_info
  mg_sent :: "ws_client_message list"
  mg_on_answer :: "(string, 'cb) hmap"

definition start_listener :: "signaling_connection \<Rightarrow> 'cb managed" where
  "start_listener c = \<lparr>mg_client = sg_client c, mg_sent = [], mg_on_answer = hm_new\<rparr>"

definition on_answer :: "string \<Rightarrow> 'cb \<Rightarrow> 'cb managed \<Rightarrow> 'cb managed" where
  "on_answer session_id callback m =
     m\<lparr>mg_on_answer := hm_insert session_id callback (mg_on_answer m)\<rparr>"

text \<open>
  One round of the listener: the callbacks it runs, and the message it forwards. \<open>None\<close>: nobody
  receives the forwarded messages any more and \<open>unwrap\<close> panics.
\<close>

definition listen :: "bool \<Rightarrow> ws_server_message \<Rightarrow> 'cb managed
    \<Rightarrow> (('cb \<times> ws_server_sdp_message) list \<times> 'cb managed) option" where
  "listen rx_open message m =
     (let (calls, m') =
        (case message of
           Answer sdp \<Rightarrow>
             (case hm_get (mg_on_answer m) (ss_session_id sdp) of
                Some callback \<Rightarrow>
                  ([(callback, sdp)],
                   m\<lparr>mg_on_answer := hm_remove (ss_session_id sdp) (mg_on_answer m)\<rparr>)
              | None \<Rightarrow> ([], m))
         | _ \<Rightarrow> ([], m))
      in if rx_open then Some (calls, m') else None)"

text \<open>The sends fail only when the writing task is gone.\<close>

definition send_message :: "bool \<Rightarrow> ws_client_message \<Rightarrow> 'cb managed \<Rightarrow> string + 'cb managed" where
  "send_message tx_open msg m =
     (if tx_open then Inr (m\<lparr>mg_sent := mg_sent m @ [msg]\<rparr>) else Inl ''channel closed'')"

definition client_send_update where
  "client_send_update tx_open info m = send_message tx_open (CUpdate info) m"

definition client_send_offer where
  "client_send_offer tx_open session_id target sdp m =
     send_message tx_open (COffer \<lparr>cs_session_id = session_id, cs_target = target, cs_sdp = sdp\<rparr>) m"

definition client_send_answer where
  "client_send_answer tx_open session_id target sdp m =
     send_message tx_open (CAnswer \<lparr>cs_session_id = session_id, cs_target = target, cs_sdp = sdp\<rparr>) m"

section \<open>Registrations and messages interleaved\<close>

datatype 'cb client_event = Register string 'cb | Incoming ws_server_message

fun listen_all :: "'cb client_event list \<Rightarrow> 'cb managed \<Rightarrow> ('cb \<times> ws_server_sdp_message) list" where
  "listen_all [] m = []"
| "listen_all (Register session_id cb # es) m = listen_all es (on_answer session_id cb m)"
| "listen_all (Incoming msg # es) m =
     (case listen True msg m of
        None \<Rightarrow> []
      | Some (calls, m') \<Rightarrow> calls @ listen_all es m')"

lemma listen_True:
  "listen True message m =
     (case message of
        Answer sdp \<Rightarrow>
          (case hm_get (mg_on_answer m) (ss_session_id sdp) of
             Some callback \<Rightarrow> Some ([(callback, sdp)],
               m\<lparr>mg_on_answer := hm_remove (ss_session_id sdp) (mg_on_answer m)\<rparr>)
           | None \<Rightarrow> Some ([], m))
      | _ \<Rightarrow> Some ([], m))"
  by (auto simp: listen_def split: ws_server_message.splits option.splits)

lemma listen_returns: "\<exists>calls m'. listen True msg m = Some (calls, m')"
  by (auto simp: listen_True split: ws_server_message.split option.split)

definition pending :: "'cb managed \<Rightarrow> 'cb \<Rightarrow> nat" where
  "pending m cb = length (filter (\<lambda>e. snd e = cb) (mg_on_answer m))"

definition registrations :: "'cb client_event list \<Rightarrow> 'cb \<Rightarrow> nat" where
  "registrations es cb = length (filter (\<lambda>e. case e of Register _ c \<Rightarrow> c = cb | _ \<Rightarrow> False) es)"

lemma filter_hm_insert: "length (filter P (hm_insert k v m)) \<le> length (filter P m) + (if P (k, v) then 1 else 0)"
  by (induction m) auto

lemma filter_hm_remove:
  assumes "hm_get m k = Some v"
  shows "length (filter (\<lambda>e. snd e = w) (hm_remove k m)) + (if v = w then 1 else 0)
    \<le> length (filter (\<lambda>e. snd e = w) m)"
  using assms
proof (induction m)
  case (Cons e m)
  have le: "length (filter (\<lambda>e. snd e = w) (hm_remove k m)) \<le> length (filter (\<lambda>e. snd e = w) m)"
    by (induction m) (auto simp: hm_remove_def)
  show ?case
  proof (cases "fst e = k")
    case True
    with Cons.prems le show ?thesis by (auto simp: hm_get_Cons hm_remove_def)
  next
    case False
    with Cons show ?thesis by (auto simp: hm_get_Cons hm_remove_def)
  qed
qed simp

lemma calls_bounded:
  "length (filter (\<lambda>c. fst c = cb) (listen_all es m)) \<le> pending m cb + registrations es cb"
proof (induction es m rule: listen_all.induct)
  case (2 session_id c es m)
  have "pending (on_answer session_id c m) cb \<le> pending m cb + (if c = cb then 1 else 0)"
    using filter_hm_insert [of "\<lambda>e. snd e = cb" session_id c "mg_on_answer m"]
    by (auto simp: pending_def on_answer_def)
  with 2 show ?case by (auto simp: registrations_def)
next
  case (3 msg es m)
  obtain calls m' where l: "listen True msg m = Some (calls, m')"
    using listen_returns [of msg m] by blast
  have "length (filter (\<lambda>c. fst c = cb) calls) + pending m' cb \<le> pending m cb"
    using l filter_hm_remove [of "mg_on_answer m" _ _ cb]
    by (fastforce simp: listen_True pending_def split: ws_server_message.splits option.splits if_splits)
  with 3 [OF l refl] show ?case
    using l by (simp add: registrations_def)
qed simp

definition calls_right :: "'cb client_event list \<Rightarrow> 'cb managed \<Rightarrow> ('cb \<times> ws_server_sdp_message) list \<Rightarrow> bool" where
  "calls_right es m calls \<longleftrightarrow> (\<forall>(cb, sdp) \<in> set calls. Incoming (Answer sdp) \<in> set es
     \<and> (Register (ss_session_id sdp) cb \<in> set es \<or> hm_get (mg_on_answer m) (ss_session_id sdp) = Some cb))"

lemma listen_all_right: "calls_right es m (listen_all es m)"
proof (induction es m rule: listen_all.induct)
  case (2 session_id c es m)
  then show ?case
    by (fastforce simp: calls_right_def on_answer_def map_simps split: if_splits)
next
  case (3 msg es m)
  obtain calls m' where l: "listen True msg m = Some (calls, m')"
    using listen_returns [of msg m] by blast
  have "calls_right [Incoming msg] m calls"
    using l by (auto simp: listen_True calls_right_def split: ws_server_message.splits option.splits)
  moreover have "hm_get (mg_on_answer m') k = Some cb \<Longrightarrow> hm_get (mg_on_answer m) k = Some cb" for k cb
    using l by (auto simp: listen_True map_simps split: ws_server_message.splits option.splits if_splits)
  ultimately show ?case
    using 3 [OF l refl] l by (fastforce simp: calls_right_def)
qed (simp add: calls_right_def)

text \<open>
  Answer callbacks are one-shot and go to the right session: over any interleaving of
  registrations and server messages, a callback runs at most as often as it was registered, and
  whenever it runs it is with an answer from the server for a session id it was registered for.
\<close>

theorem answer_callbacks_one_shot:
  "length (filter (\<lambda>c. fst c = cb) (listen_all es (start_listener con))) \<le> registrations es cb
   \<and> (\<forall>call \<in> set (listen_all es (start_listener con)).
        Incoming (Answer (snd call)) \<in> set es
        \<and> Register (ss_session_id (snd call)) (fst call) \<in> set es)"
proof -
  let ?m = "start_listener con"
  have "pending ?m cb = 0"
    by (simp add: pending_def start_listener_def hm_new_def)
  then have "length (filter (\<lambda>c. fst c = cb) (listen_all es ?m)) \<le> registrations es cb"
    using calls_bounded [of cb es ?m] by simp
  moreover have "\<forall>call \<in> set (listen_all es ?m). Incoming (Answer (snd call)) \<in> set es
        \<and> Register (ss_session_id (snd call)) (fst call) \<in> set es"
    using listen_all_right [of es ?m] by (auto simp: calls_right_def start_listener_def hm_new_def)
  ultimately show ?thesis by blast
qed

definition sample_sdp :: ws_server_sdp_message where
  "sample_sdp = \<lparr>ss_peer = \<lparr>ci_id = 3, ci_alias = ''a'', ci_version = ''2.3'', ci_device_model = None,
     ci_device_type = None, ci_token = ''t''\<rparr>, ss_session_id = ''s1'', ss_sdp = ''sdp''\<rparr>"

definition sample_connection :: signaling_connection where
  "sample_connection = \<lparr>sg_client = ss_peer sample_sdp, sg_rx = []\<rparr>"

lemma sample_listen:
  "listen_all [Register ''s1'' (0::nat), Incoming (Answer sample_sdp), Incoming (Answer sample_sdp)]
     (start_listener sample_connection) = [(0, sample_sdp)]"
  by (simp add: listen_True start_listener_def on_answer_def sample_sdp_def hm_new_def hm_get_Cons
      hm_remove_def)

lemma answer_callbacks_one_shot_witness:
  "length (filter (\<lambda>c. fst c = (0::nat)) [(0, sample_sdp)]) \<le> registrations
      [Register ''s1'' (0::nat), Incoming (Answer sample_sdp), Incoming (Answer sample_sdp)] 0"
  by (rule answer_callbacks_one_shot [of "0::nat" "[Register ''s1'' (0::nat), Incoming (Answer sample_sdp),
      Incoming (Answer sample_sdp)]" sample_connection, unfolded sample_listen, THEN conjunct1])

text \<open>
  An answer that comes before its callback is registered is lost: if every answer of a session
  arrives before the registration, the callback never runs. \<open>send_offer\<close> in \<open>webrtc.rs\<close> sends
  the offer first and registers afterwards, so this order is possible.
\<close>

theorem early_answer_is_lost:
  "listen_all [Incoming (Answer sdp), Register (ss_session_id sdp) cb] (start_listener con) = []"
  by (simp add: listen_True start_listener_def hm_new_def)

text \<open>
  What \<open>connect\<close> puts into the query parameter is decoded by the server's upgrade handler to the
  same description under the id the server chose.
\<close>

lemma registration_decodes:
  assumes "b64_law X" and "json_law X"
    and "utf8_valid (as_bytes (to_text X enc_client_info_without_id info))"
  shows "\<exists>d. connect_uri X uri info = uri @ ''?d='' @ d
    \<and> decode_register X new_id d = Inr (client_info_from info new_id)"
  using assms from_text_to_text [OF assms(2) client_info_without_id_codec.json_codec_axioms]
  by (simp add: connect_uri_def decode_register_def b64_law_def from_utf8_def Let_def)

end
