(* ===== verification/Signaling_Writer.thy ===== *)
theory Signaling_Writer
  imports Signaling_Client "HOL-Library.Sublist"
begin

text \<open>
  The writing task of the signaling client (\<open>core/src/webrtc/signaling.rs\<close>, lines 205 to 237): it
  takes the client's messages from a channel, writes them as text frames, and writes a ping when
  120 seconds pass without one. Its frames are what the server's \<open>recv_frame\<close> gets.
\<close>

section \<open>The task\<close>

text \<open>
  What a round of the loop sees. The timeout covers the writing as well: \<open>WriteTimedOut m fed\<close> is
  a message that was taken from the channel and whose writing did not finish in time; \<open>fed\<close> says
  whether the socket's buffer had it already when the future was dropped.
\<close>

datatype writer_event =
    Queued ws_client_message
  | QueueClosed
  | TimedOut
  | WriteTimedOut ws_client_message bool

definition message_frame :: "('z) crates_scheme \<Rightarrow> ws_client_message \<Rightarrow> ws_frame" where
  "message_frame X m = Text (to_text X (enc_ws_client_message X) m)"

text \<open>\<open>alive out\<close>: the socket takes another frame after the frames \<open>out\<close>.\<close>

fun writing ::
    "('z) crates_scheme \<Rightarrow> (ws_frame list \<Rightarrow> bool) \<Rightarrow> ws_frame list \<Rightarrow> writer_event list \<Rightarrow> ws_frame list" where
  "writing X alive out [] = out"
| "writing X alive out (Queued m # es) =
     (if alive out then writing X alive (out @ [message_frame X m]) es else out)"
| "writing X alive out (QueueClosed # es) = out"
| "writing X alive out (TimedOut # es) =
     (if alive out then writing X alive (out @ [Ping []]) es else out)"
| "writing X alive out (WriteTimedOut m fed # es) =
     (let out = out @ (if fed then [message_frame X m] else [])
      in if alive out then writing X alive (out @ [Ping []]) es else out)"

section \<open>From the client to the server\<close>

definition frame_messages :: "('z) crates_scheme \<Rightarrow> ws_frame list \<Rightarrow> ws_client_message list" where
  "frame_messages X fs = List.map_filter (\<lambda>f. case f of
     Text txt \<Rightarrow> from_text X (dec_ws_client_message X) txt | _ \<Rightarrow> None) fs"

fun taken :: "writer_event list \<Rightarrow> ws_client_message list" where
  "taken [] = []"
| "taken (Queued m # es) = m # taken es"
| "taken (WriteTimedOut m fed # es) = m # taken es"
| "taken (e # es) = taken es"

fun undisturbed :: "writer_event \<Rightarrow> bool" where
  "undisturbed (Queued m) = True"
| "undisturbed TimedOut = True"
| "undisturbed e = False"

lemma message_frame_decodes:
  assumes "json_law X" and "uuid_law X"
  shows "from_text X (dec_ws_client_message X) (to_text X (enc_ws_client_message X) m) = Some m"
  by (rule from_text_to_text [OF assms(1) ws_client_message_codec [OF assms(2)]])

lemma frame_messages_simps:
  assumes "json_law X" and "uuid_law X"
  shows "frame_messages X [] = []" "frame_messages X [Ping bs] = []"
    "frame_messages X [message_frame X m] = [m]"
    "frame_messages X (fs @ gs) = frame_messages X fs @ frame_messages X gs"
  using message_frame_decodes [OF assms]
  by (simp_all add: frame_messages_def message_frame_def List.map_filter_def)

text \<open>What reaches the server, as a function of the events alone.\<close>

fun delivered :: "('z) crates_scheme \<Rightarrow> (ws_frame list \<Rightarrow> bool) \<Rightarrow> ws_frame list \<Rightarrow> writer_event list
    \<Rightarrow> ws_client_message list" where
  "delivered X alive out [] = []"
| "delivered X alive out (Queued m # es) =
     (if alive out then m # delivered X alive (out @ [message_frame X m]) es else [])"
| "delivered X alive out (QueueClosed # es) = []"
| "delivered X alive out (TimedOut # es) =
     (if alive out then delivered X alive (out @ [Ping []]) es else [])"
| "delivered X alive out (WriteTimedOut m fed # es) =
     (let out = out @ (if fed then [message_frame X m] else [])
      in (if fed then [m] else []) @ (if alive out then delivered X alive (out @ [Ping []]) es else []))"

lemma writing_delivers:
  assumes laws: "json_law X" "uuid_law X"
  shows "frame_messages X (writing X alive out es) = frame_messages X out @ delivered X alive out es"
proof (induction es arbitrary: out)
  case (Cons e es)
  then show ?case by (cases e) (simp_all add: frame_messages_simps [OF laws] Let_def)
qed (simp add: frame_messages_simps [OF laws])

lemma delivered_subseq: "subseq (delivered X alive out es) (taken es)"
proof (induction es arbitrary: out)
  case (Cons e es)
  then show ?case by (cases e) (auto simp: Let_def)
qed simp

lemma delivered_all: "alive = (\<lambda>_. True) \<Longrightarrow> list_all undisturbed es \<Longrightarrow> delivered X alive out es = taken es"
proof (induction es arbitrary: out)
  case (Cons e es)
  then show ?case by (cases e) auto
qed simp

text \<open>
  C34. The server understands every message frame of a client, and what it reads off the socket is
  a subsequence, in order, of the messages the client handed over: nothing is invented, doubled or
  reordered. All of them arrive if the socket stays open, the channel too, and no write takes longer
  than what remained of the 120 seconds; a message caught by that timeout can be lost although the
  sender was told it was sent.
\<close>

theorem client_messages_reach_server:
  assumes "json_law X" and "uuid_law X"
  shows "subseq (frame_messages X (writing X alive [] es)) (taken es)
    \<and> (alive = (\<lambda>_. True) \<and> list_all undisturbed es \<longrightarrow> frame_messages X (writing X alive [] es) = taken es)
    \<and> frame_messages X (writing X alive [] [WriteTimedOut m False]) = []"
  using delivered_subseq [of X alive "[]" es] delivered_all [of alive es X "[]"]
  by (simp add: writing_delivers [OF assms] frame_messages_simps [OF assms] Let_def)

lemma client_messages_reach_server_witness:
  "frame_messages sample_crates (writing sample_crates (\<lambda>_. True) []
      [TimedOut, Queued (COffer \<lparr>cs_session_id = ''s'', cs_target = 3, cs_sdp = ''v''\<rparr>), TimedOut])
    = [COffer \<lparr>cs_session_id = ''s'', cs_target = 3, cs_sdp = ''v''\<rparr>]"
  using client_messages_reach_server [OF sample_laws(2,1), of "\<lambda>_. True"
      "[TimedOut, Queued (COffer \<lparr>cs_session_id = ''s'', cs_target = 3, cs_sdp = ''v''\<rparr>), TimedOut]"]
  by simp

end
