(* ===== verification/Signaling_Exchange.thy ===== *)
theory Signaling_Exchange
  imports Ws_Properties Signaling_Writer
begin

text \<open>
  The signaling server and its clients together: the frames \<open>send_task\<close> writes are what the
  client's reading task gets, and every offer or answer a client gets was sent by a client of its
  group, with that client's own description, in a frame addressed to it.
\<close>

section \<open>From the server to the client\<close>

definition server_frame :: "('z) crates_scheme \<Rightarrow> ws_server_message \<Rightarrow> ws_frame" where
  "server_frame X m = Text (to_text X (enc_ws_server_message X) m)"

lemma read_server_frame:
  "json_law X \<Longrightarrow> uuid_law X \<Longrightarrow> read_frame X (server_frame X m) = Some m"
  using from_text_to_text [OF _ ws_server_message_codec] by (simp add: read_frame_def server_frame_def)

lemma reader_forwards:
  assumes "json_law X" and "uuid_law X"
  shows "set (reader X greeted (map (server_frame X) ms)) \<subseteq> set ms"
proof (induction ms arbitrary: greeted)
  case (Cons m ms)
  then show ?case
    using Cons [of True] Cons [of greeted] read_server_frame [OF assms]
    by (cases m) auto
qed simp

section \<open>Mail\<close>

text \<open>Every message on its way or arrived, with the channel it is for.\<close>

definition conn_mail :: "chan \<Rightarrow> conn \<Rightarrow> (chan \<times> ws_server_message) set" where
  "conn_mail c cn = set (phase_todo (cn_phase cn)) \<union> Pair c ` (set (cn_queue cn) \<union> set (cn_out cn))"

definition mail :: "(chan \<Rightarrow> conn option) \<Rightarrow> (chan \<times> ws_server_message) set" where
  "mail cs = {e. \<exists>c cn. cs c = Some cn \<and> e \<in> conn_mail c cn}"

lemma mail_upd:
  assumes "cs c = Some cn" and "conn_mail c cn' \<subseteq> conn_mail c cn \<union> new"
  shows "mail (cs(c \<mapsto> cn')) \<subseteq> mail cs \<union> new"
  using assms by (force simp: mail_def split: if_splits)

lemma mail_deliver:
  assumes "deliver t m cs = Some cs'"
  shows "mail cs' \<subseteq> insert (t, m) (mail cs)"
proof (cases "cs' = cs")
  case False
  then obtain tn where tn: "cs t = Some tn" "cs' = cs(t \<mapsto> tn\<lparr>cn_queue := cn_queue tn @ [m]\<rparr>)"
    using assms by (auto simp: deliver_def split: option.splits if_splits)
  then have "mail cs' \<subseteq> mail cs \<union> {(t, m)}"
    unfolding tn(2) by (intro mail_upd [where cs = cs, OF tn(1)]) (auto simp: conn_mail_def)
  then show ?thesis by simp
qed auto

fun carries_sdp :: "ws_server_message \<Rightarrow> bool" where
  "carries_sdp (Offer _) = True"
| "carries_sdp (Answer _) = True"
| "carries_sdp _ = False"

abbreviation plain_mail :: "(chan \<times> ws_server_message) set" where
  "plain_mail \<equiv> {e. \<not> carries_sdp (snd e)}"

text \<open>What an action adds to the mail, besides messages without a session description.\<close>

fun posted :: "('z) crates_scheme \<Rightarrow> limits \<Rightarrow> action \<Rightarrow> system \<Rightarrow> (chan \<times> ws_server_message) set" where
  "posted X L (AFrame c f) s =
     (case sy_conns s c of None \<Rightarrow> {}
      | Some cn \<Rightarrow> set (fst (snd (recv_frame X L (cn_group cn) (cn_peer cn) c f (sy_state s)))))"
| "posted X L a s = {}"

lemma mail_send:
  assumes "ws_act X L (ASend c) s = Some s'"
  shows "mail (sy_conns s') \<subseteq> mail (sy_conns s)"
proof -
  obtain cn t m todo cs where c: "sy_conns s c = Some cn" "phase_todo (cn_phase cn) = (t, m) # todo"
    and d: "deliver t m ((sy_conns s)(c \<mapsto> cn\<lparr>cn_phase := phase_with (cn_phase cn) todo\<rparr>)) = Some cs"
    and s': "s' = s\<lparr>sy_conns := cs\<rparr>"
    using assms by (auto split: option.splits list.splits)
  have "mail ((sy_conns s)(c \<mapsto> cn\<lparr>cn_phase := phase_with (cn_phase cn) todo\<rparr>)) \<subseteq> mail (sy_conns s) \<union> {}"
    using c by (intro mail_upd [where cs = "sy_conns s", OF c(1)]) (auto simp: conn_mail_def)
  moreover have "(t, m) \<in> mail (sy_conns s)"
    using c by (force simp: mail_def conn_mail_def)
  ultimately show ?thesis
    using mail_deliver [OF d] by (auto simp: s')
qed

lemma plain_sends:
  "set (connect_sends peer c r) \<subseteq> plain_mail" "set (disconnect_sends i txs) \<subseteq> plain_mail"
  by (cases r; auto) (auto simp: disconnect_sends_def)

lemma mail_connect:
  assumes "ws_act X L (AConnect c g peer) s = Some s'"
  shows "mail (sy_conns s') \<subseteq> mail (sy_conns s) \<union> plain_mail"
proof -
  obtain r st where r: "connect_locked L g peer c (sy_state s) = (r, st)" by force
  show ?thesis
  proof (cases r)
    case (Joined txs ps)
    let ?cn = "conn_new g peer (connect_sends peer c (Joined txs ps))"
    have s': "sy_conns s' = (sy_conns s)(c \<mapsto> ?cn)"
      using assms r Joined by (auto split: if_splits simp del: connect_sends.simps)
    have "conn_mail c ?cn \<subseteq> plain_mail"
      using plain_sends(1) [of peer c "Joined txs ps"] by (simp add: conn_mail_def conn_new_def del: connect_sends.simps)
    then show ?thesis
      unfolding s' by (force simp: mail_def split: if_splits)
  qed (use assms r in \<open>auto split: if_splits\<close>)
qed

lemma mail_act:
  assumes "ws_act X L a s = Some s'"
  shows "mail (sy_conns s') \<subseteq> mail (sy_conns s) \<union> plain_mail \<union> posted X L a s"
proof (cases a)
  case (AConnect c g peer)
  then show ?thesis using mail_connect assms by (metis Un_upper1 subset_trans)
next
  case (ASend c)
  then show ?thesis using mail_send [of X L c s s'] assms by blast
next
  case (ASpawn c)
  then obtain cn where c: "sy_conns s c = Some cn" "cn_phase cn = Setup []"
    and s': "sy_conns s' = (sy_conns s)(c \<mapsto> cn\<lparr>cn_phase := Running []\<rparr>)"
    using assms by (auto split: option.splits if_splits)
  show ?thesis
    unfolding s' Un_assoc using c by (intro mail_upd [where cs = "sy_conns s", OF c(1)]) (auto simp: conn_mail_def)
next
  case (ADrain c)
  then obtain cn m q where c: "sy_conns s c = Some cn" "cn_queue cn = m # q"
    and s': "sy_conns s' = (sy_conns s)(c \<mapsto> cn\<lparr>cn_queue := q, cn_out := cn_out cn @ [m]\<rparr>)"
    using assms by (auto split: option.splits phase.splits list.splits)
  show ?thesis
    unfolding s' Un_assoc using c by (intro mail_upd [where cs = "sy_conns s", OF c(1)]) (auto simp: conn_mail_def)
next
  case (AFrame c f)
  obtain cn nxt todo st where c: "sy_conns s c = Some cn" "cn_phase cn = Running []"
    and r: "recv_frame X L (cn_group cn) (cn_peer cn) c f (sy_state s) = (nxt, todo, st)"
    and s': "sy_conns s' = (sy_conns s)(c \<mapsto>
      cn\<lparr>cn_phase := (case nxt of Continue \<Rightarrow> Running todo | Return \<Rightarrow> Stopping todo)\<rparr>)"
    using assms unfolding AFrame by (auto split: option.splits if_splits prod.splits)
  have "posted X L a s = set todo"
    using c r AFrame by simp
  then show ?thesis
    unfolding s' Un_assoc using c by (intro mail_upd [where cs = "sy_conns s", OF c(1)]) (auto simp: conn_mail_def split: recv_next.splits)
next
  case (AExit c)
  then obtain cn where c: "sy_conns s c = Some cn"
    and s': "sy_conns s' = (sy_conns s)(c \<mapsto> cn\<lparr>cn_phase := Exiting, cn_queue := [], cn_open := False\<rparr>)"
    using assms by (auto split: option.splits phase.splits)
  show ?thesis
    unfolding s' Un_assoc using c by (intro mail_upd [where cs = "sy_conns s", OF c(1)]) (auto simp: conn_mail_def)
next
  case (ADeregister c)
  then obtain cn txs where c: "sy_conns s c = Some cn"
    and s': "sy_conns s' = (sy_conns s)(c \<mapsto>
      cn\<lparr>cn_phase := Leaving (disconnect_sends (ci_id (cn_peer cn)) txs)\<rparr>)"
    using assms by (auto split: option.splits if_splits prod.splits)
  show ?thesis
    unfolding s' Un_assoc using plain_sends(2) [of "ci_id (cn_peer cn)" txs]
    by (intro mail_upd [where cs = "sy_conns s", OF c(1)]) (auto simp: conn_mail_def)
next
  case (AFinish c)
  then obtain cn where c: "sy_conns s c = Some cn"
    and s': "sy_conns s' = (sy_conns s)(c \<mapsto> cn\<lparr>cn_phase := Gone\<rparr>)"
    using assms by (auto split: option.splits if_splits)
  show ?thesis
    unfolding s' Un_assoc using c by (intro mail_upd [where cs = "sy_conns s", OF c(1)]) (auto simp: conn_mail_def)
qed (use assms in auto)

section \<open>Where session descriptions come from\<close>

definition asked_for :: "('z) crates_scheme \<Rightarrow> action list \<Rightarrow> chan \<Rightarrow> ws_client_message \<Rightarrow> bool" where
  "asked_for X as d m \<longleftrightarrow>
     (\<exists>str. AFrame d (Text str) \<in> set as \<and> from_text X (dec_ws_client_message X) str = Some m)"

text \<open>
  \<open>kind\<close> is \<open>COffer\<close> or \<open>CAnswer\<close>; the description \<open>sdp\<close> for channel \<open>c\<close> was asked for on channel \<open>d\<close>
  of the same group, by the client it names, with \<open>c\<close>'s client as the target.
\<close>

definition origin :: "('z) crates_scheme \<Rightarrow> action list \<Rightarrow> (chan \<Rightarrow> conn option) \<Rightarrow> chan
    \<Rightarrow> (ws_client_sdp_message \<Rightarrow> ws_client_message) \<Rightarrow> ws_server_sdp_message \<Rightarrow> chan \<Rightarrow> bool" where
  "origin X as cs c kind sdp d \<longleftrightarrow> (\<exists>g peer.
     ident cs d = Some (g, ss_peer sdp) \<and> ident cs c = Some (g, peer)
     \<and> asked_for X as d (kind \<lparr>cs_session_id = ss_session_id sdp, cs_target = ci_id peer, cs_sdp = ss_sdp sdp\<rparr>))"

fun genuine :: "('z) crates_scheme \<Rightarrow> action list \<Rightarrow> (chan \<Rightarrow> conn option) \<Rightarrow> chan \<times> ws_server_message \<Rightarrow> bool" where
  "genuine X as cs (c, Offer sdp) \<longleftrightarrow> (\<exists>d. origin X as cs c COffer sdp d)"
| "genuine X as cs (c, Answer sdp) \<longleftrightarrow> (\<exists>d. origin X as cs c CAnswer sdp d)"
| "genuine X as cs (c, _) \<longleftrightarrow> True"

lemma genuine_plain: "e \<in> plain_mail \<Longrightarrow> genuine X as cs e"
  by (cases e; cases "snd e") auto

lemma genuine_mono:
  assumes "genuine X as cs e" and "set as \<subseteq> set bs" and "\<And>c x. ident cs c = Some x \<Longrightarrow> ident ds c = Some x"
  shows "genuine X bs ds e"
proof -
  have "origin X bs ds c kind sdp d" if "origin X as cs c kind sdp d" for c kind sdp d
    using that assms(2,3) unfolding origin_def asked_for_def by blast
  with assms(1) show ?thesis by (cases e; cases "snd e") (auto, blast+)
qed

lemma ident_act:
  assumes "ws_act X L a s = Some s'" and "ident (sy_conns s) c = Some x"
  shows "ident (sy_conns s') c = Some x"
proof -
  have deliver: "ident cs' = ident cs" if "deliver t m cs = Some cs'" for t m cs cs'
    using that by (auto simp: deliver_def intro!: ident_upd split: option.splits if_splits)
  show ?thesis
  proof (cases a)
    case (ASend d)
    obtain dn t m todo cs where d: "sy_conns s d = Some dn"
      and sent: "deliver t m ((sy_conns s)(d \<mapsto> dn\<lparr>cn_phase := phase_with (cn_phase dn) todo\<rparr>)) = Some cs"
      and s': "s' = s\<lparr>sy_conns := cs\<rparr>"
      using assms(1) unfolding ASend by (auto split: option.splits list.splits)
    show ?thesis
      using assms(2) by (simp add: s' deliver [OF sent] ident_upd [where cs = "sy_conns s", OF d])
  qed (use assms in \<open>auto simp: ident_def conn_new_def split: option.splits if_splits prod.splits
        lock_result.splits phase.splits list.splits\<close>)
qed

text \<open>What the handler of a frame sends on.\<close>

fun request :: "sdp_wrapper \<Rightarrow> ws_client_message" where
  "request (WOffer m) = COffer m"
| "request (WAnswer m) = CAnswer m"

lemma send_to_peer_mail:
  "(t, m) \<in> set (send_to_peer g p w st) \<Longrightarrow>
   \<exists>v. members st g (cs_target (sdp_inner w)) = Some v \<and> t = st_tx v \<and> m = wrapper_message p w"
  by (cases "hm_get (tx_map st) g"; cases "hm_get (the (hm_get (tx_map st) g)) (cs_target (sdp_inner w))")
    (simp_all add: send_to_peer_def members_def)

lemma members_counted: "members (st\<lparr>request_count_map := rc\<rparr>) = members st"
  by (simp add: members_def fun_eq_iff)

lemma update_plain: "set (fst (send_update_to_other_peers g i info st)) \<subseteq> plain_mail"
  by (auto simp: send_update_to_other_peers_def Let_def split: option.splits)

lemma recv_sdp:
  assumes r: "recv_frame X L g p d f st = (nxt, todo, st')" and e: "(t, m) \<in> set todo" "carries_sdp m"
  shows "\<exists>str w v. f = Text str \<and> from_text X (dec_ws_client_message X) str = Some (request w)
    \<and> members st g (cs_target (sdp_inner w)) = Some v \<and> t = st_tx v \<and> m = wrapper_message p w"
proof -
  obtain q rc where c: "protect_ddos_request_count L g (request_count_map st) = (q, rc)" by force
  have "\<exists>str msg. f = Text str \<and> from_text X (dec_ws_client_message X) str = Some msg
      \<and> (t, m) \<in> set (fst (dispatch_message g p msg (st\<lparr>request_count_map := rc\<rparr>)))"
    using r e c
    by (auto simp: recv_frame_def split: ws_frame.splits option.splits sum.splits prod.splits)
  then obtain str msg where f: "f = Text str" "from_text X (dec_ws_client_message X) str = Some msg"
    and sent: "(t, m) \<in> set (fst (dispatch_message g p msg (st\<lparr>request_count_map := rc\<rparr>)))"
    by blast
  obtain w where w: "msg = request w" "(t, m) \<in> set (send_to_peer g p w (st\<lparr>request_count_map := rc\<rparr>))"
  proof (cases msg)
    case (CUpdate info)
    then show ?thesis
      using sent e(2) update_plain [of g "ci_id p" info "st\<lparr>request_count_map := rc\<rparr>"]
      by (auto simp: dispatch_message_def)
  next
    case (COffer m)
    then show ?thesis
      using sent by (intro that [of "WOffer m"]) (simp_all add: dispatch_message_def)
  next
    case (CAnswer m)
    then show ?thesis
      using sent by (intro that [of "WAnswer m"]) (simp_all add: dispatch_message_def)
  qed
  then show ?thesis
    using f send_to_peer_mail [OF w(2)] by (auto simp: members_counted)
qed

lemma posted_genuine:
  assumes inv: "sys_inv L s" and act: "ws_act X L (AFrame d f) s = Some s'"
    and e: "(t, m) \<in> posted X L (AFrame d f) s"
  shows "genuine X (as @ [AFrame d f]) (sy_conns s) (t, m)"
proof (cases "carries_sdp m")
  case True
  obtain dn where d: "sy_conns s d = Some dn"
    using act by (auto split: option.splits)
  obtain nxt todo st where r: "recv_frame X L (cn_group dn) (cn_peer dn) d f (sy_state s) = (nxt, todo, st)"
    by (metis prod_cases3)
  with e d have "(t, m) \<in> set todo" by simp
  from recv_sdp [OF r this True] obtain str w v where f: "f = Text str"
    "from_text X (dec_ws_client_message X) str = Some (request w)"
    and v: "members (sy_state s) (cn_group dn) (cs_target (sdp_inner w)) = Some v" "t = st_tx v"
    and m: "m = wrapper_message (cn_peer dn) w"
    by blast
  from v have "(cn_group dn, cs_target (sdp_inner w), t) \<in> registered (sy_conns s)"
    unfolding sys_invD(2) [OF inv, symmetric] by (auto simp: regs_def)
  then obtain tn where t: "sy_conns s t = Some tn" "cn_group tn = cn_group dn"
    "ci_id (cn_peer tn) = cs_target (sdp_inner w)"
    by (auto simp: registered_iff)
  have asked: "asked_for X (as @ [AFrame d f]) d (request w)"
    using f by (auto simp: asked_for_def)
  have "origin X (as @ [AFrame d f]) (sy_conns s) t kind (to_server_sdp (cn_peer dn) (sdp_inner w)) d"
    if "kind (sdp_inner w) = request w" for kind
    using that asked d t by (cases "sdp_inner w") (auto simp: origin_def ident_def to_server_sdp_def)
  then show ?thesis
    by (cases w) (auto simp: m)
qed (auto intro: genuine_plain)

section \<open>In every run\<close>

lemma genuine_act:
  assumes "sys_inv L s" and "ws_act X L a s = Some s'"
    and "\<forall>e \<in> mail (sy_conns s). genuine X as (sy_conns s) e"
  shows "\<forall>e \<in> mail (sy_conns s'). genuine X (as @ [a]) (sy_conns s') e"
proof
  fix e
  assume "e \<in> mail (sy_conns s')"
  then consider "e \<in> mail (sy_conns s)" | "e \<in> plain_mail" | "e \<in> posted X L a s"
    using mail_act [OF assms(2)] by blast
  then show "genuine X (as @ [a]) (sy_conns s') e"
  proof cases
    case 1
    then show ?thesis
      using assms(3) by (auto intro: genuine_mono [OF _ _ ident_act [OF assms(2)]])
  next
    case 2
    then show ?thesis by (rule genuine_plain)
  next
    case 3
    then obtain d f where a: "a = AFrame d f" by (cases a) auto
    with 3 assms(1,2) have "genuine X (as @ [a]) (sy_conns s) e"
      by (cases e) (auto intro!: posted_genuine)
    then show ?thesis by (rule genuine_mono [OF _ _ ident_act [OF assms(2)]]) simp
  qed
qed

lemma genuine_run:
  "ws_run X L bs s = Some t \<Longrightarrow> sys_inv L s \<Longrightarrow> \<forall>e \<in> mail (sy_conns s). genuine X as (sy_conns s) e \<Longrightarrow>
   \<forall>e \<in> mail (sy_conns t). genuine X (as @ bs) (sy_conns t) e"
proof (induction bs arbitrary: s as)
  case (Cons b bs)
  obtain u where u: "ws_act X L b s = Some u" "ws_run X L bs u = Some t"
    using Cons.prems(1) by (auto split: bind_splits)
  have "sys_inv L u"
    using sys_inv_step [OF Cons.prems(2) ws_step.act [OF u(1)]] .
  from Cons.IH [OF u(2) this genuine_act [OF Cons.prems(2) u(1) Cons.prems(3)]] show ?case
    by simp
qed simp

section \<open>From client to client\<close>

lemma asked_is_taken:
  assumes laws: "json_law X" "uuid_law X" and m: "asked_for X as d m"
    and written: "{f. AFrame d f \<in> set as} \<subseteq> set (writing X alive [] es)"
  shows "m \<in> set (taken es)"
proof -
  obtain str where "AFrame d (Text str) \<in> set as" "from_text X (dec_ws_client_message X) str = Some m"
    using m by (auto simp: asked_for_def)
  with written have "m \<in> set (frame_messages X (writing X alive [] es))"
    by (force simp: frame_messages_def List.map_filter_def)
  then have "m \<in> set (delivered X alive [] es)"
    by (simp add: writing_delivers [OF laws] frame_messages_simps [OF laws])
  then show ?thesis
    using delivered_subseq [of X alive "[]" es] unfolding subseq_singleton_left [symmetric]
    by (rule subseq_order.order_trans)
qed

text \<open>
  C5. From client to client. Take any run of the signaling server, a connection \<open>c\<close> of it, and the
  client behind \<open>c\<close>, whose tasks hear nothing but what the server wrote to that connection. Every
  offer this client forwards to its app, and every answer that makes one of its callbacks run,
  was asked for by a client connected from the same IP group, in a frame addressed to this client,
  with that session id and session description, and it names that very client as its origin; the
  callback was registered for the session. When the other client's frames are the ones its writing
  task made, then its app has handed over that message.
\<close>

theorem sdp_messages_are_genuine:
  assumes laws: "json_law X" "uuid_law X"
    and run: "ws_run X L as system_new = Some s" and c: "sy_conns s c = Some cn"
    and heard: "\<forall>m. Incoming m \<in> set es \<longrightarrow> m \<in> set (reader X False (map (server_frame X) (cn_out cn)))"
  shows "(\<forall>sdp. Incoming (Offer sdp) \<in> set es \<longrightarrow> (\<exists>d. origin X as (sy_conns s) c COffer sdp d))
    \<and> (\<forall>(cb, sdp) \<in> set (listen_all es (start_listener con)). Register (ss_session_id sdp) cb \<in> set es
        \<and> (\<exists>d. origin X as (sy_conns s) c CAnswer sdp d))
    \<and> (\<forall>d m alive evs. asked_for X as d m \<and> {f. AFrame d f \<in> set as} \<subseteq> set (writing X alive [] evs)
        \<longrightarrow> m \<in> set (taken evs))"
proof -
  have "\<forall>e \<in> mail (sy_conns s). genuine X ([] @ as) (sy_conns s) e"
    by (rule genuine_run [OF run sys_inv_new]) (simp add: mail_def system_new_def)
  then have out: "genuine X as (sy_conns s) (c, m)" if "m \<in> set (cn_out cn)" for m
    using that c by (force simp: mail_def conn_mail_def)
  have heard': "genuine X as (sy_conns s) (c, m)" if "Incoming m \<in> set es" for m
    using that heard reader_forwards [OF laws, of False "cn_out cn"] by (blast intro: out)
  have calls: "Incoming (Answer sdp) \<in> set es \<and> Register (ss_session_id sdp) cb \<in> set es"
    if "(cb, sdp) \<in> set (listen_all es (start_listener con))" for cb sdp
    using that listen_all_right [of es "start_listener con"]
    by (auto simp: calls_right_def start_listener_def hm_new_def)
  show ?thesis
    using heard' calls asked_is_taken [OF laws] by fastforce
qed

text \<open>Two clients, an offer of the first and the answer of the second.\<close>

definition offered :: ws_client_sdp_message where
  "offered = \<lparr>cs_session_id = ''s'', cs_target = 8, cs_sdp = ''o''\<rparr>"

definition answered :: ws_client_sdp_message where
  "answered = \<lparr>cs_session_id = ''s'', cs_target = 7, cs_sdp = ''a''\<rparr>"

definition calling_schedule :: "action list" where
  "calling_schedule =
     [AConnect 0 ''10.0.0.1'' (sample_peer 7), ASend 0, ASpawn 0, ADrain 0,
      AConnect 1 ''10.0.0.1'' (sample_peer 8), ASend 1, ASend 1, ASpawn 1, ADrain 0, ADrain 1,
      AFrame 0 (message_frame sample_crates (COffer offered)), ASend 0, ADrain 1,
      AFrame 1 (message_frame sample_crates (CAnswer answered)), ASend 1, ADrain 0]"

lemma calling_schedule_runs:
  "case ws_run sample_crates default_limits calling_schedule system_new of
     None \<Rightarrow> False
   | Some s \<Rightarrow> map_option cn_out (sy_conns s 0) =
       Some [Hello (sample_peer 7) [], Join (sample_peer 8), Answer (to_server_sdp (sample_peer 8) answered)]"
  by code_simp

lemma sdp_messages_are_genuine_witness:
  "\<exists>s d. ws_run sample_crates default_limits calling_schedule system_new = Some s
    \<and> listen_all [Register ''s'' (0 :: nat), Incoming (Answer (to_server_sdp (sample_peer 8) answered))]
        (start_listener sample_connection) = [(0, to_server_sdp (sample_peer 8) answered)]
    \<and> origin sample_crates calling_schedule (sy_conns s) 0 CAnswer (to_server_sdp (sample_peer 8) answered) d"
proof -
  let ?X = sample_crates and ?sdp = "to_server_sdp (sample_peer 8) answered"
  let ?es = "[Register ''s'' (0 :: nat), Incoming (Answer ?sdp)]"
  obtain s cn where run: "ws_run ?X default_limits calling_schedule system_new = Some s"
    and cn: "sy_conns s 0 = Some cn" "cn_out cn = [Hello (sample_peer 7) [], Join (sample_peer 8), Answer ?sdp]"
    using calling_schedule_runs by (auto split: option.splits)
  have calls: "listen_all ?es (start_listener sample_connection) = [(0, ?sdp)]"
    by (simp add: listen_True start_listener_def on_answer_def hm_new_def hm_get_Cons to_server_sdp_def
        answered_def)
  have "\<forall>m. Incoming m \<in> set ?es \<longrightarrow> m \<in> set (reader ?X False (map (server_frame ?X) (cn_out cn)))"
    by (simp add: cn(2) read_server_frame [OF sample_laws(2,1)])
  note main = sdp_messages_are_genuine [OF sample_laws(2,1) run cn(1) this, of sample_connection]
  obtain d where "origin ?X calling_schedule (sy_conns s) 0 CAnswer ?sdp d"
    using conjunct1 [OF conjunct2 [OF main]] unfolding calls by auto
  with run calls show ?thesis by blast
qed

end
