(* ===== verification/Crypto.thy ===== *)
theory Crypto
  imports Sample_Crates
begin

text \<open>
  Tokens, nonces and certificates, \<open>core/src/crypto\<close>. A token is five parts joined by dots:
  hash method, hash of public key and salt, salt, signature method, signature of the hash. The
  signature schemes (\<open>ed25519_dalek\<close>, \<open>rsa\<close>), the X.509 and PEM parsers and the clock are
  parameters; the trait object \<open>dyn VerifyingTokenKey\<close> is the record of its three methods.
\<close>

section \<open>Nonces (nonce.rs)\<close>

text \<open>\<open>fill_bytes\<close> of the random generator is the parameter \<open>fill\<close>.\<close>

definition generate_nonce :: "(nat \<Rightarrow> bytes) \<Rightarrow> bytes" where
  "generate_nonce fill = fill 32"

definition validate_nonce :: "bytes \<Rightarrow> bool" where
  "validate_nonce nonce \<longleftrightarrow> 16 \<le> length nonce \<and> length nonce \<le> 128"

section \<open>Keys (token.rs)\<close>

type_synonym anyhow = string

record verifying_token_key =
  vk_verify :: "bytes \<Rightarrow> bytes \<Rightarrow> anyhow + unit"
  vk_to_der :: "anyhow + bytes"
  vk_signature_method :: string

record ed25519_verifying_key =
  ed_signature_from_slice :: "bytes \<Rightarrow> anyhow + bytes"
  ed_verify :: "bytes \<Rightarrow> bytes \<Rightarrow> anyhow + unit"
  ed_to_public_key_der :: "anyhow + bytes"
  ed_to_public_key_pem :: "anyhow + string"

record rsa_pss_verifying_key =
  rp_signature_try_from :: "bytes \<Rightarrow> anyhow + bytes"
  rp_verify :: "bytes \<Rightarrow> bytes \<Rightarrow> anyhow + unit"
  rp_to_public_key_der :: "anyhow + bytes"

record signing_token_key =
  sk_verifying_key :: ed25519_verifying_key
  sk_sign :: "bytes \<Rightarrow> bytes"
  sk_to_pkcs8_pem :: "anyhow + string"

definition ed25519_as_token_key :: "ed25519_verifying_key \<Rightarrow> verifying_token_key" where
  "ed25519_as_token_key k = \<lparr>
     vk_verify = (\<lambda>msg signature. bind_ok (ed_signature_from_slice k signature) (ed_verify k msg)),
     vk_to_der = ed_to_public_key_der k,
     vk_signature_method = ''ed25519''\<rparr>"

definition rsa_pss_as_token_key :: "rsa_pss_verifying_key \<Rightarrow> verifying_token_key" where
  "rsa_pss_as_token_key k = \<lparr>
     vk_verify = (\<lambda>msg signature. bind_ok (rp_signature_try_from k signature) (rp_verify k msg)),
     vk_to_der = rp_to_public_key_der k,
     vk_signature_method = ''rsa-pss''\<rparr>"

definition to_verifying_key :: "signing_token_key \<Rightarrow> verifying_token_key" where
  "to_verifying_key key = ed25519_as_token_key (sk_verifying_key key)"

text \<open>What the documentation of the signature scheme promises: a signature verifies.\<close>

definition sign_law :: "signing_token_key \<Rightarrow> bool" where
  "sign_law key \<longleftrightarrow> (\<forall>d. bind_ok (ed_signature_from_slice (sk_verifying_key key) (sk_sign key d))
     (ed_verify (sk_verifying_key key) d) = Inr ())"

definition export_private_key :: "signing_token_key \<Rightarrow> anyhow + string" where
  "export_private_key key = sk_to_pkcs8_pem key"

definition export_public_key :: "signing_token_key \<Rightarrow> anyhow + string" where
  "export_public_key key = ed_to_public_key_pem (sk_verifying_key key)"

text \<open>The parsers of keys in PEM form.\<close>

record key_parsers =
  kp_signing_from_pem :: "string \<Rightarrow> anyhow + signing_token_key"
  kp_ed25519_from_pem :: "string \<Rightarrow> anyhow + ed25519_verifying_key"
  kp_rsa_from_pem :: "string \<Rightarrow> anyhow + rsa_pss_verifying_key"

definition parse_private_key :: "key_parsers \<Rightarrow> string \<Rightarrow> anyhow + signing_token_key" where
  "parse_private_key P private_key = kp_signing_from_pem P private_key"

definition parse_public_key :: "key_parsers \<Rightarrow> string \<Rightarrow> string \<Rightarrow> anyhow + verifying_token_key" where
  "parse_public_key P public_key identifier =
     (if identifier = ''ed25519''
      then bind_ok (kp_ed25519_from_pem P public_key) (\<lambda>k. Inr (ed25519_as_token_key k))
      else if identifier = ''rsa-pss''
      then bind_ok (kp_rsa_from_pem P public_key) (\<lambda>k. Inr (rsa_pss_as_token_key k))
      else Inl ''Unsupported key type'')"

section \<open>Generating tokens\<close>

definition generate_token_nonce ::
    "('z) crates_scheme \<Rightarrow> signing_token_key \<Rightarrow> bytes \<Rightarrow> anyhow + string" where
  "generate_token_nonce X key salt =
     bind_ok (ed_to_public_key_der (sk_verifying_key key)) (\<lambda>public_key.
       (let digest = x_sha256 X (public_key @ salt);
            signature = sk_sign key digest
        in Inr (join_with ''.'' [''sha256'', x_b64_encode X digest, x_b64_encode X salt,
             ''ed25519'', x_b64_encode X signature])))"

text \<open>\<open>now\<close> is the result of \<open>unix_timestamp_u64\<close> (an error when the clock is before 1970).\<close>

definition generate_token_timestamp ::
    "('z) crates_scheme \<Rightarrow> anyhow + u64 \<Rightarrow> signing_token_key \<Rightarrow> anyhow + string" where
  "generate_token_timestamp X now key =
     bind_ok now (\<lambda>t. generate_token_nonce X key (to_le 8 (unat t)))"

definition extract_signature_identifier :: "string \<Rightarrow> string option" where
  "extract_signature_identifier token =
     (let parts = split_on CHR ''.'' token in if 3 < length parts then Some (parts ! 3) else None)"

section \<open>Verifying tokens\<close>

text \<open>
  \<open>None\<close> is a panic: \<open>parts[0..5]\<close> panics on a token with fewer than five parts (and when it
  does not, the pattern always matches, so the error branch of the \<open>let else\<close> is unreachable).
  The check of the salt is a closure and may panic as well.
\<close>

definition check_digest ::
    "('z) crates_scheme \<Rightarrow> verifying_token_key \<Rightarrow> bytes \<Rightarrow> string \<Rightarrow> string \<Rightarrow> anyhow + unit" where
  "check_digest X key salt hash_base64 signature_base64 =
     bind_ok (vk_to_der key) (\<lambda>der.
       (let digest = x_sha256 X (der @ salt) in
        if x_b64_encode X digest \<noteq> hash_base64 then Inl ''Hash mismatch''
        else (case x_b64_decode X signature_base64 of
            None \<Rightarrow> Inl ''Invalid signature base64 encoding''
          | Some signature \<Rightarrow> map_err (\<lambda>_. ''Invalid signature'') (vk_verify key digest signature))))"

definition verify_token_with_result ::
    "('z) crates_scheme \<Rightarrow> verifying_token_key \<Rightarrow> string \<Rightarrow> (bytes \<Rightarrow> (anyhow + unit) option)
      \<Rightarrow> (anyhow + unit) option" where
  "verify_token_with_result X key token verify_salt =
     (case split_on CHR ''.'' token of
        hash_method # hash_base64 # salt_base64 # sign_method # signature_base64 # _ \<Rightarrow>
          if hash_method \<noteq> ''sha256'' then Some (Inl ''Invalid hash method'')
          else if sign_method \<noteq> vk_signature_method key then Some (Inl ''Invalid sign method'')
          else (case x_b64_decode X salt_base64 of
              None \<Rightarrow> Some (Inl ''Invalid base64'')
            | Some salt \<Rightarrow>
               (case verify_salt salt of
                  None \<Rightarrow> None
                | Some (Inl e) \<Rightarrow> Some (Inl e)
                | Some (Inr _) \<Rightarrow> Some (check_digest X key salt hash_base64 signature_base64)))
      | _ \<Rightarrow> None)"

definition is_ok :: "('e + 'a) option \<Rightarrow> bool option" where
  "is_ok r = map_option (\<lambda>v. case v of Inl _ \<Rightarrow> False | Inr _ \<Rightarrow> True) r"

definition verify_token_nonce ::
    "('z) crates_scheme \<Rightarrow> verifying_token_key \<Rightarrow> string \<Rightarrow> bytes \<Rightarrow> bool option" where
  "verify_token_nonce X key token nonce =
     is_ok (verify_token_with_result X key token (\<lambda>salt.
       if salt \<noteq> nonce then Some (Inl ''Invalid nonce'') else Some (Inr ())))"

text \<open>
  \<open>now_seconds - salt\<close> on \<open>u64\<close>: with overflow checks (debug builds) a salt in the future
  panics, without them the difference wraps.
\<close>

definition timestamp_check :: "bool \<Rightarrow> anyhow + u64 \<Rightarrow> bytes \<Rightarrow> (anyhow + unit) option" where
  "timestamp_check overflow_checks now salt =
     (if length salt \<noteq> 8 then Some (Inl ''Invalid salt length'')
      else (case now of
          Inl e \<Rightarrow> Some (Inl e)
        | Inr now_seconds \<Rightarrow>
           (let t = word_of_nat (from_le salt) :: u64 in
            if overflow_checks \<and> now_seconds < t then None
            else if 60 * 60 < now_seconds - t then Some (Inl ''Fingerprint timestamp expired'')
            else Some (Inr ()))))"

definition verify_token_timestamp ::
    "bool \<Rightarrow> ('z) crates_scheme \<Rightarrow> anyhow + u64 \<Rightarrow> verifying_token_key \<Rightarrow> string \<Rightarrow> bool option" where
  "verify_token_timestamp overflow_checks X now key token =
     is_ok (verify_token_with_result X key token (timestamp_check overflow_checks now))"

section \<open>Certificates (cert.rs)\<close>

text \<open>The functions of \<open>x509_parser\<close> and \<open>pem\<close>; \<open>xc_is_valid\<close> is asked at the current time.\<close>

record ('cert, 'key) x509 =
  xc_pem_read :: "bytes \<Rightarrow> anyhow + bytes"  \<comment> \<open>\<open>Pem::read\<close>: the contents of the first block\<close>
  xc_parse_x509 :: "bytes \<Rightarrow> anyhow + 'cert"
  xc_from_der :: "bytes \<Rightarrow> anyhow + 'cert"
  xc_is_valid :: "'cert \<Rightarrow> bool"
  xc_subject_key :: "'cert \<Rightarrow> anyhow + 'key"
  xc_spki_from_der :: "bytes \<Rightarrow> anyhow + 'key"
  xc_verify_signature :: "'cert \<Rightarrow> anyhow + unit"
  xc_spki_raw :: "'cert \<Rightarrow> bytes"
  xc_pem_encode :: "string \<Rightarrow> bytes \<Rightarrow> string"

definition verify_cert_from_cert ::
    "('cert, 'key) x509 \<Rightarrow> 'cert \<Rightarrow> string option \<Rightarrow> anyhow + unit" where
  "verify_cert_from_cert V cert public_key =
     (if \<not> xc_is_valid V cert then Inl ''Time validity error''
      else bind_ok
        (case public_key of
           None \<Rightarrow> Inr ()
         | Some pk \<Rightarrow>
             bind_ok (xc_subject_key V cert) (\<lambda>cert_public_key.
             bind_ok (xc_pem_read V (as_bytes pk)) (\<lambda>public_key_pem.
             bind_ok (xc_spki_from_der V public_key_pem) (\<lambda>expected_public_key.
               if cert_public_key \<noteq> expected_public_key then Inl ''Public key mismatch''
               else Inr ()))))
        (\<lambda>_. xc_verify_signature V cert))"

definition verify_cert_from_pem ::
    "('cert, 'key) x509 \<Rightarrow> string \<Rightarrow> string option \<Rightarrow> anyhow + unit" where
  "verify_cert_from_pem V cert public_key =
     bind_ok (xc_pem_read V (as_bytes cert)) (\<lambda>cert_pem.
     bind_ok (xc_parse_x509 V cert_pem) (\<lambda>parsed_cert.
       verify_cert_from_cert V parsed_cert public_key))"

definition verify_cert_from_der ::
    "('cert, 'key) x509 \<Rightarrow> bytes \<Rightarrow> string option \<Rightarrow> anyhow + unit" where
  "verify_cert_from_der V cert public_key =
     bind_ok (xc_from_der V cert) (\<lambda>parsed_cert. verify_cert_from_cert V parsed_cert public_key)"

definition public_key_from_cert :: "('cert, 'key) x509 \<Rightarrow> 'cert \<Rightarrow> anyhow + string" where
  "public_key_from_cert V cert =
     (let cert_public_key = xc_spki_raw V cert
      in Inr (xc_pem_encode V ''PUBLIC KEY'' cert_public_key))"

definition public_key_from_cert_pem :: "('cert, 'key) x509 \<Rightarrow> string \<Rightarrow> anyhow + string" where
  "public_key_from_cert_pem V cert =
     bind_ok (xc_pem_read V (as_bytes cert)) (\<lambda>cert_pem.
     bind_ok (xc_parse_x509 V cert_pem) (public_key_from_cert V))"

definition public_key_from_cert_der :: "('cert, 'key) x509 \<Rightarrow> bytes \<Rightarrow> anyhow + string" where
  "public_key_from_cert_der V cert = bind_ok (xc_from_der V cert) (public_key_from_cert V)"

text \<open>
  The documented behaviour of the two crates that pinning relies on: reading back an encoded key
  gives its bytes, and the raw key of a certificate parses to the certificate's key.
\<close>

definition pinning_law :: "('cert, 'key) x509 \<Rightarrow> 'cert \<Rightarrow> bool" where
  "pinning_law V cert \<longleftrightarrow>
     xc_pem_read V (as_bytes (xc_pem_encode V ''PUBLIC KEY'' (xc_spki_raw V cert)))
       = Inr (xc_spki_raw V cert)
     \<and> xc_spki_from_der V (xc_spki_raw V cert) = xc_subject_key V cert"

section \<open>Key pairs for the app (app/rust/src/api/crypto.rs)\<close>

record key_pair =
  kpr_private_key :: string
  kpr_public_key :: string

definition verify_cert :: "('cert, 'key) x509 \<Rightarrow> string \<Rightarrow> string \<Rightarrow> anyhow + unit" where
  "verify_cert V cert public_key = verify_cert_from_pem V cert (Some public_key)"

definition generate_key_pair :: "signing_token_key \<Rightarrow> anyhow + key_pair" where
  "generate_key_pair signing_key =
     bind_ok (export_private_key signing_key) (\<lambda>private_key.
     bind_ok (export_public_key signing_key) (\<lambda>public_key.
       Inr \<lparr>kpr_private_key = private_key, kpr_public_key = public_key\<rparr>))"

section \<open>What the token functions do\<close>

text \<open>
  The contract of a token check: it accepts exactly the tokens that are \<open>valid\<close> for the expected
  salt, and a token is valid for one salt at most. So a token made for one nonce is of no use
  for another.
\<close>

locale token_check =
  fixes chk :: "string \<Rightarrow> bytes \<Rightarrow> bool option" and valid :: "string \<Rightarrow> bytes \<Rightarrow> bool"
  assumes chk_iff: "chk token salt = Some True \<longleftrightarrow> valid token salt"
    and valid_unique: "valid token salt \<Longrightarrow> valid token salt' \<Longrightarrow> salt = salt'"
begin

lemma no_replay: "chk token salt = Some True \<Longrightarrow> chk token salt' = Some True \<Longrightarrow> salt = salt'"
  using chk_iff valid_unique by blast

lemma valid_only_own_salt: "valid token salt \<Longrightarrow> chk token nonce = Some True \<longleftrightarrow> nonce = salt"
  using chk_iff valid_unique by blast

end

definition token_valid :: "('z) crates_scheme \<Rightarrow> verifying_token_key \<Rightarrow> string \<Rightarrow> bytes \<Rightarrow> bool" where
  "token_valid X key token salt \<longleftrightarrow> (\<exists>hash64 salt64 sig64 rest der sig.
     split_on CHR ''.'' token = ''sha256'' # hash64 # salt64 # vk_signature_method key # sig64 # rest
     \<and> x_b64_decode X salt64 = Some salt \<and> vk_to_der key = Inr der
     \<and> hash64 = x_b64_encode X (x_sha256 X (der @ salt))
     \<and> x_b64_decode X sig64 = Some sig \<and> vk_verify key (x_sha256 X (der @ salt)) sig = Inr ())"

lemma check_digest_Inr:
  "check_digest X key salt h s = Inr () \<longleftrightarrow> (\<exists>der sig. vk_to_der key = Inr der
     \<and> h = x_b64_encode X (x_sha256 X (der @ salt))
     \<and> x_b64_decode X s = Some sig \<and> vk_verify key (x_sha256 X (der @ salt)) sig = Inr ())"
  by (cases "vk_to_der key") (auto simp: check_digest_def Let_def split: option.splits)

lemma verify_token_Ok:
  "verify_token_with_result X key token f = Some (Inr ()) \<longleftrightarrow>
     (\<exists>salt. token_valid X key token salt \<and> f salt = Some (Inr ()))"
proof
  assume v: "verify_token_with_result X key token f = Some (Inr ())"
  then obtain hm h s m g rest where p: "split_on CHR ''.'' token = hm # h # s # m # g # rest"
    by (auto simp: verify_token_with_result_def split: list.splits)
  from v obtain salt where "x_b64_decode X s = Some salt" "f salt = Some (Inr ())"
      "hm = ''sha256''" "m = vk_signature_method key" "check_digest X key salt h g = Inr ()"
    by (auto simp: verify_token_with_result_def p split: if_splits option.splits sum.splits)
  then show "\<exists>salt. token_valid X key token salt \<and> f salt = Some (Inr ())"
    using p by (auto simp: token_valid_def check_digest_Inr)
next
  assume "\<exists>salt. token_valid X key token salt \<and> f salt = Some (Inr ())"
  then show "verify_token_with_result X key token f = Some (Inr ())"
    by (auto simp: token_valid_def verify_token_with_result_def check_digest_Inr)
qed

lemma is_ok_True [simp]: "is_ok r = Some True \<longleftrightarrow> (\<exists>x. r = Some (Inr x))"
  by (cases r) (auto simp: is_ok_def split: sum.splits)

lemma verify_token_nonce_True:
  "verify_token_nonce X key token nonce = Some True \<longleftrightarrow> token_valid X key token nonce"
  by (auto simp: verify_token_nonce_def verify_token_Ok split: if_splits)

lemma token_valid_unique: "token_valid X key token s \<Longrightarrow> token_valid X key token t \<Longrightarrow> s = t"
  by (auto simp: token_valid_def)

interpretation nonce_tokens: token_check "verify_token_nonce X key" "token_valid X key" for X key
  by unfold_locales (auto simp: verify_token_nonce_True intro: token_valid_unique)

lemma generated_parts:
  assumes "b64_law X" and "generate_token_nonce X key salt = Inr token"
  shows "\<exists>der. ed_to_public_key_der (sk_verifying_key key) = Inr der
    \<and> split_on CHR ''.'' token = [''sha256'', x_b64_encode X (x_sha256 X (der @ salt)),
        x_b64_encode X salt, ''ed25519'', x_b64_encode X (sk_sign key (x_sha256 X (der @ salt)))]"
  using assms
  by (auto simp: generate_token_nonce_def b64_law_def Let_def intro!: split_on_join
      simp del: join_with.simps split_on.simps)

lemma generated_valid:
  assumes "b64_law X" and "sign_law key" and "generate_token_nonce X key salt = Inr token"
  shows "token_valid X (to_verifying_key key) token salt"
proof -
  from generated_parts [OF assms(1,3)] obtain der where
      "ed_to_public_key_der (sk_verifying_key key) = Inr der"
    and "split_on CHR ''.'' token = [''sha256'', x_b64_encode X (x_sha256 X (der @ salt)),
        x_b64_encode X salt, ''ed25519'', x_b64_encode X (sk_sign key (x_sha256 X (der @ salt)))]"
    by blast
  then show ?thesis
    using assms(1,2)
    by (auto simp: token_valid_def to_verifying_key_def ed25519_as_token_key_def b64_law_def sign_law_def)
qed

lemma length_split_on: "length (split_on c xs) = Suc (count_list xs c)"
  by (induction xs) (auto split: list.splits)

lemma split_on_sep: "split_on c (xs @ c # ys) = split_on c xs @ split_on c ys"
  by (induction xs) (auto split: list.splits)

lemma verify_token_None:
  assumes "\<And>salt. f salt \<noteq> None"
  shows "verify_token_with_result X key token f = None \<longleftrightarrow> length (split_on CHR ''.'' token) < 5"
proof (cases "length (split_on CHR ''.'' token) < 5")
  case True
  then show ?thesis
    by (auto simp: verify_token_with_result_def split: list.splits)
next
  case False
  then obtain a b c d e r where p: "split_on CHR ''.'' token = a # b # c # d # e # r"
    by (auto simp: not_less numeral_eq_Suc Suc_le_length_iff)
  have some: "\<exists>y. f salt = Some y" for salt
    using assms [of salt] by blast
  have "verify_token_with_result X key token f \<noteq> None"
    using p by (auto simp: verify_token_with_result_def split: option.splits sum.splits)
      (metis some option.distinct(1))
  with False show ?thesis by simp
qed

section \<open>Properties\<close>

text \<open>
  C14. A token made with a key for a nonce is accepted by that key's verifier for this nonce and
  rejected for every other one, and its fourth part names the scheme that can verify it. The
  hypotheses are the documented laws of the base64 engine and of the signature scheme.
\<close>

theorem token_nonce_roundtrip:
  assumes "b64_law X" and "sign_law key" and "generate_token_nonce X key salt = Inr token"
  shows "verify_token_nonce X (to_verifying_key key) token nonce = Some (nonce = salt)
    \<and> extract_signature_identifier token = Some (vk_signature_method (to_verifying_key key))"
proof
  let ?v = "to_verifying_key key"
  obtain a b c d where parts: "split_on CHR ''.'' token = [''sha256'', a, b, ''ed25519'', c]"
    using generated_parts [OF assms(1,3)] by blast
  have "verify_token_nonce X ?v token nonce \<noteq> None"
    using verify_token_None [of "\<lambda>salt. if salt \<noteq> nonce then Some (Inl ''Invalid nonce'') else Some (Inr ())"
        X ?v token] parts
    by (simp add: verify_token_nonce_def is_ok_def)
  moreover have "verify_token_nonce X ?v token nonce = Some True \<longleftrightarrow> nonce = salt"
    using nonce_tokens.valid_only_own_salt [OF generated_valid [OF assms]] .
  ultimately show "verify_token_nonce X ?v token nonce = Some (nonce = salt)"
    by (cases "nonce = salt") auto
  show "extract_signature_identifier token = Some (vk_signature_method ?v)"
    using parts by (simp add: extract_signature_identifier_def to_verifying_key_def ed25519_as_token_key_def)
qed

definition sample_key :: signing_token_key where
  "sample_key = \<lparr>sk_verifying_key = \<lparr>ed_signature_from_slice = Inr,
      ed_verify = (\<lambda>d s. if s = rev d then Inr () else Inl ''bad''),
      ed_to_public_key_der = Inr [1, 2, 3], ed_to_public_key_pem = Inr ''pem''\<rparr>,
    sk_sign = rev, sk_to_pkcs8_pem = Inr ''key''\<rparr>"

lemma sample_sign_law: "sign_law sample_key"
  by (simp add: sign_law_def sample_key_def)

lemma sample_token: "\<exists>token. generate_token_nonce sample_crates sample_key salt = Inr token"
  by (simp add: generate_token_nonce_def sample_key_def Let_def)

lemma token_nonce_roundtrip_witness:
  "\<exists>token. verify_token_nonce sample_crates (to_verifying_key sample_key) token [7, 8] = Some True
     \<and> verify_token_nonce sample_crates (to_verifying_key sample_key) token [7, 9] = Some False"
  using sample_token [of "[7, 8]"]
    token_nonce_roundtrip [OF sample_laws(3) sample_sign_law, of "[7, 8]" _ "[7, 8]"]
    token_nonce_roundtrip [OF sample_laws(3) sample_sign_law, of "[7, 8]" _ "[7, 9]"]
  by auto

text \<open>
  C13. What an accepted token proves: the check never accepts unless the token names SHA-256 and
  the verifier's own scheme, carries the expected nonce, the hash of the verifier's public key
  followed by that nonce, and a signature over this hash that the key accepts; and no token is
  accepted for two different nonces.
\<close>

theorem token_nonce_sound:
  assumes "verify_token_nonce X key token nonce = Some True"
  shows "(\<exists>der sig. vk_to_der key = Inr der \<and> vk_verify key (x_sha256 X (der @ nonce)) sig = Inr ()
      \<and> x_b64_decode X (split_on CHR ''.'' token ! 4) = Some sig
      \<and> split_on CHR ''.'' token ! 1 = x_b64_encode X (x_sha256 X (der @ nonce)))
    \<and> split_on CHR ''.'' token ! 0 = ''sha256''
    \<and> extract_signature_identifier token = Some (vk_signature_method key)
    \<and> (\<forall>nonce'. verify_token_nonce X key token nonce' = Some True \<longrightarrow> nonce' = nonce)"
proof -
  have "token_valid X key token nonce"
    using assms by (simp add: verify_token_nonce_True)
  then show ?thesis
    using nonce_tokens.no_replay [OF assms]
    by (auto simp: token_valid_def extract_signature_identifier_def numeral_eq_Suc)
qed

lemma token_nonce_sound_witness:
  "\<exists>token der sig. verify_token_nonce sample_crates (to_verifying_key sample_key) token [7, 8] = Some True
     \<and> vk_to_der (to_verifying_key sample_key) = Inr der
     \<and> vk_verify (to_verifying_key sample_key) (x_sha256 sample_crates (der @ [7, 8])) sig = Inr ()"
proof -
  obtain token where "generate_token_nonce sample_crates sample_key [7, 8] = Inr token"
    using sample_token by blast
  from generated_valid [OF sample_laws(3) sample_sign_law this]
  have ok: "verify_token_nonce sample_crates (to_verifying_key sample_key) token [7, 8] = Some True"
    by (simp add: verify_token_nonce_True)
  then show ?thesis
    using token_nonce_sound [OF ok] by blast
qed

text \<open>
  The check of a token panics exactly when the token has fewer than five dot-separated
  parts (instead of reporting an invalid structure), and parts after the fifth are ignored.
\<close>

theorem token_structure:
  "(verify_token_nonce X key token nonce = None \<longleftrightarrow> count_list token CHR ''.'' < 4)
   \<and> (4 \<le> count_list token CHR ''.'' \<longrightarrow>
       verify_token_nonce X key (token @ ''.'' @ junk) nonce = verify_token_nonce X key token nonce)"
proof -
  let ?f = "\<lambda>salt. if salt \<noteq> nonce then Some (Inl ''Invalid nonce'') else Some (Inr ())"
  have "verify_token_with_result X key token ?f = None \<longleftrightarrow> count_list token CHR ''.'' < 4"
    using verify_token_None [of ?f X key token] by (simp add: length_split_on)
  moreover have "verify_token_with_result X key (token @ ''.'' @ junk) ?f
      = verify_token_with_result X key token ?f" if enough: "4 \<le> count_list token CHR ''.''"
  proof -
    have "5 \<le> length (split_on CHR ''.'' token)"
      using enough by (simp add: length_split_on)
    then obtain a b c d e r where p: "split_on CHR ''.'' token = a # b # c # d # e # r"
      by (auto simp: numeral_eq_Suc Suc_le_length_iff)
    have "split_on CHR ''.'' (token @ ''.'' @ junk) = a # b # c # d # e # r @ split_on CHR ''.'' junk"
      using split_on_sep [of "CHR ''.''" token junk] p by simp
    then show ?thesis
      using p by (simp add: verify_token_with_result_def)
  qed
  ultimately show ?thesis
    by (simp add: verify_token_nonce_def is_ok_def)
qed

lemma token_structure_witness:
  "verify_token_nonce sample_crates (to_verifying_key sample_key) ''sha256.ab'' [] = None"
  using token_structure [of sample_crates "to_verifying_key sample_key" "''sha256.ab''" "[]"]
  by simp

lemma timestamp_token_check:
  assumes "b64_law X" and "sign_law key" and "generate_token_timestamp X (Inr t) key = Inr token"
  shows "verify_token_timestamp checks X (Inr now) (to_verifying_key key) token =
    (if checks \<and> now < t then None else Some (now - t \<le> 60 * 60))"
proof -
  let ?salt = "to_le 8 (unat t)"
  have gen: "generate_token_nonce X key ?salt = Inr token"
    using assms(3) by (simp add: generate_token_timestamp_def)
  have "unat t < 2 ^ LENGTH(64)" by (rule unsigned_less)
  then have le: "word_of_nat (from_le ?salt) = t"
    by (simp add: from_le_to_le)
  have valid: "token_valid X (to_verifying_key key) token ?salt"
    by (rule generated_valid [OF assms(1,2) gen])
  then have "verify_token_with_result X (to_verifying_key key) token f =
      (case f ?salt of None \<Rightarrow> None | Some (Inl e) \<Rightarrow> Some (Inl e) | Some (Inr _) \<Rightarrow> Some (Inr ()))" for f
    by (auto simp: token_valid_def verify_token_with_result_def check_digest_Inr
        split: option.splits sum.splits)
  then show ?thesis
    by (simp add: verify_token_timestamp_def timestamp_check_def le Let_def is_ok_def not_less not_le)
qed

text \<open>
  Certificate pinning: a certificate is accepted against an expected key exactly when it is
  valid now, its key and the expected one both parse and are equal, and its own signature verifies;
  and the key that \<open>public_key_from_cert_der\<close> extracts from a certificate with a readable key is
  one it is accepted against whenever it is accepted at all.
\<close>

theorem certificate_pinning:
  "(verify_cert_from_der V der (Some pk) = Inr () \<longleftrightarrow>
     (\<exists>cert key pem. xc_from_der V der = Inr cert \<and> xc_is_valid V cert
        \<and> xc_subject_key V cert = Inr key \<and> xc_pem_read V (as_bytes pk) = Inr pem
        \<and> xc_spki_from_der V pem = Inr key \<and> xc_verify_signature V cert = Inr ()))
   \<and> (xc_from_der V der = Inr cert \<and> pinning_law V cert \<and> xc_subject_key V cert = Inr key
        \<and> public_key_from_cert_der V der = Inr own \<longrightarrow>
      verify_cert_from_der V der (Some own) = verify_cert_from_der V der None)"
  by (auto simp: verify_cert_from_der_def verify_cert_from_cert_def public_key_from_cert_der_def
      public_key_from_cert_def pinning_law_def Let_def split: if_splits)

definition sample_x509 :: "(bytes, bytes) x509" where
  "sample_x509 = \<lparr>xc_pem_read = Inr, xc_parse_x509 = Inr, xc_from_der = Inr,
     xc_is_valid = (\<lambda>c. c \<noteq> []), xc_subject_key = (\<lambda>c. Inr (take 1 c)), xc_spki_from_der = Inr,
     xc_verify_signature = (\<lambda>c. if length c = 2 then Inr () else Inl ''bad''),
     xc_spki_raw = take 1, xc_pem_encode = (\<lambda>_. of_bytes)\<rparr>"

lemma certificate_pinning_witness:
  "verify_cert_from_der sample_x509 [5, 6] (Some (of_bytes [5])) = Inr ()
   \<and> verify_cert_from_der sample_x509 [5, 6] (Some (of_bytes [6])) \<noteq> Inr ()"
  using certificate_pinning [of sample_x509 "[5, 6]" "of_bytes [5]" "[5, 6]" "[5]" "of_bytes [5]"]
    certificate_pinning [of sample_x509 "[5, 6]" "of_bytes [6]" "[5, 6]" "[5]" "of_bytes [5]"]
  by (simp add: sample_x509_def)

end
