(* ===== verification/Rtc_Messages.thy ===== *)
theory Rtc_Messages
  imports Signaling_Messages Crypto
begin

text \<open>
  The messages two peers exchange over the WebRTC data channel, \<open>core/src/webrtc/webrtc.rs\<close> lines
  28 to 176, with the JSON form of their derive attributes (enums tagged by \<open>status\<close>), and the
  codec contract of each one.
\<close>

section \<open>Structs with one or two fields\<close>

record rtc_nonce_message =
  nm_nonce :: string

record rtc_token_request =
  tq_token :: string

record rtc_pin_message =
  pm_pin :: string

record rtc_send_file_header_request =
  fh_id :: string
  fh_token :: string

record rtc_send_file_response =
  fr_id :: string
  fr_success :: bool
  fr_error :: "string option"

definition enc_nonce_message :: "rtc_nonce_message \<Rightarrow> json" where
  "enc_nonce_message m = JObj [(''nonce'', JStr (nm_nonce m))]"

definition dec_nonce_message :: "json \<Rightarrow> rtc_nonce_message option" where
  "dec_nonce_message j = map_option (\<lambda>s. \<lparr>nm_nonce = s\<rparr>) (dec_single ''nonce'' dec_str j)"

definition enc_token_request :: "rtc_token_request \<Rightarrow> json" where
  "enc_token_request m = JObj [(''token'', JStr (tq_token m))]"

definition dec_token_request :: "json \<Rightarrow> rtc_token_request option" where
  "dec_token_request j = map_option (\<lambda>s. \<lparr>tq_token = s\<rparr>) (dec_single ''token'' dec_str j)"

definition enc_pin_message :: "rtc_pin_message \<Rightarrow> json" where
  "enc_pin_message m = JObj [(''pin'', JStr (pm_pin m))]"

definition dec_pin_message :: "json \<Rightarrow> rtc_pin_message option" where
  "dec_pin_message j = map_option (\<lambda>s. \<lparr>pm_pin = s\<rparr>) (dec_single ''pin'' dec_str j)"

definition enc_send_file_header :: "rtc_send_file_header_request \<Rightarrow> json" where
  "enc_send_file_header h = JObj [(''id'', JStr (fh_id h)), (''token'', JStr (fh_token h))]"

definition dec_send_file_header :: "json \<Rightarrow> rtc_send_file_header_request option" where
  "dec_send_file_header j =
     (case get_fields [(''id'', False), (''token'', False)] j of
        Some [a, b] \<Rightarrow>
          (case (req_field dec_str a, req_field dec_str b) of
             (Some i, Some t) \<Rightarrow> Some \<lparr>fh_id = i, fh_token = t\<rparr> | _ \<Rightarrow> None)
      | _ \<Rightarrow> None)"

definition enc_send_file_response :: "rtc_send_file_response \<Rightarrow> json" where
  "enc_send_file_response r = JObj (
     [(''id'', JStr (fr_id r)), (''success'', JBool (fr_success r))] @
     opt_entry ''error'' JStr (fr_error r))"

definition dec_send_file_response :: "json \<Rightarrow> rtc_send_file_response option" where
  "dec_send_file_response j =
     (case get_fields [(''id'', False), (''success'', False), (''error'', False)] j of
        Some [a, b, c] \<Rightarrow>
          (case (req_field dec_str a, req_field dec_bool b, opt_field dec_str c) of
             (Some i, Some s, Some e) \<Rightarrow> Some \<lparr>fr_id = i, fr_success = s, fr_error = e\<rparr> | _ \<Rightarrow> None)
      | _ \<Rightarrow> None)"

interpretation nonce_message_codec: json_codec enc_nonce_message dec_nonce_message
  by unfold_locales (simp_all add: enc_nonce_message_def dec_nonce_message_def dec_single_def)

interpretation token_request_codec: json_codec enc_token_request dec_token_request
  by unfold_locales (simp_all add: enc_token_request_def dec_token_request_def dec_single_def)

interpretation pin_message_codec: json_codec enc_pin_message dec_pin_message
  by unfold_locales (simp_all add: enc_pin_message_def dec_pin_message_def dec_single_def)

interpretation send_file_header_codec: json_codec enc_send_file_header dec_send_file_header
  by unfold_locales (simp_all add: enc_send_file_header_def dec_send_file_header_def)

interpretation send_file_response_codec: json_codec enc_send_file_response dec_send_file_response
proof unfold_locales
  show "dec_send_file_response (enc_send_file_response r) = Some r" for r
    by (cases "fr_error r") (simp_all add: enc_send_file_response_def dec_send_file_response_def)
qed (simp_all add: enc_send_file_response_def split: option.split)

section \<open>Enums tagged by status\<close>

text \<open>
  A unit variant ignores the other keys of an object and takes no further element of an array.
\<close>

fun dec_unit :: "'a \<Rightarrow> json \<Rightarrow> 'a option" where
  "dec_unit x (JObj _) = Some x"
| "dec_unit x (JArr vs) = (if vs = [] then Some x else None)"
| "dec_unit x _ = None"

datatype rtc_token_response = TokOk string | TokPinRequired string | TokInvalidSignature

datatype rtc_pin_receiving_response = PrOk | PrPinRequired | PrTooManyAttempts

datatype rtc_pin_sending_response =
    PsOk "file_dto list"
  | PsPinRequired
  | PsTooManyAttempts

datatype rtc_file_list_response =
    FlOk "(string, string) hmap"
  | FlPair string
  | FlDeclined
  | FlInvalidSignature

datatype rtc_pair_response = PairOk string | PairDeclined | PairInvalidSignature

fun enc_token_response :: "rtc_token_response \<Rightarrow> json" where
  "enc_token_response (TokOk t) = add_tag ''status'' ''OK'' (JObj [(''token'', JStr t)])"
| "enc_token_response (TokPinRequired t) =
     add_tag ''status'' ''PIN_REQUIRED'' (JObj [(''token'', JStr t)])"
| "enc_token_response TokInvalidSignature = add_tag ''status'' ''INVALID_SIGNATURE'' (JObj [])"

definition dec_token_response :: "json \<Rightarrow> rtc_token_response option" where
  "dec_token_response j =
     (case untag ''status'' j of None \<Rightarrow> None | Some (t, c) \<Rightarrow>
        if t = ''OK'' then map_option TokOk (dec_single ''token'' dec_str c)
        else if t = ''PIN_REQUIRED'' then map_option TokPinRequired (dec_single ''token'' dec_str c)
        else if t = ''INVALID_SIGNATURE'' then dec_unit TokInvalidSignature c
        else None)"

fun enc_pin_receiving :: "rtc_pin_receiving_response \<Rightarrow> json" where
  "enc_pin_receiving PrOk = add_tag ''status'' ''OK'' (JObj [])"
| "enc_pin_receiving PrPinRequired = add_tag ''status'' ''PIN_REQUIRED'' (JObj [])"
| "enc_pin_receiving PrTooManyAttempts = add_tag ''status'' ''TOO_MANY_ATTEMPTS'' (JObj [])"

definition dec_pin_receiving :: "json \<Rightarrow> rtc_pin_receiving_response option" where
  "dec_pin_receiving j =
     (case untag ''status'' j of None \<Rightarrow> None | Some (t, c) \<Rightarrow>
        if t = ''OK'' then dec_unit PrOk c
        else if t = ''PIN_REQUIRED'' then dec_unit PrPinRequired c
        else if t = ''TOO_MANY_ATTEMPTS'' then dec_unit PrTooManyAttempts c
        else None)"

fun enc_pin_sending :: "rtc_pin_sending_response \<Rightarrow> json" where
  "enc_pin_sending (PsOk fs) =
     add_tag ''status'' ''OK'' (JObj [(''files'', enc_list enc_file_dto fs)])"
| "enc_pin_sending PsPinRequired = add_tag ''status'' ''PIN_REQUIRED'' (JObj [])"
| "enc_pin_sending PsTooManyAttempts = add_tag ''status'' ''TOO_MANY_ATTEMPTS'' (JObj [])"

definition dec_pin_sending :: "json \<Rightarrow> rtc_pin_sending_response option" where
  "dec_pin_sending j =
     (case untag ''status'' j of None \<Rightarrow> None | Some (t, c) \<Rightarrow>
        if t = ''OK'' then map_option PsOk (dec_single ''files'' (dec_list dec_file_dto) c)
        else if t = ''PIN_REQUIRED'' then dec_unit PsPinRequired c
        else if t = ''TOO_MANY_ATTEMPTS'' then dec_unit PsTooManyAttempts c
        else None)"

fun enc_file_list_response :: "rtc_file_list_response \<Rightarrow> json" where
  "enc_file_list_response (FlOk m) = add_tag ''status'' ''OK'' (JObj [(''files'', enc_map JStr m)])"
| "enc_file_list_response (FlPair k) = add_tag ''status'' ''PAIR'' (JObj [(''publicKey'', JStr k)])"
| "enc_file_list_response FlDeclined = add_tag ''status'' ''DECLINED'' (JObj [])"
| "enc_file_list_response FlInvalidSignature = add_tag ''status'' ''INVALID_SIGNATURE'' (JObj [])"

definition dec_file_list_response :: "json \<Rightarrow> rtc_file_list_response option" where
  "dec_file_list_response j =
     (case untag ''status'' j of None \<Rightarrow> None | Some (t, c) \<Rightarrow>
        if t = ''OK'' then map_option FlOk (dec_single ''files'' (dec_map dec_str) c)
        else if t = ''PAIR'' then map_option FlPair (dec_single ''publicKey'' dec_str c)
        else if t = ''DECLINED'' then dec_unit FlDeclined c
        else if t = ''INVALID_SIGNATURE'' then dec_unit FlInvalidSignature c
        else None)"

fun enc_pair_response :: "rtc_pair_response \<Rightarrow> json" where
  "enc_pair_response (PairOk k) = add_tag ''status'' ''OK'' (JObj [(''publicKey'', JStr k)])"
| "enc_pair_response PairDeclined = add_tag ''status'' ''PAIR_DECLINED'' (JObj [])"
| "enc_pair_response PairInvalidSignature = add_tag ''status'' ''INVALID_SIGNATURE'' (JObj [])"

definition dec_pair_response :: "json \<Rightarrow> rtc_pair_response option" where
  "dec_pair_response j =
     (case untag ''status'' j of None \<Rightarrow> None | Some (t, c) \<Rightarrow>
        if t = ''OK'' then map_option PairOk (dec_single ''publicKey'' dec_str c)
        else if t = ''PAIR_DECLINED'' then dec_unit PairDeclined c
        else if t = ''INVALID_SIGNATURE'' then dec_unit PairInvalidSignature c
        else None)"

lemmas status_simps = untag_add_tag dec_single_def file_dto_codec.codec_rules file_dto_codec.plain_list
  str_codec.plain_map

interpretation token_response_codec: json_codec enc_token_response dec_token_response
proof unfold_locales
  show "dec_token_response (enc_token_response r) = Some r" "enc_token_response r \<noteq> JNull"
    "json_plain (enc_token_response r)" for r
    by (cases r; simp add: dec_token_response_def status_simps)+
qed

interpretation pin_receiving_codec: json_codec enc_pin_receiving dec_pin_receiving
proof unfold_locales
  show "dec_pin_receiving (enc_pin_receiving r) = Some r" "enc_pin_receiving r \<noteq> JNull"
    "json_plain (enc_pin_receiving r)" for r
    by (cases r; simp add: dec_pin_receiving_def status_simps)+
qed

interpretation pin_sending_codec: json_codec enc_pin_sending dec_pin_sending
proof unfold_locales
  show "dec_pin_sending (enc_pin_sending r) = Some r" "enc_pin_sending r \<noteq> JNull"
    "json_plain (enc_pin_sending r)" for r
    by (cases r; simp add: dec_pin_sending_def status_simps)+
qed

interpretation pair_response_codec: json_codec enc_pair_response dec_pair_response
proof unfold_locales
  show "dec_pair_response (enc_pair_response r) = Some r" "enc_pair_response r \<noteq> JNull"
    "json_plain (enc_pair_response r)" for r
    by (cases r; simp add: dec_pair_response_def status_simps)+
qed

text \<open>A \<open>HashMap\<close> has no duplicate keys, so its codec is stated for well-formed maps.\<close>

lemma file_list_response_roundtrip:
  "(case r of FlOk m \<Rightarrow> hm_wf m | _ \<Rightarrow> True) \<Longrightarrow>
   dec_file_list_response (enc_file_list_response r) = Some r"
  by (cases r) (simp_all add: dec_file_list_response_def status_simps str_codec.dec_map_enc)

lemma file_list_response_plain: "json_plain (enc_file_list_response r)"
  by (cases r) (simp_all add: status_simps)

lemma file_list_response_text:
  "json_law X \<Longrightarrow> (case r of FlOk m \<Rightarrow> hm_wf m | _ \<Rightarrow> True) \<Longrightarrow>
   from_slice X dec_file_list_response (as_bytes (to_text X enc_file_list_response r)) = Some r"
  by (simp add: from_slice_def from_text_def to_text_def json_law_def file_list_response_plain
      file_list_response_roundtrip)

section \<open>Status, errors, PIN configuration\<close>

datatype rtc_status =
    SdpExchanged
  | Connected
  | PinRequired
  | TooManyAttempts
  | Declined
  | Sending
  | Finished
  | StError string

record rtc_file_error =
  fe_file_id :: string
  fe_error :: string

record pin_config =
  pc_pin :: string
  pc_max_tries :: u8

record rtc_file =
  rf_file_id :: string
  rf_binary :: "bytes list"  \<comment> \<open>what the receiver end of \<open>binary_rx\<close> yields\<close>

record rtc_file_state =
  rs_file_id :: string
  rs_size :: u64

end
