(* ===== verification/Rtc_Prog.thy ===== *)
theory Rtc_Prog
  imports Rtc_Messages
begin

text \<open>
  The effects of the two WebRTC tasks as a state monad with errors. The state is the list of
  messages the peer will still deliver (\<open>receive_rx\<close>; \<open>recv\<close> yields \<open>None\<close> when it is used up: the
  channel is closed) and the trace of everything the task did so far. What the outside decides
  (does a send succeed, which PIN does the user type, is the file list accepted) is the record
  \<open>env\<close>, whose functions see the trace; every theorem is about all environments and all message
  lists. The proof rules are Hoare triples with a normal and an error postcondition.
\<close>

section \<open>State and environment\<close>

record dc_message =
  dm_is_string :: bool
  dm_data :: bytes

datatype event =
    SentText string
  | SentBinary bytes
  | StatusSent rtc_status
  | FileErrorSent rtc_file_error
  | PinAsked
  | PairAsked
  | SelectionPublished "string list"
  | FilesPublished "file_dto list"
  | FileOpened string
  | FileData string bytes
  | FileClosed string
  | BufferEmpty
  | SignalingSent ws_client_message
  | CallbackRegistered string
  | DataChannelClosed
  | PeerConnectionClosed

datatype 'a answer = ChannelClosed | AnswerDropped | Answered 'a

record env =
  en_send :: "event list \<Rightarrow> string option"       \<comment> \<open>the error of a data channel send\<close>
  en_status_open :: "event list \<Rightarrow> bool"          \<comment> \<open>is the receiver of \<open>status_tx\<close> there\<close>
  en_pin :: "event list \<Rightarrow> string answer"         \<comment> \<open>\<open>pin_tx\<close> and the one-shot answer\<close>
  en_pair :: "event list \<Rightarrow> bool answer"          \<comment> \<open>\<open>pair_tx\<close> and the one-shot answer\<close>
  en_cut :: "event list \<Rightarrow> nat option"            \<comment> \<open>a timeout fires after so many effects\<close>
  en_nonce :: "nat \<Rightarrow> bytes"                       \<comment> \<open>the random generator\<close>
  en_selection_open :: bool                        \<comment> \<open>is \<open>selected_files_tx\<close> still awaited\<close>
  en_files_open :: bool                            \<comment> \<open>is \<open>files_tx\<close> still awaited\<close>
  en_selected :: "event list \<Rightarrow> string list option answer"  \<comment> \<open>\<open>selected_files_rx\<close>\<close>
  en_uuid :: "nat \<Rightarrow> string"                       \<comment> \<open>\<open>Uuid::new_v4().to_string()\<close>\<close>
  en_result :: "event list \<Rightarrow> rtc_send_file_response option"  \<comment> \<open>\<open>user_error_tx.recv()\<close>\<close>
  en_data_open :: "event list \<Rightarrow> bool"            \<comment> \<open>is the app still reading the file\<close>

text \<open>A spawned task ends with an error, a panic, or (here) by using up the fuel of a loop.\<close>

datatype rtc_error = Anyhow string | Panicked | Diverged

record rtc_state =
  rs_rx :: "dc_message list"
  rs_trace :: "event list"

type_synonym 'a prog = "rtc_state \<Rightarrow> (rtc_error + 'a) \<times> rtc_state"

definition ret :: "'a \<Rightarrow> 'a prog" where
  "ret x = (\<lambda>s. (Inr x, s))"

definition throw :: "rtc_error \<Rightarrow> 'a prog" where
  "throw e = (\<lambda>s. (Inl e, s))"

abbreviation fail :: "string \<Rightarrow> 'a prog" where
  "fail e \<equiv> throw (Anyhow e)"

definition bindP :: "'a prog \<Rightarrow> ('a \<Rightarrow> 'b prog) \<Rightarrow> 'b prog" where
  "bindP f g = (\<lambda>s. case f s of (Inl e, s') \<Rightarrow> (Inl e, s') | (Inr x, s') \<Rightarrow> g x s')"

definition thenP :: "'a prog \<Rightarrow> 'b prog \<Rightarrow> 'b prog" where
  "thenP f g = bindP f (\<lambda>_. g)"

text \<open>\<open>if let Err(e) = ..\<close> and \<open>let _ = ..\<close>: the result is a value. A panic is not caught.\<close>

definition attempt :: "'a prog \<Rightarrow> (string + 'a) prog" where
  "attempt f = (\<lambda>s. case f s of (Inl (Anyhow e), s') \<Rightarrow> (Inr (Inl e), s')
     | (Inl e, s') \<Rightarrow> (Inl e, s') | (Inr x, s') \<Rightarrow> (Inr (Inr x), s'))"

definition lift :: "string + 'a \<Rightarrow> 'a prog" where
  "lift r = (case r of Inl e \<Rightarrow> fail e | Inr x \<Rightarrow> ret x)"

definition expect :: "string \<Rightarrow> 'a option \<Rightarrow> 'a prog" where
  "expect e r = (case r of None \<Rightarrow> fail e | Some x \<Rightarrow> ret x)"

definition emit :: "event \<Rightarrow> unit prog" where
  "emit ev = (\<lambda>s. (Inr (), s\<lparr>rs_trace := rs_trace s @ [ev]\<rparr>))"

definition asks :: "(event list \<Rightarrow> 'a) \<Rightarrow> 'a prog" where
  "asks f = (\<lambda>s. (Inr (f (rs_trace s)), s))"

section \<open>Primitive operations\<close>

definition recv :: "dc_message option prog" where
  "recv = (\<lambda>s. case rs_rx s of [] \<Rightarrow> (Inr None, s) | m # ms \<Rightarrow> (Inr (Some m), s\<lparr>rs_rx := ms\<rparr>))"

definition send_event :: "env \<Rightarrow> event \<Rightarrow> unit prog" where
  "send_event E ev = bindP (asks (en_send E))
     (\<lambda>r. case r of Some e \<Rightarrow> fail e | None \<Rightarrow> emit ev)"

definition send_text :: "env \<Rightarrow> string \<Rightarrow> unit prog" where
  "send_text E txt = send_event E (SentText txt)"

definition send_binary :: "env \<Rightarrow> bytes \<Rightarrow> unit prog" where
  "send_binary E bs = send_event E (SentBinary bs)"

definition status_send :: "env \<Rightarrow> rtc_status \<Rightarrow> unit prog" where
  "status_send E st = bindP (asks (en_status_open E))
     (\<lambda>b. if b then emit (StatusSent st) else fail ''channel closed'')"

definition status_try :: "env \<Rightarrow> rtc_status \<Rightarrow> unit prog" where
  "status_try E st = bindP (attempt (status_send E st)) (\<lambda>_. ret ())"

definition error_send :: "string \<Rightarrow> string \<Rightarrow> unit prog" where
  "error_send file_id err = emit (FileErrorSent \<lparr>fe_file_id = file_id, fe_error = err\<rparr>)"

text \<open>\<open>wait_buffer_empty\<close> polls until the channel's buffer is empty; it changes nothing.\<close>

definition wait_buffer_empty :: "unit prog" where
  "wait_buffer_empty = emit BufferEmpty"

text \<open>
  \<open>timeout(d, f)\<close> with its result ignored: \<open>f\<close> runs to its end or is cut off after some of its
  effects (\<open>f\<close> only sends, it does not receive).
\<close>

definition timeout :: "env \<Rightarrow> 'a prog \<Rightarrow> unit prog" where
  "timeout E f = (\<lambda>s. case f s of (_, s') \<Rightarrow> (Inr (),
     case en_cut E (rs_trace s) of None \<Rightarrow> s'
     | Some n \<Rightarrow> s'\<lparr>rs_trace := take (length (rs_trace s) + n) (rs_trace s')\<rparr>))"

section \<open>Loops over the incoming messages\<close>

text \<open>
  \<open>while let Some(msg) = receive_rx.recv().await\<close> with a body that does not receive itself: the
  body says whether the loop goes on and with which loop variables.
\<close>

datatype 'st loop_ctl = Break | Next 'st

definition set_rx :: "dc_message list \<Rightarrow> unit prog" where
  "set_rx ms = (\<lambda>s. (Inr (), s\<lparr>rs_rx := ms\<rparr>))"

fun while_recv :: "(dc_message \<Rightarrow> 'st \<Rightarrow> 'st loop_ctl prog) \<Rightarrow> dc_message list \<Rightarrow> 'st \<Rightarrow> unit prog" where
  "while_recv body [] st = ret ()"
| "while_recv body (m # ms) st =
     thenP (set_rx ms) (bindP (body m st) (\<lambda>c. case c of
       Break \<Rightarrow> ret () | Next st' \<Rightarrow> while_recv body ms st'))"

definition recv_loop :: "(dc_message \<Rightarrow> 'st \<Rightarrow> 'st loop_ctl prog) \<Rightarrow> 'st \<Rightarrow> unit prog" where
  "recv_loop body st = (\<lambda>s. while_recv body (rs_rx s) st s)"

section \<open>Equations\<close>

lemma bindP_ret [simp]: "bindP (ret x) g = g x"
  by (simp add: bindP_def ret_def)

lemma bindP_throw [simp]: "bindP (throw e) g = throw e"
  by (simp add: bindP_def throw_def fun_eq_iff)

lemma ret_bindP [simp]: "bindP f ret = f"
  by (auto simp: bindP_def ret_def fun_eq_iff split: prod.split sum.split)

lemma bindP_assoc [simp]: "bindP (bindP f g) h = bindP f (\<lambda>x. bindP (g x) h)"
  by (auto simp: bindP_def fun_eq_iff split: prod.split sum.split)

lemma prog_apply [prog_simps]:
  "ret x s = (Inr x, s)" "throw e s = (Inl e, s)"
  "bindP f g s = (case f s of (Inl e, s') \<Rightarrow> (Inl e, s') | (Inr x, s') \<Rightarrow> g x s')"
  "thenP f h = bindP f (\<lambda>_. h)"
  "emit ev s = (Inr (), s\<lparr>rs_trace := rs_trace s @ [ev]\<rparr>)"
  "asks q s = (Inr (q (rs_trace s)), s)"
  "set_rx ms s = (Inr (), s\<lparr>rs_rx := ms\<rparr>)"
  by (simp_all add: ret_def throw_def bindP_def thenP_def emit_def asks_def set_rx_def)

section \<open>Triples\<close>

definition triple :: "(rtc_state \<Rightarrow> bool) \<Rightarrow> 'a prog \<Rightarrow> ('a \<Rightarrow> rtc_state \<Rightarrow> bool)
    \<Rightarrow> (rtc_state \<Rightarrow> bool) \<Rightarrow> bool" where
  "triple P f Q R \<longleftrightarrow> (\<forall>s. P s \<longrightarrow>
     (case f s of (Inl e, s') \<Rightarrow> R s' | (Inr x, s') \<Rightarrow> Q x s'))"

lemma tripleI:
  "(\<And>s e s'. P s \<Longrightarrow> f s = (Inl e, s') \<Longrightarrow> R s') \<Longrightarrow>
   (\<And>s x s'. P s \<Longrightarrow> f s = (Inr x, s') \<Longrightarrow> Q x s') \<Longrightarrow> triple P f Q R"
  by (auto simp: triple_def split: prod.split sum.split)

lemma tripleD:
  assumes "triple P f Q R" "P s"
  shows "f s = (Inl e, s') \<Longrightarrow> R s'" "f s = (Inr x, s') \<Longrightarrow> Q x s'"
  using assms by (force simp: triple_def)+

lemma triple_weaken:
  "triple P f Q R \<Longrightarrow> (\<And>s. P' s \<Longrightarrow> P s) \<Longrightarrow> (\<And>x s. Q x s \<Longrightarrow> Q' x s) \<Longrightarrow> (\<And>s. R s \<Longrightarrow> R' s) \<Longrightarrow>
   triple P' f Q' R'"
  by (fastforce simp: triple_def split: prod.splits sum.splits)

lemma triple_ret [triple_intro]: "(\<And>s. P s \<Longrightarrow> Q x s) \<Longrightarrow> triple P (ret x) Q R"
  by (simp add: triple_def ret_def)

lemma triple_throw [triple_intro]: "(\<And>s. P s \<Longrightarrow> R s) \<Longrightarrow> triple P (throw e) Q R"
  by (simp add: triple_def throw_def)

lemma triple_bind:
  "triple P f Q R \<Longrightarrow> (\<And>x. triple (Q x) (g x) S R) \<Longrightarrow> triple P (bindP f g) S R"
  by (fastforce simp: triple_def bindP_def split: prod.splits sum.splits)

lemma triple_case_sum [triple_intro]:
  "(\<And>e. r = Inl e \<Longrightarrow> triple P (f e) Q R) \<Longrightarrow> (\<And>x. r = Inr x \<Longrightarrow> triple P (g x) Q R) \<Longrightarrow>
   triple P (case r of Inl e \<Rightarrow> f e | Inr x \<Rightarrow> g x) Q R"
  by (cases r) simp_all

lemma triple_case_option [triple_intro]:
  "(r = None \<Longrightarrow> triple P f Q R) \<Longrightarrow> (\<And>x. r = Some x \<Longrightarrow> triple P (g x) Q R) \<Longrightarrow>
   triple P (case r of None \<Rightarrow> f | Some x \<Rightarrow> g x) Q R"
  by (cases r) simp_all

lemma triple_if [triple_intro]:
  "(b \<Longrightarrow> triple P f Q R) \<Longrightarrow> (\<not> b \<Longrightarrow> triple P g Q R) \<Longrightarrow> triple P (if b then f else g) Q R"
  by simp

section \<open>Effects that keep an invariant of the state\<close>

text \<open>
  \<open>keeps I f\<close>: the program never leaves \<open>I\<close>, whether it returns or fails. It is the contract of
  the stages that may not show anything yet, and is proved by following the structure.
\<close>

definition keeps :: "(rtc_state \<Rightarrow> bool) \<Rightarrow> 'a prog \<Rightarrow> bool" where
  "keeps I f \<longleftrightarrow> triple I f (\<lambda>_. I) I"

lemma keepsI: "(\<And>s r s'. I s \<Longrightarrow> f s = (r, s') \<Longrightarrow> I s') \<Longrightarrow> keeps I f"
  by (auto simp: keeps_def intro: tripleI)

lemma keepsD: "keeps I f \<Longrightarrow> f s = (r, s') \<Longrightarrow> I s \<Longrightarrow> I s'"
  by (cases r) (auto simp: keeps_def triple_def)

lemma keeps_ret [triple_intro]: "keeps I (ret x)"
  and keeps_throw [triple_intro]: "keeps I (throw e)"
  and keeps_asks [triple_intro]: "keeps I (asks q)"
  by (auto intro!: keepsI simp: prog_simps)

lemma keeps_bind [triple_intro]: "keeps I f \<Longrightarrow> (\<And>x. keeps I (g x)) \<Longrightarrow> keeps I (bindP f g)"
  unfolding keeps_def by (rule triple_bind)

lemma keeps_then [triple_intro]: "keeps I f \<Longrightarrow> keeps I g \<Longrightarrow> keeps I (thenP f g)"
  unfolding thenP_def by (rule keeps_bind)

lemma keeps_attempt [triple_intro]: "keeps I f \<Longrightarrow> keeps I (attempt f)"
  by (rule keepsI) (auto simp: attempt_def dest: keepsD split: prod.splits sum.splits rtc_error.splits)

lemma keeps_if [triple_intro]: "(b \<Longrightarrow> keeps I f) \<Longrightarrow> (\<not> b \<Longrightarrow> keeps I g) \<Longrightarrow> keeps I (if b then f else g)"
  by simp

lemma keeps_case_option [triple_intro]:
  "(r = None \<Longrightarrow> keeps I f) \<Longrightarrow> (\<And>x. r = Some x \<Longrightarrow> keeps I (g x)) \<Longrightarrow>
   keeps I (case r of None \<Rightarrow> f | Some x \<Rightarrow> g x)"
  by (cases r) simp_all

lemma keeps_case_sum [triple_intro]:
  "(\<And>e. r = Inl e \<Longrightarrow> keeps I (f e)) \<Longrightarrow> (\<And>x. r = Inr x \<Longrightarrow> keeps I (g x)) \<Longrightarrow>
   keeps I (case r of Inl e \<Rightarrow> f e | Inr x \<Rightarrow> g x)"
  by (cases r) simp_all

lemma keeps_expect [triple_intro]: "keeps I (expect e r)"
  by (auto simp: expect_def intro: triple_intro)

lemma keeps_lift [triple_intro]: "keeps I (lift r)"
  by (auto simp: lift_def intro: triple_intro)

end
