(* ===== verification/Rtc_Chunks.thy ===== *)
theory Rtc_Chunks
  imports Rtc_Prog
begin

text \<open>
  Sending long data over the channel, \<open>webrtc.rs\<close> lines 1228 to 1348: data is cut into chunks
  of 16 KiB, each a binary message, and a delimiter (a short text message) ends it. The chunked
  sender is shown to be the plain iteration over the chunks of the concatenated data, and the
  receiver to give that data back.
\<close>

section \<open>Session descriptions\<close>

text \<open>The \<open>flate2\<close> codec: compression is total, decompression can fail.\<close>

record zlib =
  zl_compress :: "bytes \<Rightarrow> bytes"
  zl_decompress :: "bytes \<Rightarrow> anyhow + bytes"

definition zlib_law :: "zlib \<Rightarrow> bool" where
  "zlib_law Z \<longleftrightarrow> (\<forall>bs. zl_decompress Z (zl_compress Z bs) = Inr bs)"

definition encode_sdp :: "('z) crates_scheme \<Rightarrow> zlib \<Rightarrow> string \<Rightarrow> string" where
  "encode_sdp X Z s = x_b64_encode X (zl_compress Z (as_bytes s))"

definition decode_sdp :: "('z) crates_scheme \<Rightarrow> zlib \<Rightarrow> string \<Rightarrow> anyhow + string" where
  "decode_sdp X Z s =
     (case x_b64_decode X s of
        None \<Rightarrow> Inl ''Base64 decode of SDP failed''
      | Some decoded_data \<Rightarrow>
         (case zl_decompress Z decoded_data of
            Inl e \<Rightarrow> Inl (''Failed to decompress SDP: '' @ e)
          | Inr raw \<Rightarrow> ok_or ''Failed to decompress SDP: invalid UTF-8'' (from_utf8 raw)))"

section \<open>Chunks\<close>

definition chunk_size :: nat where
  "chunk_size = 16 * 1024"

lemma chunk_size_pos [simp]: "0 < chunk_size"
  by (simp add: chunk_size_def)

text \<open>The inner loop: whole chunks are split off the buffer and handed to the callback.\<close>

function process_buffer ::
    "('t \<Rightarrow> bytes \<Rightarrow> 't prog) \<Rightarrow> 't \<Rightarrow> bytes \<Rightarrow> ('t \<times> bytes) prog" where
  "process_buffer callback dc buffer =
     (if chunk_size \<le> length buffer
      then bindP (callback dc (take chunk_size buffer))
             (\<lambda>dc'. process_buffer callback dc' (drop chunk_size buffer))
      else ret (dc, buffer))"
  by pat_completeness auto
termination
  by (relation "measure (\<lambda>(_, _, buffer). length buffer)") (auto simp: chunk_size_def)

declare process_buffer.simps [simp del]

fun process_received ::
    "('t \<Rightarrow> bytes \<Rightarrow> 't prog) \<Rightarrow> 't \<Rightarrow> bytes \<Rightarrow> bytes list \<Rightarrow> unit prog" where
  "process_received callback dc buffer [] =
     (if buffer = [] then ret () else thenP (callback dc buffer) (ret ()))"
| "process_received callback dc buffer (data # rx) =
     bindP (process_buffer callback dc (buffer @ data))
       (\<lambda>(dc', buffer'). process_received callback dc' buffer' rx)"

definition process_in_chunks :: "'t \<Rightarrow> bytes list \<Rightarrow> ('t \<Rightarrow> bytes \<Rightarrow> 't prog) \<Rightarrow> unit prog" where
  "process_in_chunks dc rx callback = process_received callback dc [] rx"

text \<open>The spawned task puts the whole string into the channel and drops its end.\<close>

definition send_string_in_chunks :: "'t \<Rightarrow> string \<Rightarrow> ('t \<Rightarrow> bytes \<Rightarrow> 't prog) \<Rightarrow> unit prog" where
  "send_string_in_chunks dc str callback = process_in_chunks dc [as_bytes str] callback"

text \<open>The callback of every caller: send the chunk, give the channel back.\<close>

definition send_chunk :: "env \<Rightarrow> unit \<Rightarrow> bytes \<Rightarrow> unit prog" where
  "send_chunk E dc chunk = thenP (send_binary E chunk) (ret dc)"

definition send_delimiter :: "env \<Rightarrow> unit prog" where
  "send_delimiter E = send_text E ''0''"

definition is_delimiter :: "dc_message \<Rightarrow> bool" where
  "is_delimiter msg \<longleftrightarrow> dm_is_string msg \<and> length (dm_data msg) \<le> 1"

fun take_chunks :: "dc_message list \<Rightarrow> bytes \<times> dc_message list" where
  "take_chunks [] = ([], [])"
| "take_chunks (msg # rx) =
     (if dm_is_string msg then ([], rx)
      else (case take_chunks rx of (buffer, rx') \<Rightarrow> (dm_data msg @ buffer, rx')))"

definition receive_string_from_chunks :: "bytes prog" where
  "receive_string_from_chunks =
     (\<lambda>s. case take_chunks (rs_rx s) of (buffer, rx) \<Rightarrow> (Inr buffer, s\<lparr>rs_rx := rx\<rparr>))"

section \<open>The reference: the chunks of a byte string\<close>

function chunks_of :: "nat \<Rightarrow> bytes \<Rightarrow> bytes list" where
  "chunks_of n bs = (if bs = [] \<or> n = 0 then [] else take n bs # chunks_of n (drop n bs))"
  by pat_completeness auto
termination
  by (relation "measure (\<lambda>(_, bs). length bs)") auto

declare chunks_of.simps [simp del]

lemma chunks_of_Nil [simp]: "chunks_of n [] = []"
  by (simp add: chunks_of.simps)

lemma chunks_of_full: "0 < n \<Longrightarrow> n \<le> length bs \<Longrightarrow> chunks_of n bs = take n bs # chunks_of n (drop n bs)"
  by (subst chunks_of.simps) auto

lemma chunks_of_short: "0 < n \<Longrightarrow> length bs < n \<Longrightarrow> bs \<noteq> [] \<Longrightarrow> chunks_of n bs = [bs]"
  by (subst chunks_of.simps) simp

lemma concat_chunks_of: "0 < n \<Longrightarrow> concat (chunks_of n bs) = bs"
proof (induction n bs rule: chunks_of.induct)
  case (1 n bs)
  then show ?case by (subst chunks_of.simps) auto
qed

lemma chunks_of_sizes: "c \<in> set (chunks_of n bs) \<Longrightarrow> c \<noteq> [] \<and> length c \<le> n"
proof (induction n bs rule: chunks_of.induct)
  case (1 n bs)
  then show ?case by (auto simp: chunks_of.simps [of n bs] split: if_splits)
qed

fun iterate :: "('t \<Rightarrow> bytes \<Rightarrow> 't prog) \<Rightarrow> 't \<Rightarrow> bytes list \<Rightarrow> 't prog" where
  "iterate callback dc [] = ret dc"
| "iterate callback dc (c # cs) = bindP (callback dc c) (\<lambda>dc'. iterate callback dc' cs)"

text \<open>The inner loop followed by the rest is the iteration over the chunks of the whole data.\<close>

lemma process_buffer_iterate:
  "bindP (process_buffer cb dc buffer)
      (\<lambda>(dc', buffer'). thenP (iterate cb dc' (chunks_of chunk_size (buffer' @ more_data))) (ret ()))
    = thenP (iterate cb dc (chunks_of chunk_size (buffer @ more_data))) (ret ())"
proof (induction cb dc buffer rule: process_buffer.induct)
  case (1 callback dc buffer)
  show ?case
  proof (cases "chunk_size \<le> length buffer")
    case True
    then have "chunks_of chunk_size (buffer @ more_data)
        = take chunk_size buffer # chunks_of chunk_size (drop chunk_size buffer @ more_data)"
      by (subst chunks_of_full) simp_all
    then show ?thesis
      using 1 [OF True] True by (simp add: process_buffer.simps [of callback dc buffer] thenP_def)
  next
    case False
    then show ?thesis by (simp add: process_buffer.simps [of callback dc buffer])
  qed
qed

lemma process_buffer_rest:
  "process_buffer cb dc buffer s = (Inr (dc', buffer'), s') \<Longrightarrow> length buffer' < chunk_size"
proof (induction cb dc buffer arbitrary: s rule: process_buffer.induct)
  case (1 callback dc buffer)
  then show ?case
    by (auto simp: process_buffer.simps [of callback dc buffer] prog_simps
        split: if_splits prod.splits sum.splits)
qed

lemma process_received_iterate:
  "length buffer < chunk_size \<Longrightarrow>
   process_received cb dc buffer rx =
     thenP (iterate cb dc (chunks_of chunk_size (buffer @ concat rx))) (ret ())"
proof (induction rx arbitrary: dc buffer)
  case Nil
  then show ?case
    by (cases "buffer = []") (simp_all add: chunks_of_short thenP_def)
next
  case (Cons data rx)
  have "process_received cb dc buffer (data # rx) s =
      bindP (process_buffer cb dc (buffer @ data)) (\<lambda>(dc', buffer').
        thenP (iterate cb dc' (chunks_of chunk_size (buffer' @ concat rx))) (ret ())) s" for s
  proof (cases "process_buffer cb dc (buffer @ data) s")
    case (Pair r s')
    show ?thesis
    proof (cases r)
      case (Inr x)
      with Pair have "length (snd x) < chunk_size"
        by (cases x) (auto dest: process_buffer_rest)
      then show ?thesis
        using Pair Inr Cons.IH [of "snd x" "fst x"] by (simp add: bindP_def split_beta)
    qed (simp add: Pair bindP_def)
  qed
  then show ?case
    using process_buffer_iterate [of cb dc "buffer @ data" "concat rx"] by (simp add: fun_eq_iff)
qed

text \<open>
  C22. Cutting into chunks does not depend on how the data arrives: with any callback,
  \<open>process_in_chunks\<close> calls it, in order and stopping at the first error, on exactly the chunks
  of the concatenation of everything received; these are non-empty, at most 16 KiB long and
  together give back the data.
\<close>

theorem process_in_chunks_reference:
  "process_in_chunks dc rx callback
     = thenP (iterate callback dc (chunks_of chunk_size (concat rx))) (ret ())
   \<and> concat (chunks_of chunk_size (concat rx)) = concat rx
   \<and> list_all (\<lambda>c. c \<noteq> [] \<and> length c \<le> 16384) (chunks_of chunk_size (concat rx))"
  using chunks_of_sizes [of _ chunk_size "concat rx"]
  by (auto simp: process_in_chunks_def process_received_iterate concat_chunks_of list_all_iff)
    (simp add: chunk_size_def)

lemma process_in_chunks_eq:
  "process_in_chunks dc rx callback
     = thenP (iterate callback dc (chunks_of chunk_size (concat rx))) (ret ())"
  by (simp add: process_in_chunks_def process_received_iterate)

section \<open>Framing\<close>

text \<open>
  The contract of a framing: \<open>frame\<close> makes messages of a value, \<open>unframe\<close> takes the first value
  off a message sequence. Values sent one after the other are read back one after the other.
\<close>

locale framing =
  fixes frame :: "'v \<Rightarrow> 'm list" and unframe :: "'m list \<Rightarrow> 'v \<times> 'm list"
  assumes unframe_frame: "unframe (frame v @ rest) = (v, rest)"
begin

fun unframe_many :: "nat \<Rightarrow> 'm list \<Rightarrow> 'v list \<times> 'm list" where
  "unframe_many 0 ms = ([], ms)"
| "unframe_many (Suc n) ms =
     (case unframe ms of (v, ms') \<Rightarrow> case unframe_many n ms' of (vs, ms'') \<Rightarrow> (v # vs, ms''))"

lemma unframe_many_frames: "unframe_many (length vs) (concat (map frame vs) @ rest) = (vs, rest)"
  by (induction vs) (simp_all add: unframe_frame)

lemma frame_inject: "frame v @ rest = frame w @ rest' \<Longrightarrow> v = w \<and> rest = rest'"
  by (metis Pair_inject unframe_frame)

end

definition frame_string :: "bytes \<Rightarrow> dc_message list" where
  "frame_string bs = map (\<lambda>c. \<lparr>dm_is_string = False, dm_data = c\<rparr>) (chunks_of chunk_size bs)
     @ [\<lparr>dm_is_string = True, dm_data = as_bytes ''0''\<rparr>]"

lemma take_chunks_append:
  "take_chunks (map (\<lambda>c. \<lparr>dm_is_string = False, dm_data = c\<rparr>) cs @ m # rest) =
     (if dm_is_string m then (concat cs, rest)
      else (case take_chunks (m # rest) of (b, r) \<Rightarrow> (concat cs @ b, r)))"
  by (induction cs) (auto split: prod.split)

interpretation chunked: framing frame_string take_chunks
  by unfold_locales (simp add: frame_string_def take_chunks_append concat_chunks_of)

text \<open>The messages among the effects of a program.\<close>

fun sent_message :: "event \<Rightarrow> dc_message list" where
  "sent_message (SentText txt) = [\<lparr>dm_is_string = True, dm_data = as_bytes txt\<rparr>]"
| "sent_message (SentBinary bs) = [\<lparr>dm_is_string = False, dm_data = bs\<rparr>]"
| "sent_message _ = []"

definition sent_messages :: "event list \<Rightarrow> dc_message list" where
  "sent_messages es = concat (map sent_message es)"

lemma sent_messages_simps [simp]:
  "sent_messages [] = []" "sent_messages (e # es) = sent_message e @ sent_messages es"
  "sent_messages (es @ fs) = sent_messages es @ sent_messages fs"
  by (simp_all add: sent_messages_def)

lemma iterate_send_chunk:
  "iterate (send_chunk E) () cs s = (Inr u, s') \<Longrightarrow>
   s' = s\<lparr>rs_trace := rs_trace s @ map SentBinary cs\<rparr>"
proof (induction cs arbitrary: s)
  case (Cons c cs)
  then obtain s1 where s1: "send_binary E c s = (Inr (), s1)" "iterate (send_chunk E) () cs s1 = (Inr u, s')"
    by (cases "send_binary E c s") (auto simp: send_chunk_def [of E "()" c] prog_simps split: sum.splits)
  then have "s1 = s\<lparr>rs_trace := rs_trace s @ [SentBinary c]\<rparr>"
    by (auto simp: send_binary_def send_event_def prog_simps split: option.splits)
  then show ?case
    unfolding Cons.IH [OF s1(2)] by simp
qed (simp add: prog_simps)

lemma sent_binary_messages:
  "sent_messages (map SentBinary cs) = map (\<lambda>c. \<lparr>dm_is_string = False, dm_data = c\<rparr>) cs"
  by (induction cs) simp_all

text \<open>Sending a string in chunks and the delimiter: what is on the wire is its frame.\<close>

lemma send_framed:
  assumes "thenP (send_string_in_chunks () str (send_chunk E)) (send_delimiter E) s = (Inr u, s')"
  shows "\<exists>es. rs_trace s' = rs_trace s @ es \<and> sent_messages es = frame_string (as_bytes str)
    \<and> rs_rx s' = rs_rx s"
proof -
  let ?cs = "chunks_of chunk_size (as_bytes str)"
  obtain s1 where it: "iterate (send_chunk E) () ?cs s = (Inr (), s1)" and d: "send_delimiter E s1 = (Inr (), s')"
    using assms by (auto simp: send_string_in_chunks_def process_in_chunks_eq prog_simps
        split: prod.splits sum.splits)
  from d have "s' = s1\<lparr>rs_trace := rs_trace s1 @ [SentText ''0'']\<rparr>"
    by (auto simp: send_delimiter_def send_text_def send_event_def prog_simps split: option.splits)
  then show ?thesis
    unfolding iterate_send_chunk [OF it]
    by (intro exI [of _ "map SentBinary ?cs @ [SentText ''0'']"])
      (simp add: sent_binary_messages frame_string_def)
qed

text \<open>
  C23. A text sent in chunks with a delimiter arrives: when the sends succeed, the receiver whose
  incoming messages are what was put on the wire, followed by anything, reads exactly the text
  and leaves exactly the rest, whatever the text contains and however long it is.
\<close>

theorem chunked_string_roundtrip:
  assumes "thenP (send_string_in_chunks () str (send_chunk E)) (send_delimiter E) s = (Inr u, s')"
  shows "\<exists>es. rs_trace s' = rs_trace s @ es \<and>
    (\<forall>r rest. rs_rx r = sent_messages es @ rest \<longrightarrow>
       receive_string_from_chunks r = (Inr (as_bytes str), r\<lparr>rs_rx := rest\<rparr>))"
proof -
  obtain es where "rs_trace s' = rs_trace s @ es" "sent_messages es = frame_string (as_bytes str)"
    using send_framed [OF assms] by blast
  then show ?thesis
    by (auto simp: receive_string_from_chunks_def chunked.unframe_frame)
qed

definition calm_env :: env where
  "calm_env = \<lparr>en_send = (\<lambda>_. None), en_status_open = (\<lambda>_. True), en_pin = (\<lambda>_. Answered ''1234''),
     en_pair = (\<lambda>_. Answered True), en_cut = (\<lambda>_. None), en_nonce = (\<lambda>n. replicate n 7),
     en_selection_open = True, en_files_open = True, en_selected = (\<lambda>_. Answered (Some [''f''])),
     en_uuid = (\<lambda>i. ''tok'' @ show_dec i), en_result = (\<lambda>_. Some \<lparr>fr_id = ''f'', fr_success = True, fr_error = None\<rparr>),
     en_data_open = (\<lambda>_. True)\<rparr>"

lemma chunked_string_roundtrip_witness:
  "\<exists>s' es. thenP (send_string_in_chunks () ''hello'' (send_chunk calm_env)) (send_delimiter calm_env)
      \<lparr>rs_rx = [], rs_trace = []\<rparr> = (Inr (), s') \<and> rs_trace s' = es
    \<and> receive_string_from_chunks \<lparr>rs_rx = sent_messages es, rs_trace = []\<rparr>
      = (Inr (as_bytes ''hello''), \<lparr>rs_rx = [], rs_trace = []\<rparr>)"
proof -
  have c: "chunks_of chunk_size (as_bytes ''hello'') = [as_bytes ''hello'']"
    by (rule chunks_of_short) (simp_all add: chunk_size_def as_bytes_def)
  have run: "thenP (send_string_in_chunks () ''hello'' (send_chunk calm_env)) (send_delimiter calm_env)
      \<lparr>rs_rx = [], rs_trace = []\<rparr> =
      (Inr (), \<lparr>rs_rx = [], rs_trace = [SentBinary (as_bytes ''hello''), SentText ''0'']\<rparr>)"
    by (simp add: send_string_in_chunks_def process_in_chunks_eq c send_chunk_def send_binary_def
        send_delimiter_def send_text_def send_event_def calm_env_def prog_simps)
  from chunked_string_roundtrip [OF run] show ?thesis
    by (auto simp: run dest!: spec [of _ "\<lparr>rs_rx = sent_messages _, rs_trace = []\<rparr>"] spec [of _ "[]"])
qed

text \<open>
  A session description survives its transport: decoding the encoded text gives it back
  (for valid UTF-8, which every Rust string is), under the laws of base64 and of zlib.
\<close>

theorem sdp_roundtrip:
  assumes "b64_law X" and "zlib_law Z" and "utf8_valid (as_bytes sdp)"
  shows "decode_sdp X Z (encode_sdp X Z sdp) = Inr sdp"
  using assms by (simp add: decode_sdp_def encode_sdp_def b64_law_def zlib_law_def from_utf8_def)

definition sample_zlib :: zlib where
  "sample_zlib = \<lparr>zl_compress = rev, zl_decompress = (\<lambda>bs. Inr (rev bs))\<rparr>"

lemma sdp_roundtrip_witness:
  "decode_sdp sample_crates sample_zlib (encode_sdp sample_crates sample_zlib ''v=0'') = Inr ''v=0''"
  by (rule sdp_roundtrip) (simp_all add: sample_laws zlib_law_def sample_zlib_def as_bytes_def utf8_cont_def)

end
