(* ===== verification/Rtc_Pin.thy ===== *)
theory Rtc_Pin
  imports Rtc_Chunks
begin

text \<open>
  The handshake pieces both WebRTC tasks share, \<open>webrtc.rs\<close> lines 1078 to 1226: receiving the
  nonce, answering a PIN challenge (\<open>handle_pin\<close>), and posing one (\<open>verify_pin\<close>), which counts
  the attempts in a \<open>u8\<close>. How the challenger reports a wrong PIN differs between the two
  sides; the locale \<open>pin_notice\<close> states what \<open>verify_pin\<close> needs of it.
\<close>

section \<open>Programs\<close>

definition map_error :: "(string \<Rightarrow> string) \<Rightarrow> 'a prog \<Rightarrow> 'a prog" where
  "map_error f p = (\<lambda>s. case p s of (Inl (Anyhow e), s') \<Rightarrow> (Inl (Anyhow (f e)), s') | r \<Rightarrow> r)"

definition receive_nonce :: "('z) crates_scheme \<Rightarrow> bytes prog" where
  "receive_nonce X =
     bindP recv (\<lambda>r. case r of
       None \<Rightarrow> fail ''Failed to receive nonce''
     | Some msg \<Rightarrow>
        if \<not> dm_is_string msg then fail ''Expected string message''
        else bindP (expect ''json'' (from_slice X dec_nonce_message (dm_data msg))) (\<lambda>nonce_msg.
          bindP (expect ''Failed to decode remote nonce'' (x_b64_decode X (nm_nonce nonce_msg)))
            (\<lambda>remote_nonce.
              if \<not> validate_nonce remote_nonce then fail ''Invalid remote nonce''
              else ret remote_nonce)))"

datatype 'a challenge_pin_result =
    CpOk 'a
  | CpPinRequired
  | CpTooManyAttempts
  | CpParseError string

definition ask_user_pin :: "env \<Rightarrow> string prog" where
  "ask_user_pin E =
     bindP (asks (en_pin E)) (\<lambda>a. case a of
       ChannelClosed \<Rightarrow> fail ''Failed to send PIN request''
     | AnswerDropped \<Rightarrow> thenP (emit PinAsked) (fail ''PIN required but not provided'')
     | Answered pin \<Rightarrow> thenP (emit PinAsked) (ret pin))"

definition receive_pin_answer :: "bool \<Rightarrow> bytes prog" where
  "receive_pin_answer receive_in_chunks =
     (if receive_in_chunks then receive_string_from_chunks
      else bindP recv (\<lambda>r. case r of
          None \<Rightarrow> fail ''Failed to receive initial message''
        | Some init_status \<Rightarrow>
           if \<not> dm_is_string init_status then fail ''Expected string message''
           else ret (dm_data init_status)))"

text \<open>
  The loop of \<open>handle_pin\<close>, with fuel: a round takes a message from the peer or ends, so one
  round more than there are messages is enough (\<open>handle_pin_returns\<close> below).
\<close>

fun handle_pin_loop :: "nat \<Rightarrow> env \<Rightarrow> ('z) crates_scheme \<Rightarrow> bool
    \<Rightarrow> (bytes \<Rightarrow> 'a challenge_pin_result) \<Rightarrow> 'a prog" where
  "handle_pin_loop 0 E X in_chunks parse_response = throw Diverged"
| "handle_pin_loop (Suc n) E X in_chunks parse_response =
     thenP (status_send E PinRequired)
    (bindP (ask_user_pin E) (\<lambda>pin.
     thenP (send_text E (to_text X enc_pin_message \<lparr>pm_pin = pin\<rparr>))
    (bindP (receive_pin_answer in_chunks) (\<lambda>answer.
       case parse_response answer of
         CpOk result \<Rightarrow> ret result
       | CpPinRequired \<Rightarrow> handle_pin_loop n E X in_chunks parse_response
       | CpTooManyAttempts \<Rightarrow>
           thenP (status_send E TooManyAttempts) (fail ''Too many requests'')
       | CpParseError e \<Rightarrow> fail e))))"

definition handle_pin :: "env \<Rightarrow> ('z) crates_scheme \<Rightarrow> bool
    \<Rightarrow> (bytes \<Rightarrow> 'a challenge_pin_result) \<Rightarrow> 'a prog" where
  "handle_pin E X in_chunks parse_response =
     (\<lambda>s. handle_pin_loop (Suc (length (rs_rx s))) E X in_chunks parse_response s)"

datatype verify_pin_result = VpPinRequired | VpTooManyAttempts

definition receive_pin :: "('z) crates_scheme \<Rightarrow> string prog" where
  "receive_pin X =
     bindP recv (\<lambda>r. case r of
       None \<Rightarrow> fail ''Failed to receive pin''
     | Some msg \<Rightarrow>
         bindP (expect ''json'' (from_slice X dec_pin_message (dm_data msg))) (\<lambda>pin_req.
           ret (pm_pin pin_req)))"

definition reject_pin :: "env \<Rightarrow> (verify_pin_result \<Rightarrow> unit prog) \<Rightarrow> unit prog" where
  "reject_pin E send_result =
     thenP (timeout E (thenP (attempt (send_result VpTooManyAttempts)) wait_buffer_empty))
    (thenP (status_send E TooManyAttempts) (fail ''Too many requests''))"

function verify_pin_loop :: "env \<Rightarrow> ('z) crates_scheme \<Rightarrow> pin_config
    \<Rightarrow> (verify_pin_result \<Rightarrow> unit prog) \<Rightarrow> bool \<Rightarrow> string \<Rightarrow> u8 \<Rightarrow> unit prog" where
  "verify_pin_loop E X pin_config send_result send_initial_notice remote_pin pin_try =
     (if remote_pin = pc_pin pin_config then ret ()
      else if pc_max_tries pin_config \<le> pin_try then reject_pin E send_result
      else
        thenP (if send_initial_notice \<or> 0 < pin_try then send_result VpPinRequired else ret ())
       (bindP (receive_pin X) (\<lambda>pin.
          verify_pin_loop E X pin_config send_result
            (if send_initial_notice \<or> 0 < pin_try then False else send_initial_notice)
            pin (pin_try + 1))))"
  by pat_completeness auto

lemma unat_try_Suc:
  fixes c m :: u8
  assumes "\<not> m \<le> c"
  shows "unat (c + 1) = Suc (unat c)"
proof -
  have "unat c < unat m" and "unat m < 2 ^ LENGTH(8)"
    using assms by (simp add: word_le_nat_alt, intro unsigned_less)
  then show ?thesis by (simp add: unat_word_ariths)
qed

termination verify_pin_loop
  by (relation "measure (\<lambda>(_, _, cfg, _, _, _, try). unat (pc_max_tries cfg) - unat try)")
    (auto simp: unat_try_Suc word_le_nat_alt)

declare verify_pin_loop.simps [simp del]

definition verify_pin :: "env \<Rightarrow> ('z) crates_scheme \<Rightarrow> pin_config \<Rightarrow> bool
    \<Rightarrow> (verify_pin_result \<Rightarrow> unit prog) \<Rightarrow> unit prog" where
  "verify_pin E X pin_config send_initial_notice send_result =
     thenP (status_send E PinRequired)
       (verify_pin_loop E X pin_config send_result send_initial_notice [] 0)"

text \<open>How the two sides report: the receiver in one text message, the sender in chunks.\<close>

fun receiving_notice :: "env \<Rightarrow> ('z) crates_scheme \<Rightarrow> verify_pin_result \<Rightarrow> unit prog" where
  "receiving_notice E X result =
     send_text E (to_text X enc_pin_receiving
       (case result of VpPinRequired \<Rightarrow> PrPinRequired | VpTooManyAttempts \<Rightarrow> PrTooManyAttempts))"

fun sending_notice :: "env \<Rightarrow> ('z) crates_scheme \<Rightarrow> verify_pin_result \<Rightarrow> unit prog" where
  "sending_notice E X result =
     thenP (send_string_in_chunks () (to_text X enc_pin_sending
       (case result of VpPinRequired \<Rightarrow> PsPinRequired | VpTooManyAttempts \<Rightarrow> PsTooManyAttempts))
       (send_chunk E))
     (send_delimiter E)"

definition parse_pin_receiving :: "('z) crates_scheme \<Rightarrow> bytes \<Rightarrow> unit challenge_pin_result" where
  "parse_pin_receiving X bs =
     (case from_slice X dec_pin_receiving bs of
        None \<Rightarrow> CpParseError ''Failed to parse pin response''
      | Some PrOk \<Rightarrow> CpOk ()
      | Some PrPinRequired \<Rightarrow> CpPinRequired
      | Some PrTooManyAttempts \<Rightarrow> CpTooManyAttempts)"

definition parse_pin_sending :: "('z) crates_scheme \<Rightarrow> bytes \<Rightarrow> file_dto list challenge_pin_result" where
  "parse_pin_sending X bs =
     (case from_slice X dec_pin_sending bs of
        None \<Rightarrow> CpParseError ''Failed to parse pin response''
      | Some (PsOk files) \<Rightarrow> CpOk files
      | Some PsPinRequired \<Rightarrow> CpPinRequired
      | Some PsTooManyAttempts \<Rightarrow> CpTooManyAttempts)"

section \<open>What the pieces may show\<close>

text \<open>
  \<open>silent A P\<close>: only effects of \<open>A\<close> happened and \<open>P\<close> holds of the messages still to come.
\<close>

definition silent :: "event set \<Rightarrow> (dc_message list \<Rightarrow> bool) \<Rightarrow> rtc_state \<Rightarrow> bool" where
  "silent A P s \<longleftrightarrow> set (rs_trace s) \<subseteq> A \<and> P (rs_rx s)"

lemma keeps_emit [triple_intro]: "ev \<in> A \<Longrightarrow> keeps (silent A P) (emit ev)"
  by (rule keepsI) (auto simp: prog_simps silent_def)

lemma keeps_send_event: "ev \<in> A \<Longrightarrow> keeps (silent A P) (send_event E ev)"
  unfolding send_event_def by (intro triple_intro)

lemma keeps_send [triple_intro]:
  "SentText txt \<in> A \<Longrightarrow> keeps (silent A P) (send_text E txt)"
  "SentBinary bs \<in> A \<Longrightarrow> keeps (silent A P) (send_binary E bs)"
  by (simp_all add: send_text_def send_binary_def keeps_send_event)

lemma keeps_status [triple_intro]:
  "StatusSent st \<in> A \<Longrightarrow> keeps (silent A P) (status_send E st)"
  "StatusSent st \<in> A \<Longrightarrow> keeps (silent A P) (status_try E st)"
  unfolding status_send_def status_try_def by (intro triple_intro; assumption)+

lemma keeps_wait [triple_intro]: "BufferEmpty \<in> A \<Longrightarrow> keeps (silent A P) wait_buffer_empty"
  unfolding wait_buffer_empty_def by (rule keeps_emit)

lemma keeps_timeout [triple_intro]: "keeps (silent A P) f \<Longrightarrow> keeps (silent A P) (timeout E f)"
proof (rule keepsI)
  fix s r s'
  assume f: "keeps (silent A P) f" "silent A P s" "timeout E f s = (r, s')"
  obtain q t where run: "f s = (q, t)" by force
  from keepsD [OF f(1) run f(2)] have t: "silent A P t" .
  have "s' = t \<or> (\<exists>n. s' = t\<lparr>rs_trace := take n (rs_trace t)\<rparr>)"
    using f(3) by (auto simp: timeout_def run split: option.splits)
  with t show "silent A P s'"
    by (auto simp: silent_def) (meson in_set_takeD subsetD)
qed

lemma keeps_map_error [triple_intro]: "keeps I f \<Longrightarrow> keeps I (map_error g f)"
  by (rule keepsI) (auto simp: map_error_def dest: keepsD split: prod.splits sum.splits rtc_error.splits)

lemma keeps_recv [triple_intro]:
  "(\<And>m ms. P (m # ms) \<Longrightarrow> P ms) \<Longrightarrow> keeps (silent A P) recv"
  by (rule keepsI) (auto simp: recv_def silent_def split: list.splits)

lemma keeps_iterate: "(\<And>c. c \<in> set cs \<Longrightarrow> SentBinary c \<in> A) \<Longrightarrow>
   keeps (silent A P) (iterate (send_chunk E) () cs)"
  by (induction cs) (auto simp: send_chunk_def intro!: triple_intro)

lemma keeps_send_string [triple_intro]:
  "(\<And>c. c \<in> set (chunks_of chunk_size (as_bytes str)) \<Longrightarrow> SentBinary c \<in> A) \<Longrightarrow>
   keeps (silent A P) (send_string_in_chunks () str (send_chunk E))"
  by (auto simp: send_string_in_chunks_def process_in_chunks_eq intro!: triple_intro keeps_iterate)

lemma keeps_delimiter [triple_intro]:
  "SentText ''0'' \<in> A \<Longrightarrow> keeps (silent A P) (send_delimiter E)"
  unfolding send_delimiter_def by (intro triple_intro)

lemma suffix_take_chunks: "take_chunks ms = (b, r) \<Longrightarrow> \<exists>pre. ms = pre @ r"
proof (induction ms arbitrary: b r)
  case (Cons m ms)
  show ?case
  proof (cases "dm_is_string m")
    case True
    with Cons.prems show ?thesis by (intro exI [of _ "[m]"]) simp
  next
    case False
    then obtain b' where "take_chunks ms = (b', r)"
      using Cons.prems by (auto split: prod.splits)
    from Cons.IH [OF this] obtain pre where "ms = pre @ r" by blast
    then show ?thesis by (intro exI [of _ "m # pre"]) simp
  qed
qed simp

lemma keeps_receive_string [triple_intro]:
  "(\<And>m ms. P (m # ms) \<Longrightarrow> P ms) \<Longrightarrow> keeps (silent A P) receive_string_from_chunks"
proof (rule keepsI)
  fix s r s'
  assume P: "\<And>m ms. P (m # ms) \<Longrightarrow> P ms" and s: "silent A P s"
    and r: "receive_string_from_chunks s = (r, s')"
  have drop: "P (pre @ ms) \<Longrightarrow> P ms" for pre ms
    using P by (induction pre) auto
  obtain b rx where t: "take_chunks (rs_rx s) = (b, rx)" by force
  then show "silent A P s'"
    using r s drop suffix_take_chunks [OF t] by (auto simp: receive_string_from_chunks_def silent_def)
qed

section \<open>The PIN challenge\<close>

text \<open>
  What the challenger needs of the way it reports: reporting consumes no message, and shows
  nothing but the effects of \<open>A\<close>. \<open>pins_seen\<close> says that the messages \<open>ms\<close> carry the PINs \<open>pins\<close>.
\<close>

definition pins_seen :: "('z) crates_scheme \<Rightarrow> dc_message list \<Rightarrow> string list \<Rightarrow> bool" where
  "pins_seen X ms pins \<longleftrightarrow>
     list_all2 (\<lambda>m p. from_slice X dec_pin_message (dm_data m) = Some \<lparr>pm_pin = p\<rparr>) ms pins"

lemma receive_pin_Inr:
  "receive_pin X s = (Inr p, s') \<longleftrightarrow> (\<exists>m. rs_rx s = m # rs_rx s' \<and> s' = s\<lparr>rs_rx := rs_rx s'\<rparr> \<and>
     from_slice X dec_pin_message (dm_data m) = Some \<lparr>pm_pin = p\<rparr>)"
  by (cases "rs_rx s"; cases s; cases s')
    (auto simp: receive_pin_def recv_def expect_def prog_simps split: option.splits)

locale pin_notice =
  fixes send_result :: "verify_pin_result \<Rightarrow> unit prog" and A :: "event set"
  assumes notice_silent: "keeps (silent A P) (send_result r)"
begin

lemma notice_rx: "send_result r s = (q, s') \<Longrightarrow> set (rs_trace s) \<subseteq> A \<Longrightarrow> rs_rx s' = rs_rx s"
  using keepsD [OF notice_silent [of "\<lambda>ms. ms = rs_rx s"]] by (auto simp: silent_def)

lemma verify_loop_silent:
  assumes A: "BufferEmpty \<in> A" "StatusSent TooManyAttempts \<in> A"
    and P: "\<And>m ms. P (m # ms) \<Longrightarrow> P ms"
  shows "keeps (silent A P) (verify_pin_loop E X cfg send_result notice pin try)"
proof (induction "unat (pc_max_tries cfg) - unat try" arbitrary: notice pin "try" rule: less_induct)
  case less
  have reject: "keeps (silent A P) (reject_pin E send_result)"
    unfolding reject_pin_def by (intro triple_intro notice_silent A)
  have ask: "keeps (silent A P) (receive_pin X)"
    unfolding receive_pin_def by (intro triple_intro) (erule P)
  have next_try: "keeps (silent A P) (verify_pin_loop E X cfg send_result n p (try + 1))"
    if "\<not> pc_max_tries cfg \<le> try" for n p
    by (rule less) (use that in \<open>simp add: unat_try_Suc word_le_nat_alt\<close>)
  show ?case
    by (subst verify_pin_loop.simps) (intro triple_intro reject ask notice_silent next_try)
qed

lemma verify_loop_accepts:
  assumes "verify_pin_loop E X cfg send_result notice pin try s = (Inr u, s')" and "set (rs_trace s) \<subseteq> A"
  shows "\<exists>ms pins. rs_rx s = ms @ rs_rx s' \<and> pins_seen X ms pins
    \<and> length pins \<le> unat (pc_max_tries cfg) - unat try
    \<and> last (pin # pins) = pc_pin cfg \<and> pc_pin cfg \<notin> set (butlast (pin # pins))"
  using assms
proof (induction "unat (pc_max_tries cfg) - unat try" arbitrary: notice pin "try" s rule: less_induct)
  case less
  note run = less.prems(1) [unfolded verify_pin_loop.simps [of E X cfg send_result notice pin]]
  show ?case
  proof (cases "pin = pc_pin cfg")
    case True
    with run show ?thesis
      by (intro exI [of _ "[]"]) (simp add: prog_simps pins_seen_def)
  next
    case wrong: False
    have more: "\<not> pc_max_tries cfg \<le> try"
    proof
      assume "pc_max_tries cfg \<le> try"
      with run wrong show False
        by (auto simp: reject_pin_def prog_simps split: prod.splits sum.splits)
    qed
    let ?n = "if notice \<or> 0 < try then send_result VpPinRequired else ret ()"
    obtain s1 s2 p where n: "?n s = (Inr (), s1)" and p: "receive_pin X s1 = (Inr p, s2)"
      and rec: "verify_pin_loop E X cfg send_result
        (if notice \<or> 0 < try then False else notice) p (try + 1) s2 = (Inr u, s')"
      using run wrong more by (auto simp: prog_simps split: prod.splits sum.splits)
    have k: "keeps (silent A (\<lambda>ms. ms = rs_rx s)) ?n"
      by (intro triple_intro notice_silent)
    have "silent A (\<lambda>ms. ms = rs_rx s) s1"
      using keepsD [OF k n] less.prems(2) by (simp add: silent_def)
    then have s1: "set (rs_trace s1) \<subseteq> A" "rs_rx s1 = rs_rx s"
      by (auto simp: silent_def)
    obtain m where m: "rs_rx s1 = m # rs_rx s2" "from_slice X dec_pin_message (dm_data m) = Some \<lparr>pm_pin = p\<rparr>"
      and s2: "s2 = s1\<lparr>rs_rx := rs_rx s2\<rparr>"
      using p by (auto simp: receive_pin_Inr)
    have A2: "set (rs_trace s2) \<subseteq> A"
      using s1 s2 by (metis rtc_state.select_convs(2) rtc_state.surjective rtc_state.update_convs(1))
    have lt: "unat (pc_max_tries cfg) - unat (try + 1) < unat (pc_max_tries cfg) - unat try"
      using more by (simp add: unat_try_Suc word_le_nat_alt)
    obtain ms pins where IH: "rs_rx s2 = ms @ rs_rx s'" "pins_seen X ms pins"
      "length pins \<le> unat (pc_max_tries cfg) - unat (try + 1)"
      "last (p # pins) = pc_pin cfg" "pc_pin cfg \<notin> set (butlast (p # pins))"
      using less.hyps [OF lt rec A2] by blast
    show ?thesis
      using IH m s1 wrong lt
      by (intro exI [of _ "m # ms"] exI [of _ "p # pins"]) (auto simp: pins_seen_def)
  qed
qed

end

definition notice_events :: "('z) crates_scheme \<Rightarrow> event set" where
  "notice_events X =
     {SentText (to_text X enc_pin_receiving r) | r. r \<noteq> PrOk}
     \<union> {SentBinary c | c r. (r = PsPinRequired \<or> r = PsTooManyAttempts)
          \<and> c \<in> set (chunks_of chunk_size (as_bytes (to_text X enc_pin_sending r)))}
     \<union> {SentText ''0''}"

interpretation receiver_notice: pin_notice "receiving_notice E X" "notice_events X \<union> A" for E X A
  by unfold_locales
    (auto intro!: triple_intro simp: notice_events_def split: verify_pin_result.split)

interpretation sender_notice: pin_notice "sending_notice E X" "notice_events X \<union> A" for E X A
  by unfold_locales
    (auto intro!: triple_intro simp: notice_events_def split: verify_pin_result.split)

section \<open>Outcomes when the sends succeed\<close>

definition reliable :: "env \<Rightarrow> bool" where
  "reliable E \<longleftrightarrow> (\<forall>t. en_send E t = None \<and> en_status_open E t)"

definition adds_trace :: "unit prog \<Rightarrow> bool" where
  "adds_trace f \<longleftrightarrow> (\<forall>s. \<exists>es. f s = (Inr (), s\<lparr>rs_trace := rs_trace s @ es\<rparr>))"

lemma adds_ret: "adds_trace (ret ())"
  by (auto simp: adds_trace_def ret_def intro!: exI [of _ "[]"])

lemma adds_emit: "adds_trace (emit ev)"
  by (auto simp: adds_trace_def emit_def)

lemma adds_then:
  assumes "adds_trace f" "adds_trace g"
  shows "adds_trace (thenP f g)"
  unfolding adds_trace_def
proof
  fix s
  obtain es where f: "f s = (Inr (), s\<lparr>rs_trace := rs_trace s @ es\<rparr>)"
    using assms(1) by (auto simp: adds_trace_def)
  obtain fs where "g (s\<lparr>rs_trace := rs_trace s @ es\<rparr>) =
      (Inr (), s\<lparr>rs_trace := (rs_trace s @ es) @ fs\<rparr>)"
    using assms(2) unfolding adds_trace_def
    by (metis rtc_state.ext_inject rtc_state.surjective rtc_state.update_convs(2))
  then show "\<exists>es. thenP f g s = (Inr (), s\<lparr>rs_trace := rs_trace s @ es\<rparr>)"
    using f by (intro exI [of _ "es @ fs"]) (simp add: prog_simps)
qed

lemma adds_send: "reliable E \<Longrightarrow> adds_trace (send_text E txt)" "reliable E \<Longrightarrow> adds_trace (send_binary E bs)"
  by (auto simp: adds_trace_def send_text_def send_binary_def send_event_def reliable_def prog_simps)

lemma adds_status: "reliable E \<Longrightarrow> adds_trace (status_send E st)"
  by (auto simp: adds_trace_def status_send_def reliable_def prog_simps)

lemma adds_iterate: "reliable E \<Longrightarrow> adds_trace (iterate (send_chunk E) () cs)"
proof (induction cs)
  case (Cons c cs)
  then have "adds_trace (thenP (thenP (send_binary E c) (ret ())) (iterate (send_chunk E) () cs))"
    by (intro adds_then adds_send adds_ret)
  then show ?case by (simp add: send_chunk_def [of E "()" c] thenP_def)
qed (simp add: adds_ret)

lemma adds_string: "reliable E \<Longrightarrow> adds_trace (send_string_in_chunks () str (send_chunk E))"
  by (simp add: send_string_in_chunks_def process_in_chunks_eq adds_then adds_iterate adds_ret)

lemma adds_notice: "reliable E \<Longrightarrow> adds_trace (receiving_notice E X r)" "reliable E \<Longrightarrow> adds_trace (sending_notice E X r)"
  by (simp_all add: adds_send adds_then adds_string send_delimiter_def)

lemma adds_timeout:
  assumes "adds_trace f"
  shows "adds_trace (timeout E (thenP (attempt f) wait_buffer_empty))"
  unfolding adds_trace_def
proof
  fix s
  obtain es where f: "f s = (Inr (), s\<lparr>rs_trace := rs_trace s @ es\<rparr>)"
    using assms by (auto simp: adds_trace_def)
  show "\<exists>es. timeout E (thenP (attempt f) wait_buffer_empty) s = (Inr (), s\<lparr>rs_trace := rs_trace s @ es\<rparr>)"
  proof (cases "en_cut E (rs_trace s)")
    case None
    then show ?thesis
      using f by (intro exI [of _ "es @ [BufferEmpty]"])
        (simp add: timeout_def attempt_def wait_buffer_empty_def prog_simps)
  next
    case (Some n)
    then show ?thesis
      using f by (intro exI [of _ "take n (es @ [BufferEmpty])"])
        (simp add: timeout_def attempt_def wait_buffer_empty_def prog_simps)
  qed
qed

lemma run_adds:
  assumes "adds_trace f"
  obtains es where "f s = (Inr (), s\<lparr>rs_trace := rs_trace s @ es\<rparr>)"
  using assms by (auto simp: adds_trace_def)

lemma reject_outcome:
  assumes "reliable E" and "\<And>r. adds_trace (sr r)"
  shows "\<exists>s'. reject_pin E sr s = (Inl (Anyhow ''Too many requests''), s') \<and> rs_rx s' = rs_rx s
    \<and> StatusSent TooManyAttempts \<in> set (rs_trace s')"
proof -
  obtain es where "timeout E (thenP (attempt (sr VpTooManyAttempts)) wait_buffer_empty) s
      = (Inr (), s\<lparr>rs_trace := rs_trace s @ es\<rparr>)"
    using run_adds [OF adds_timeout [OF assms(2)]] .
  then show ?thesis
    using assms(1) by (simp add: reject_pin_def status_send_def reliable_def prog_simps)
qed

lemma verify_loop_outcome:
  assumes rel: "reliable E" and sr: "\<And>r. adds_trace (sr r)"
  shows "pins_seen X ms pins \<Longrightarrow> length pins = unat (pc_max_tries cfg) - unat k \<Longrightarrow>
    rs_rx s = ms @ rest \<Longrightarrow>
    (if pc_pin cfg \<in> set (pin # pins) then \<exists>s'. verify_pin_loop E X cfg sr notice pin k s = (Inr (), s')
     else \<exists>s'. verify_pin_loop E X cfg sr notice pin k s = (Inl (Anyhow ''Too many requests''), s')
       \<and> rs_rx s' = rest \<and> StatusSent TooManyAttempts \<in> set (rs_trace s'))"
proof (induction pins arbitrary: ms notice pin k s)
  case Nil
  then have "pc_max_tries cfg \<le> k" "ms = []"
    by (simp_all add: word_le_nat_alt pins_seen_def)
  then show ?case
    using Nil(3) reject_outcome [of E sr s, OF rel sr]
    by (auto simp: verify_pin_loop.simps [of E X cfg sr notice pin] prog_simps)
next
  case (Cons p pins)
  then obtain m ms' where ms: "ms = m # ms'" "pins_seen X ms' pins"
    "from_slice X dec_pin_message (dm_data m) = Some \<lparr>pm_pin = p\<rparr>"
    by (auto simp: pins_seen_def list_all2_Cons2)
  have lt: "\<not> pc_max_tries cfg \<le> k" and len: "length pins = unat (pc_max_tries cfg) - unat (k + 1)"
  proof -
    show "\<not> pc_max_tries cfg \<le> k" using Cons.prems(2) by (simp add: word_le_nat_alt)
    then show "length pins = unat (pc_max_tries cfg) - unat (k + 1)"
      using Cons.prems(2) by (simp add: unat_try_Suc)
  qed
  let ?notice = "if notice \<or> 0 < k then sr VpPinRequired else ret ()"
  have "adds_trace ?notice" by (simp add: sr adds_ret)
  then obtain es where n: "?notice s = (Inr (), s\<lparr>rs_trace := rs_trace s @ es\<rparr>)"
    by (rule run_adds)
  let ?s = "s\<lparr>rs_rx := ms' @ rest, rs_trace := rs_trace s @ es\<rparr>"
  have r: "receive_pin X (s\<lparr>rs_trace := rs_trace s @ es\<rparr>) = (Inr p, ?s)"
    using ms Cons.prems(3) by (simp add: receive_pin_def recv_def expect_def prog_simps)
  have step: "verify_pin_loop E X cfg sr notice pin k s =
      (if pin = pc_pin cfg then (Inr (), s) else
       verify_pin_loop E X cfg sr (if notice \<or> 0 < k then False else notice) p (k + 1) ?s)"
    using lt n r by (simp add: verify_pin_loop.simps [of E X cfg sr notice pin] prog_simps)
  show ?case
    using Cons.IH [OF ms(2) len, of ?s p "if notice \<or> 0 < k then False else notice"]
    unfolding step by auto
qed

section \<open>Properties\<close>

lemma verify_pin_accepts:
  assumes "verify_pin E X cfg notice sr s = (Inr u, s')"
    and "sr = receiving_notice E X \<or> sr = sending_notice E X"
  shows "pc_pin cfg = [] \<or> (\<exists>ms pins. rs_rx s = ms @ rs_rx s' \<and> pins_seen X ms pins \<and> pins \<noteq> []
    \<and> length pins \<le> unat (pc_max_tries cfg) \<and> last pins = pc_pin cfg
    \<and> pc_pin cfg \<notin> set (butlast pins))"
proof -
  have loop: "\<exists>s1. rs_rx s1 = rs_rx s \<and> verify_pin_loop E X cfg sr notice [] 0 s1 = (Inr u, s')"
    using assms(1) by (auto simp: verify_pin_def status_send_def prog_simps split: if_splits
        intro!: exI [of _ "s\<lparr>rs_trace := rs_trace s @ [StatusSent PinRequired]\<rparr>"])
  then obtain s1 where s1: "rs_rx s1 = rs_rx s" "verify_pin_loop E X cfg sr notice [] 0 s1 = (Inr u, s')"
    by blast
  have "\<exists>ms pins. rs_rx s1 = ms @ rs_rx s' \<and> pins_seen X ms pins
    \<and> length pins \<le> unat (pc_max_tries cfg) - unat (0 :: u8)
    \<and> last ([] # pins) = pc_pin cfg \<and> pc_pin cfg \<notin> set (butlast ([] # pins))"
    using assms(2)
  proof
    assume sr: "sr = receiving_notice E X"
    show ?thesis
      by (rule receiver_notice.verify_loop_accepts [where A = UNIV, OF s1(2) [unfolded sr]]) simp
  next
    assume sr: "sr = sending_notice E X"
    show ?thesis
      by (rule sender_notice.verify_loop_accepts [where A = UNIV, OF s1(2) [unfolded sr]]) simp
  qed
  then obtain ms pins where "rs_rx s = ms @ rs_rx s'" "pins_seen X ms pins"
    "length pins \<le> unat (pc_max_tries cfg)"
    "last ([] # pins) = pc_pin cfg" "pc_pin cfg \<notin> set (butlast ([] # pins))"
    using s1(1) by auto
  then show ?thesis
    by (cases "pins = []") (auto intro!: exI [of _ ms] exI [of _ pins] dest: in_set_butlastD)
qed

text \<open>
  C11. A PIN check only passes when the configured PIN is empty or the peer sent it within the
  allowed number of attempts: the messages consumed are PIN messages, at most \<open>max_tries\<close> of
  them, the last carries the PIN and no earlier one does. This holds in every environment, for both
  sides' way of reporting wrong PINs.
\<close>

theorem verify_pin_sound:
  assumes "verify_pin E X cfg notice sr s = (Inr u, s')"
    and "sr = receiving_notice E X \<or> sr = sending_notice E X"
  shows "pc_pin cfg = [] \<or> (\<exists>ms pins. rs_rx s = ms @ rs_rx s' \<and> pins_seen X ms pins \<and> pins \<noteq> []
    \<and> length pins \<le> unat (pc_max_tries cfg) \<and> last pins = pc_pin cfg
    \<and> pc_pin cfg \<notin> set (butlast pins))"
  using assms by (rule verify_pin_accepts)

text \<open>
  When the sends succeed and the peer answers with \<open>max_tries\<close> PIN messages, the check
  passes exactly if the configured PIN is empty or among them; otherwise it consumes exactly
  these, reports that there were too many attempts and fails.
\<close>

theorem verify_pin_outcome:
  assumes "reliable E" and "sr = receiving_notice E X \<or> sr = sending_notice E X"
    and "pins_seen X ms pins" and "length pins = unat (pc_max_tries cfg)" and "rs_rx s = ms @ rest"
  shows "case verify_pin E X cfg notice sr s of
      (Inr _, s') \<Rightarrow> pc_pin cfg = [] \<or> pc_pin cfg \<in> set pins
    | (Inl e, s') \<Rightarrow> pc_pin cfg \<noteq> [] \<and> pc_pin cfg \<notin> set pins \<and> e = Anyhow ''Too many requests''
        \<and> rs_rx s' = rest \<and> StatusSent TooManyAttempts \<in> set (rs_trace s')"
proof -
  have sr: "adds_trace (sr r)" for r
    using assms(1,2) adds_notice by blast
  let ?s = "s\<lparr>rs_trace := rs_trace s @ [StatusSent PinRequired]\<rparr>"
  have run: "verify_pin E X cfg notice sr s = verify_pin_loop E X cfg sr notice [] 0 ?s"
    using assms(1) by (simp add: verify_pin_def status_send_def reliable_def prog_simps)
  show ?thesis
    using verify_loop_outcome [where sr = sr and cfg = cfg and k = 0 and s = ?s
        and rest = rest and pin = "[]" and notice = notice, OF assms(1) sr assms(3)] assms(4,5)
    unfolding run by (auto split: if_splits)
qed

definition pin_text :: "('z) crates_scheme \<Rightarrow> string \<Rightarrow> dc_message" where
  "pin_text X p = \<lparr>dm_is_string = True, dm_data = as_bytes (to_text X enc_pin_message \<lparr>pm_pin = p\<rparr>)\<rparr>"

lemma pins_seen_texts: "json_law X \<Longrightarrow> pins_seen X (map (pin_text X) ps) ps"
  by (induction ps)
    (simp_all add: pins_seen_def pin_text_def from_slice_to_text nonce_message_codec.json_codec_axioms
      pin_message_codec.json_codec_axioms)

lemma calm_reliable: "reliable calm_env"
  by (simp add: reliable_def calm_env_def)

definition two_tries :: pin_config where
  "two_tries = \<lparr>pc_pin = ''42'', pc_max_tries = 2\<rparr>"

lemma verify_pin_outcome_witness:
  "fst (verify_pin calm_env sample_crates two_tries False (receiving_notice calm_env sample_crates)
      \<lparr>rs_rx = map (pin_text sample_crates) [''41'', ''43''], rs_trace = []\<rparr>)
     = Inl (Anyhow ''Too many requests'')"
  using verify_pin_outcome [OF calm_reliable disjI1 [OF refl] pins_seen_texts [OF sample_laws(2)],
      of "[''41'', ''43'']" two_tries "\<lparr>rs_rx = map (pin_text sample_crates) [''41'', ''43''], rs_trace = []\<rparr>"
        "[]" False]
  by (auto simp: two_tries_def split: prod.splits sum.splits)

lemma verify_pin_sound_witness:
  "\<exists>s' pins. verify_pin calm_env sample_crates two_tries False (receiving_notice calm_env sample_crates)
      \<lparr>rs_rx = map (pin_text sample_crates) [''41'', ''42''], rs_trace = []\<rparr> = (Inr (), s')
    \<and> last pins = ''42'' \<and> length pins \<le> 2"
proof -
  let ?s = "\<lparr>rs_rx = map (pin_text sample_crates) [''41'', ''42''], rs_trace = []\<rparr>"
  let ?v = "verify_pin calm_env sample_crates two_tries False (receiving_notice calm_env sample_crates) ?s"
  have "case ?v of
      (Inr _, s') \<Rightarrow> True | (Inl e, s') \<Rightarrow> ''42'' \<notin> set [''41'', ''42'']"
    using verify_pin_loop.simps verify_loop_outcome [where pins = "[''41'', ''42'']" and cfg = two_tries and k = 0
        and s = "?s\<lparr>rs_trace := [StatusSent PinRequired]\<rparr>" and rest = "[]" and pin = "[]"
        and notice = False and sr = "receiving_notice calm_env sample_crates",
        OF calm_reliable adds_notice(1) [OF calm_reliable] pins_seen_texts [OF sample_laws(2)]]
    by (auto simp: verify_pin_def status_send_def calm_env_def two_tries_def prog_simps
        split: prod.splits sum.splits)
  then obtain s' where run: "?v = (Inr (), s')"
    by (auto split: prod.splits sum.splits)
  from verify_pin_sound [OF run disjI1 [OF refl]] show ?thesis
    using run by (auto simp: two_tries_def)
qed

lemma take_chunks_shorter: "ms = [] \<or> length (snd (take_chunks ms)) < length ms"
proof (induction ms)
  case (Cons m ms)
  then show ?case by (auto split: prod.splits)
qed simp

lemma handle_loop_returns:
  assumes "parse [] \<noteq> CpPinRequired"
  shows "length (rs_rx s) < n \<Longrightarrow> fst (handle_pin_loop n E X in_chunks parse s) \<noteq> Inl Diverged"
proof (induction n arbitrary: s)
  case (Suc n)
  define q where "q = thenP (status_send E PinRequired)
    (bindP (ask_user_pin E) (\<lambda>pin. send_text E (to_text X enc_pin_message \<lparr>pm_pin = pin\<rparr>)))"
  have q: "r \<noteq> Inl Diverged \<and> rs_rx s' = rs_rx s" if "q s = (r, s')" for r s s'
    using that by (auto simp: q_def status_send_def ask_user_pin_def send_text_def send_event_def prog_simps
        split: if_splits answer.splits option.splits prod.splits sum.splits)
  have a: "r \<noteq> Inl Diverged \<and> (\<forall>b. r = Inr b \<longrightarrow> parse b = CpPinRequired \<longrightarrow>
      length (rs_rx s') < length (rs_rx s))" if "receive_pin_answer in_chunks s = (r, s')" for r s s'
    using that assms take_chunks_shorter [of "rs_rx s"]
    by (auto simp: receive_pin_answer_def receive_string_from_chunks_def recv_def prog_simps
        split: if_splits option.splits list.splits prod.splits)
  have split: "handle_pin_loop (Suc n) E X in_chunks parse = thenP q
    (bindP (receive_pin_answer in_chunks) (\<lambda>answer. case parse answer of
         CpOk result \<Rightarrow> ret result
       | CpPinRequired \<Rightarrow> handle_pin_loop n E X in_chunks parse
       | CpTooManyAttempts \<Rightarrow> thenP (status_send E TooManyAttempts) (fail ''Too many requests'')
       | CpParseError e \<Rightarrow> fail e))"
    by (simp add: thenP_def q_def)
  obtain r s1 where r1: "q s = (r, s1)" by force
  obtain b s2 where r2: "receive_pin_answer in_chunks s1 = (b, s2)" by force
  show ?case
  proof (cases r; cases b)
    fix u x
    assume ok: "r = Inr u" "b = Inr x"
    have run: "handle_pin_loop (Suc n) E X in_chunks parse s = (case parse x of
         CpOk result \<Rightarrow> ret result
       | CpPinRequired \<Rightarrow> handle_pin_loop n E X in_chunks parse
       | CpTooManyAttempts \<Rightarrow> thenP (status_send E TooManyAttempts) (fail ''Too many requests'')
       | CpParseError e \<Rightarrow> fail e) s2"
      unfolding split thenP_def bindP_def by (simp add: r1 r2 ok)
    show ?thesis
      using q [OF r1] a [OF r2] ok Suc.prems Suc.IH [of s2] unfolding run
      by (cases "parse x") (auto simp: prog_simps status_send_def)
  qed (use q [OF r1] a [OF r2] in \<open>simp_all add: split thenP_def bindP_def r1 r2 del: handle_pin_loop.simps\<close>)
qed simp

text \<open>
  C21. Answering a PIN challenge always ends: for both ways of reading the answers \<open>handle_pin\<close>
  returns a result or an error after finitely many rounds, given that the JSON parser rejects
  the empty text (this is what the chunked reader yields once the channel is closed).
\<close>

theorem handle_pin_returns:
  assumes "x_json_parse X [] = None"
  shows "fst (handle_pin E X True (parse_pin_sending X) s) \<noteq> Inl Diverged
    \<and> fst (handle_pin E X False (parse_pin_receiving X) s) \<noteq> Inl Diverged"
proof -
  have "parse_pin_sending X [] \<noteq> CpPinRequired" "parse_pin_receiving X [] \<noteq> CpPinRequired"
    using assms by (simp_all add: parse_pin_sending_def parse_pin_receiving_def from_slice_def
        from_text_def of_bytes_def)
  then show ?thesis
    by (simp add: handle_pin_def handle_loop_returns del: handle_pin_loop.simps)
qed

lemma handle_pin_returns_witness:
  "fst (handle_pin calm_env sample_crates True (parse_pin_sending sample_crates)
     \<lparr>rs_rx = [], rs_trace = []\<rparr>) \<noteq> Inl Diverged"
  by (rule conjunct1 [OF handle_pin_returns]) (simp add: sample_crates_def)

end
