(* ===== verification/Rtc_Receiver.thy ===== *)
theory Rtc_Receiver
  imports Rtc_Pin
begin

text \<open>
  The receiving side of a transfer: the task \<open>accept_offer\<close> spawns, \<open>webrtc.rs\<close> lines 665 to
  996, stage by stage: nonces, tokens, the receiver's PIN, the sender's file list, the user's
  choice, the files. A stage that ends the task early with \<open>Ok(())\<close> gives \<open>None\<close>.
\<close>

section \<open>Nonces and tokens\<close>

definition receiver_nonce :: "env \<Rightarrow> ('z) crates_scheme \<Rightarrow> bytes prog" where
  "receiver_nonce E X =
     bindP (receive_nonce X) (\<lambda>remote_nonce.
       (let local_nonce = generate_nonce (en_nonce E) in
        thenP (map_error (\<lambda>e. ''Failed to send nonce: '' @ e)
          (send_text E (to_text X enc_nonce_message \<lparr>nm_nonce = x_b64_encode X local_nonce\<rparr>)))
        (ret (remote_nonce @ local_nonce))))"

definition receive_token :: "('z) crates_scheme \<Rightarrow> string prog" where
  "receive_token X =
     bindP recv (\<lambda>r. case r of
       None \<Rightarrow> fail ''Failed to receive token''
     | Some msg \<Rightarrow>
        if \<not> dm_is_string msg then fail ''Expected string message''
        else bindP (expect ''json'' (from_slice X dec_token_request (dm_data msg)))
          (\<lambda>req. ret (tq_token req)))"

definition check_token ::
    "('z) crates_scheme \<Rightarrow> verifying_token_key \<Rightarrow> string \<Rightarrow> bytes \<Rightarrow> bool prog" where
  "check_token X key token nonce =
     (case verify_token_nonce X key token nonce of None \<Rightarrow> throw Panicked | Some b \<Rightarrow> ret b)"

definition check_sender_token :: "env \<Rightarrow> ('z) crates_scheme \<Rightarrow> verifying_token_key option
    \<Rightarrow> string \<Rightarrow> bytes \<Rightarrow> unit prog" where
  "check_sender_token E X expecting_public_key remote_token nonce =
     (case expecting_public_key of
        None \<Rightarrow> ret ()
      | Some key \<Rightarrow>
          bindP (check_token X key remote_token nonce) (\<lambda>valid.
            if \<not> valid then
              thenP (send_text E (to_text X enc_token_response TokInvalidSignature))
             (thenP wait_buffer_empty (fail ''Invalid token signature or nonce''))
            else ret ()))"

definition answer_token :: "env \<Rightarrow> ('z) crates_scheme \<Rightarrow> signing_token_key \<Rightarrow> pin_config option
    \<Rightarrow> bytes \<Rightarrow> unit prog" where
  "answer_token E X signing_key pin nonce =
     bindP (map_error (\<lambda>e. ''Failed to generate token: '' @ e)
         (lift (generate_token_nonce X signing_key nonce))) (\<lambda>local_token.
       map_error (\<lambda>e. ''Failed to send token: '' @ e)
         (send_text E (to_text X enc_token_response
           (case pin of Some _ \<Rightarrow> TokPinRequired local_token | None \<Rightarrow> TokOk local_token))))"

section \<open>PINs and the file list\<close>

definition challenge_sender :: "env \<Rightarrow> ('z) crates_scheme \<Rightarrow> pin_config option \<Rightarrow> unit prog" where
  "challenge_sender E X pin =
     (case pin of
        None \<Rightarrow> ret ()
      | Some cfg \<Rightarrow>
          thenP (verify_pin E X cfg False (receiving_notice E X))
            (send_text E (to_text X enc_pin_receiving PrOk)))"

definition receive_file_list :: "env \<Rightarrow> ('z) crates_scheme \<Rightarrow> file_dto list prog" where
  "receive_file_list E X =
     bindP receive_string_from_chunks (\<lambda>bytes.
     bindP (expect ''Failed to deserialize file list response'' (from_slice X dec_pin_sending bytes))
       (\<lambda>pin_response. case pin_response of
          PsOk files \<Rightarrow> ret files
        | PsPinRequired \<Rightarrow> handle_pin E X True (parse_pin_sending X)
        | PsTooManyAttempts \<Rightarrow>
            thenP (status_try E (StError ''Unexpected TooManyAttempts response''))
              (fail ''Unexpected TooManyAttempts response'')))"

definition publish_file_list :: "env \<Rightarrow> file_dto list \<Rightarrow> unit prog" where
  "publish_file_list E file_list =
     thenP (status_send E Connected)
       (if en_files_open E then emit (FilesPublished file_list)
        else fail ''Failed to send file list'')"

definition user_selection :: "env \<Rightarrow> ('z) crates_scheme \<Rightarrow> string list option prog" where
  "user_selection E X =
     bindP (asks (en_selected E)) (\<lambda>a. case a of
        Answered (Some selected_files) \<Rightarrow> ret (Some selected_files)
      | Answered None \<Rightarrow>
          thenP (send_string_in_chunks () (to_text X enc_file_list_response FlDeclined) (send_chunk E))
         (thenP (send_delimiter E) (ret None))
      | _ \<Rightarrow> ret None)"

text \<open>A fresh token for each selected file, collected into a \<open>HashMap\<close>.\<close>

fun assign_tokens :: "(nat \<Rightarrow> string) \<Rightarrow> nat \<Rightarrow> string list \<Rightarrow> (string, string) hmap
    \<Rightarrow> (string, string) hmap" where
  "assign_tokens uuid i [] m = m"
| "assign_tokens uuid i (file_id # ids) m =
     assign_tokens uuid (Suc i) ids (hm_insert file_id (uuid i) m)"

definition send_file_tokens :: "env \<Rightarrow> ('z) crates_scheme \<Rightarrow> string list
    \<Rightarrow> (string, string) hmap prog" where
  "send_file_tokens E X selected_files =
     (let file_tokens = assign_tokens (en_uuid E) 0 selected_files hm_new in
      thenP (send_string_in_chunks () (to_text X enc_file_list_response (FlOk file_tokens)) (send_chunk E))
     (thenP (send_delimiter E) (ret file_tokens)))"

section \<open>Receiving the files\<close>

text \<open>\<open>file_state = None\<close> drops the sender half of the file's channel: the file is closed.\<close>

definition close_file :: "rtc_file_state option \<Rightarrow> unit prog" where
  "close_file file_state =
     (case file_state of None \<Rightarrow> ret () | Some st \<Rightarrow> emit (FileClosed (rs_file_id st)))"

definition file_error :: "rtc_send_file_response option \<Rightarrow> string option" where
  "file_error result =
     (case result of
        Some r \<Rightarrow> if fr_success r then None
          else Some (case fr_error r of None \<Rightarrow> ''Unknown error'' | Some e \<Rightarrow> e)
      | None \<Rightarrow> Some ''Failed to receive file result'')"

text \<open>The end of the last file: report its result; whether this was the end of all files.\<close>

definition end_of_file :: "env \<Rightarrow> ('z) crates_scheme \<Rightarrow> dc_message \<Rightarrow> string \<Rightarrow> bool prog" where
  "end_of_file E X msg last_file_id =
     bindP (asks (en_result E)) (\<lambda>result.
       (let error = file_error result in
        thenP (send_text E (to_text X enc_send_file_response
            \<lparr>fr_id = last_file_id, fr_success = (error = None), fr_error = error\<rparr>))
          (if is_delimiter msg then thenP (timeout E wait_buffer_empty) (ret True) else ret False)))"

text \<open>The header of the next file; the new \<open>file_state\<close>.\<close>

definition open_file :: "('z) crates_scheme \<Rightarrow> (string, string) hmap \<Rightarrow> file_dto list
    \<Rightarrow> dc_message \<Rightarrow> rtc_file_state option prog" where
  "open_file X file_tokens file_list msg =
     bindP (expect ''json'' (from_slice X dec_send_file_header (dm_data msg))) (\<lambda>header.
       case hm_get file_tokens (fh_id header) of
         None \<Rightarrow> thenP (error_send (fh_id header) ''File not found'') (ret None)
       | Some entry \<Rightarrow>
           if fh_token header \<noteq> entry
           then thenP (error_send (fh_id header) ''Invalid token'') (ret None)
           else (case find (\<lambda>f. fd_id f = fh_id header) file_list of
               None \<Rightarrow>
                 thenP (error_send (fh_id header) ''Expected size to be available'') (ret None)
             | Some file \<Rightarrow>
                 thenP (emit (FileOpened (fh_id header)))
                   (ret (Some \<lparr>rs_file_id = fh_id header, rs_size = fd_size file\<rparr>))))"

definition receive_message :: "env \<Rightarrow> ('z) crates_scheme \<Rightarrow> (string, string) hmap \<Rightarrow> file_dto list
    \<Rightarrow> dc_message \<Rightarrow> rtc_file_state option \<Rightarrow> rtc_file_state option loop_ctl prog" where
  "receive_message E X file_tokens file_list msg file_state =
     (if dm_is_string msg then
        thenP (close_file file_state)
       (bindP (case file_state of None \<Rightarrow> ret False | Some st \<Rightarrow> end_of_file E X msg (rs_file_id st))
          (\<lambda>finished.
             if finished then ret Break
             else bindP (open_file X file_tokens file_list msg) (\<lambda>new_state. ret (Next new_state))))
      else
        (case file_state of
           Some st \<Rightarrow>
             bindP (asks (en_data_open E)) (\<lambda>b.
               if b then thenP (emit (FileData (rs_file_id st) (dm_data msg))) (ret (Next file_state))
               else fail ''channel closed'')
         | None \<Rightarrow>
             thenP (error_send ''unknown'' ''Received binary data without a header'')
               (ret (Next None))))"

definition receive_files :: "env \<Rightarrow> ('z) crates_scheme \<Rightarrow> (string, string) hmap \<Rightarrow> file_dto list
    \<Rightarrow> unit prog" where
  "receive_files E X file_tokens file_list =
     recv_loop (receive_message E X file_tokens file_list) None"

section \<open>The whole task\<close>

text \<open>Everything up to the point where the user sees the file list.\<close>

definition receiver_handshake :: "env \<Rightarrow> ('z) crates_scheme \<Rightarrow> signing_token_key
    \<Rightarrow> verifying_token_key option \<Rightarrow> pin_config option \<Rightarrow> file_dto list prog" where
  "receiver_handshake E X signing_key expecting_public_key pin =
     bindP (receiver_nonce E X) (\<lambda>nonce.
     bindP (receive_token X) (\<lambda>remote_token.
     thenP (check_sender_token E X expecting_public_key remote_token nonce)
    (thenP (answer_token E X signing_key pin nonce)
    (thenP (challenge_sender E X pin)
       (receive_file_list E X)))))"

definition receive_task :: "env \<Rightarrow> ('z) crates_scheme \<Rightarrow> signing_token_key
    \<Rightarrow> verifying_token_key option \<Rightarrow> pin_config option \<Rightarrow> unit prog" where
  "receive_task E X signing_key expecting_public_key pin =
     bindP (receiver_handshake E X signing_key expecting_public_key pin) (\<lambda>file_list.
     thenP (publish_file_list E file_list)
    (bindP (user_selection E X) (\<lambda>selected. case selected of
       None \<Rightarrow> ret ()
     | Some selected_files \<Rightarrow>
         bindP (send_file_tokens E X selected_files) (\<lambda>file_tokens.
           receive_files E X file_tokens file_list))))"

section \<open>What the stages did when they returned\<close>

lemma send_text_rx: "send_text E txt s = (r, s') \<Longrightarrow> rs_rx s' = rs_rx s"
  by (auto simp: send_text_def send_event_def prog_simps split: option.splits)

lemma receive_nonce_Inr:
  assumes "receive_nonce X s = (Inr n, s')"
  shows "\<exists>m nm. rs_rx s = m # rs_rx s' \<and> dm_is_string m
    \<and> from_slice X dec_nonce_message (dm_data m) = Some nm
    \<and> x_b64_decode X (nm_nonce nm) = Some n \<and> validate_nonce n"
  using assms
  by (auto simp: receive_nonce_def recv_def expect_def prog_simps
      split: list.splits if_splits option.splits)

lemma map_error_Inr [simp]: "map_error f p s = (Inr x, s') \<longleftrightarrow> p s = (Inr x, s')"
  by (auto simp: map_error_def split: prod.splits sum.splits rtc_error.splits)

lemma map_error_rx: "map_error f p s = (r, s') \<Longrightarrow> (\<And>q t. p s = (q, t) \<Longrightarrow> rs_rx t = rs_rx s) \<Longrightarrow> rs_rx s' = rs_rx s"
  by (auto simp: map_error_def split: prod.splits sum.splits rtc_error.splits)

lemma receiver_nonce_Inr:
  assumes "receiver_nonce E X s = (Inr nonce, s')"
  shows "\<exists>m nm n. rs_rx s = m # rs_rx s' \<and> dm_is_string m
    \<and> from_slice X dec_nonce_message (dm_data m) = Some nm
    \<and> x_b64_decode X (nm_nonce nm) = Some n \<and> validate_nonce n
    \<and> nonce = n @ generate_nonce (en_nonce E)"
proof -
  obtain n s1 u where n: "receive_nonce X s = (Inr n, s1)"
    and send: "send_text E (to_text X enc_nonce_message
      \<lparr>nm_nonce = x_b64_encode X (generate_nonce (en_nonce E))\<rparr>) s1 = (Inr u, s')"
    and nonce: "nonce = n @ generate_nonce (en_nonce E)"
    using assms by (auto simp: receiver_nonce_def prog_simps Let_def split: prod.splits sum.splits)
  show ?thesis
    using receive_nonce_Inr [OF n] send_text_rx [OF send] nonce by auto
qed

lemma receive_token_Inr:
  assumes "receive_token X s = (Inr token, s')"
  shows "\<exists>m. rs_rx s = m # rs_rx s' \<and> dm_is_string m
    \<and> from_slice X dec_token_request (dm_data m) = Some \<lparr>tq_token = token\<rparr>"
  using assms
  by (auto simp: receive_token_def recv_def expect_def prog_simps
      split: list.splits if_splits option.splits)

lemma check_sender_token_Inr:
  assumes "check_sender_token E X expecting token nonce s = (Inr u, s')"
  shows "s' = s \<and> (\<forall>key. expecting = Some key \<longrightarrow> verify_token_nonce X key token nonce = Some True)"
  using assms
  by (auto simp: check_sender_token_def check_token_def prog_simps
      split: option.splits if_splits prod.splits sum.splits)

lemma answer_token_Inr:
  assumes "answer_token E X key pin nonce s = (Inr u, s')"
  shows "rs_rx s' = rs_rx s"
  using assms send_text_rx
  by (auto simp: answer_token_def lift_def prog_simps split: prod.splits sum.splits)

definition pin_shown :: "('z) crates_scheme \<Rightarrow> pin_config \<Rightarrow> dc_message list \<Rightarrow> bool" where
  "pin_shown X cfg rx \<longleftrightarrow> pc_pin cfg = [] \<or> (\<exists>ms pins rest. rx = ms @ rest \<and> pins_seen X ms pins
     \<and> pins \<noteq> [] \<and> length pins \<le> unat (pc_max_tries cfg) \<and> last pins = pc_pin cfg)"

lemma challenge_sender_Inr:
  assumes "challenge_sender E X pin s = (Inr u, s')"
  shows "\<forall>cfg. pin = Some cfg \<longrightarrow> pin_shown X cfg (rs_rx s)"
proof (intro allI impI)
  fix cfg
  assume "pin = Some cfg"
  then obtain s1 v where "verify_pin E X cfg False (receiving_notice E X) s = (Inr v, s1)"
    using assms by (auto simp: challenge_sender_def prog_simps split: prod.splits sum.splits)
  from verify_pin_accepts [OF this disjI1 [OF refl]] show "pin_shown X cfg (rs_rx s)"
    by (auto simp: pin_shown_def)
qed

text \<open>
  What the peer must have sent before the user is asked anything: a nonce, a token that the
  expected key (if there is one) accepts for the two nonces, and the PIN (if there is one)
  within the allowed attempts.
\<close>

definition sender_entitled :: "env \<Rightarrow> ('z) crates_scheme \<Rightarrow> verifying_token_key option
    \<Rightarrow> pin_config option \<Rightarrow> dc_message list \<Rightarrow> bool" where
  "sender_entitled E X expecting pin rx \<longleftrightarrow> (\<exists>m1 m2 rest nm n token. rx = m1 # m2 # rest
     \<and> from_slice X dec_nonce_message (dm_data m1) = Some nm
     \<and> x_b64_decode X (nm_nonce nm) = Some n \<and> validate_nonce n
     \<and> from_slice X dec_token_request (dm_data m2) = Some \<lparr>tq_token = token\<rparr>
     \<and> (\<forall>key. expecting = Some key \<longrightarrow>
          verify_token_nonce X key token (n @ generate_nonce (en_nonce E)) = Some True)
     \<and> (\<forall>cfg. pin = Some cfg \<longrightarrow> pin_shown X cfg rest))"

lemma handshake_Inr:
  assumes "receiver_handshake E X key expecting pin s = (Inr files, s')"
  shows "sender_entitled E X expecting pin (rs_rx s)"
proof -
  obtain nonce token s1 s2 s3 s4 s5 u where n: "receiver_nonce E X s = (Inr nonce, s1)"
    and t: "receive_token X s1 = (Inr token, s2)"
    and c: "check_sender_token E X expecting token nonce s2 = (Inr (), s3)"
    and a: "answer_token E X key pin nonce s3 = (Inr (), s4)"
    and p: "challenge_sender E X pin s4 = (Inr u, s5)"
    using assms by (auto simp: receiver_handshake_def prog_simps split: prod.splits sum.splits)
  show ?thesis
    using receiver_nonce_Inr [OF n] receive_token_Inr [OF t] check_sender_token_Inr [OF c]
      answer_token_Inr [OF a] challenge_sender_Inr [OF p]
    unfolding sender_entitled_def by auto
qed

section \<open>Nothing is shown before\<close>

definition revealing :: "event set" where
  "revealing = {FilesPublished fs | fs. True} \<union> {FileOpened i | i. True} \<union> {FileData i d | i d. True}"

lemma not_revealing [simp]:
  "SentText txt \<notin> revealing" "SentBinary b \<notin> revealing" "StatusSent st \<notin> revealing"
  "PinAsked \<notin> revealing" "BufferEmpty \<notin> revealing" "FilesPublished fs \<in> revealing"
  "FileOpened i \<in> revealing" "FileData i d \<in> revealing"
  by (simp_all add: revealing_def)

abbreviation hidden :: "rtc_state \<Rightarrow> bool" where
  "hidden \<equiv> silent (- revealing) (\<lambda>_. True)"

lemma hidden_handle_pin: "keeps hidden (handle_pin_loop n E X in_chunks parse)"
proof (induction n)
  case (Suc n)
  show ?case
    unfolding handle_pin_loop.simps ask_user_pin_def receive_pin_answer_def
    by (intro triple_intro; (simp split: answer.split challenge_pin_result.split)?;
        (intro conjI allI impI triple_intro)?; simp add: Suc)
qed (simp add: triple_intro)

lemma notice_hidden: "notice_events X \<union> (- revealing) = - revealing"
  by (auto simp: notice_events_def)

lemma hidden_verify_pin: "keeps hidden (verify_pin E X cfg notice (receiving_notice E X))"
proof -
  have "keeps hidden (verify_pin_loop E X cfg (receiving_notice E X) notice pin k)" for pin k
    by (rule receiver_notice.verify_loop_silent
        [where A = "- revealing" and P = "\<lambda>_. True", unfolded notice_hidden]) simp_all
  then show ?thesis
    unfolding verify_pin_def by (intro triple_intro) simp_all
qed

lemma hidden_handshake: "keeps hidden (receiver_handshake E X key expecting pin)"
proof -
  have nonce: "keeps hidden (receiver_nonce E X)"
    unfolding receiver_nonce_def receive_nonce_def Let_def by (intro triple_intro) simp_all
  have token: "keeps hidden (receive_token X)"
    unfolding receive_token_def by (intro triple_intro) simp_all
  have check: "keeps hidden (check_sender_token E X expecting t n)" for t n
    unfolding check_sender_token_def check_token_def by (intro triple_intro) simp_all
  have answer: "keeps hidden (answer_token E X key pin n)" for n
    unfolding answer_token_def by (intro triple_intro) simp_all
  have challenge: "keeps hidden (challenge_sender E X pin)"
    unfolding challenge_sender_def by (intro triple_intro hidden_verify_pin) simp_all
  have pin: "keeps hidden (handle_pin E X True (parse_pin_sending X))"
    unfolding handle_pin_def by (rule keepsI) (rule keepsD [OF hidden_handle_pin])
  have files: "keeps hidden (receive_file_list E X)"
    unfolding receive_file_list_def
    by (intro triple_intro; (simp split: rtc_pin_sending_response.split)?;
        (intro conjI allI impI triple_intro)?; simp add: pin)
  show ?thesis
    unfolding receiver_handshake_def
    by (intro keeps_bind keeps_then nonce token check answer challenge files)
qed

lemma revealed_after_handshake:
  assumes run: "receive_task E X key expecting pin s = (r, s')" and start: "rs_trace s = []"
    and ev: "ev \<in> set (rs_trace s')" "ev \<in> revealing"
  obtains files s1 where "receiver_handshake E X key expecting pin s = (Inr files, s1)"
    and "hidden s1"
proof -
  obtain q s1 where h: "receiver_handshake E X key expecting pin s = (q, s1)" by force
  have s1: "hidden s1"
    using keepsD [OF hidden_handshake h] start by (simp add: silent_def)
  show thesis
  proof (cases q)
    case (Inl e)
    then have "s' = s1"
      using run h by (simp add: receive_task_def bindP_def)
    then show thesis using s1 ev by (auto simp: silent_def)
  next
    case (Inr files)
    then show thesis using that h s1 by simp
  qed
qed

text \<open>
  C6. The receiver shows nothing to the user and hands out no data before the sender is
  entitled: if the task ever published the file list, opened a file or passed on data, then the
  sender's first message was a nonce of valid length, its second a token that the expected key
  (when one is configured) accepts for the concatenation of both nonces, and the sender sent the
  configured PIN (when there is a non-empty one) within the allowed number of attempts. This
  holds for every environment and every sequence of incoming messages.
\<close>

theorem receiver_reveals_only_to_entitled:
  assumes "receive_task E X key expecting pin s = (r, s')" and "rs_trace s = []"
    and "ev \<in> set (rs_trace s')" and "ev \<in> revealing"
  shows "sender_entitled E X expecting pin (rs_rx s)"
  using revealed_after_handshake [OF assms] handshake_Inr by metis

definition text_msg :: "string \<Rightarrow> dc_message" where
  "text_msg txt = \<lparr>dm_is_string = True, dm_data = as_bytes txt\<rparr>"

text \<open>A sender that shows a nonce, a token and an empty file list, and a user that walks away.\<close>

definition polite_rx :: "string \<Rightarrow> dc_message list" where
  "polite_rx token =
     text_msg (to_text sample_crates enc_nonce_message \<lparr>nm_nonce = x_b64_encode sample_crates (replicate 16 1)\<rparr>)
     # text_msg (to_text sample_crates enc_token_request \<lparr>tq_token = token\<rparr>)
     # frame_string (as_bytes (to_text sample_crates enc_pin_sending (PsOk [])))"

definition leaving_env :: env where
  "leaving_env = calm_env\<lparr>en_selected := (\<lambda>_. AnswerDropped)\<rparr>"

lemma polite_receive:
  "\<exists>s'. receive_task leaving_env sample_crates sample_key None None
      \<lparr>rs_rx = polite_rx token, rs_trace = []\<rparr> = (Inr (), s') \<and> FilesPublished [] \<in> set (rs_trace s')"
proof -
  let ?X = sample_crates
  note [simp] = from_slice_to_text [OF sample_laws(2) nonce_message_codec.json_codec_axioms]
    from_slice_to_text [OF sample_laws(2) token_request_codec.json_codec_axioms]
    from_slice_to_text [OF sample_laws(2) pin_sending_codec.json_codec_axioms]
  have b64: "x_b64_decode ?X (x_b64_encode ?X bs) = Some bs" for bs
    using sample_laws(3) by (simp add: b64_law_def)
  obtain tok where tok: "generate_token_nonce ?X sample_key (replicate 16 1 @ replicate 32 7) = Inr tok"
    using sample_token by blast
  have frame: "take_chunks (frame_string bs) = (bs, [])" for bs
    using chunked.unframe_frame [of bs "[]"] by simp
  show ?thesis
    by (simp add: receive_task_def receiver_handshake_def receiver_nonce_def receive_nonce_def recv_def
        polite_rx_def text_msg_def expect_def b64 validate_nonce_def generate_nonce_def leaving_env_def
        calm_env_def map_error_def send_text_def send_event_def receive_token_def check_sender_token_def
        answer_token_def lift_def tok challenge_sender_def receive_file_list_def frame
        receive_string_from_chunks_def publish_file_list_def status_send_def user_selection_def
        prog_simps Let_def)
qed

lemma receiver_reveals_only_to_entitled_witness:
  "\<exists>token. sender_entitled leaving_env sample_crates None None (polite_rx token)"
proof -
  obtain s' where run: "receive_task leaving_env sample_crates sample_key None None
      \<lparr>rs_rx = polite_rx [], rs_trace = []\<rparr> = (Inr (), s')" and ev: "FilesPublished [] \<in> set (rs_trace s')"
    using polite_receive by blast
  have "sender_entitled leaving_env sample_crates None None (rs_rx \<lparr>rs_rx = polite_rx [], rs_trace = []\<rparr>)"
    by (rule receiver_reveals_only_to_entitled [OF run _ ev]) simp_all
  then show ?thesis by auto
qed

section \<open>The file loop\<close>

text \<open>
  The invariant of the loop: only files of the list with a token are opened, on the sender
  showing this token; data only goes to a file that was opened; the file state is one of them.
\<close>

definition header_shown :: "('z) crates_scheme \<Rightarrow> (string, string) hmap \<Rightarrow> dc_message list \<Rightarrow> string \<Rightarrow> bool" where
  "header_shown X tokens ms i \<longleftrightarrow> (\<exists>m \<in> set ms. \<exists>h. dm_is_string m
     \<and> from_slice X dec_send_file_header (dm_data m) = Some h \<and> fh_id h = i
     \<and> hm_get tokens i = Some (fh_token h))"

definition files_inv :: "('z) crates_scheme \<Rightarrow> (string, string) hmap \<Rightarrow> file_dto list
    \<Rightarrow> dc_message list \<Rightarrow> rtc_file_state option \<Rightarrow> rtc_state \<Rightarrow> bool" where
  "files_inv X tokens files ms st s \<longleftrightarrow>
     (\<forall>i. FileOpened i \<in> set (rs_trace s) \<longrightarrow> header_shown X tokens ms i \<and> i \<in> fd_id ` set files)
     \<and> (\<forall>i d. FileData i d \<in> set (rs_trace s) \<longrightarrow> FileOpened i \<in> set (rs_trace s))
     \<and> (\<forall>f. st = Some f \<longrightarrow> FileOpened (rs_file_id f) \<in> set (rs_trace s))"

lemma files_inv_weaken: "files_inv X tokens files ms st s \<Longrightarrow> files_inv X tokens files ms None s"
  by (simp add: files_inv_def)

lemma files_inv_emit:
  "files_inv X tokens files ms st s \<Longrightarrow> ev \<notin> revealing \<Longrightarrow>
   files_inv X tokens files ms st (s\<lparr>rs_trace := rs_trace s @ [ev]\<rparr>)"
  by (auto simp: files_inv_def)

lemma keeps_files_emit:
  "ev \<notin> revealing \<Longrightarrow> keeps (files_inv X tokens files ms st) (emit ev)"
  by (rule keepsI) (auto simp: prog_simps intro: files_inv_emit)

lemma keeps_files_send: "keeps (files_inv X tokens files ms st) (send_text E txt)"
  unfolding send_text_def send_event_def by (intro triple_intro keeps_files_emit) simp

lemma keeps_files_timeout: "keeps (files_inv X tokens files ms st) (timeout E wait_buffer_empty)"
proof (rule keepsI)
  fix s r s'
  assume inv: "files_inv X tokens files ms st s" and run: "timeout E wait_buffer_empty s = (r, s')"
  have "s' = s\<lparr>rs_trace := rs_trace s @ [BufferEmpty]\<rparr> \<or> s' = s"
  proof (cases "en_cut E (rs_trace s)")
    case (Some n)
    then show ?thesis
      using run by (cases n) (auto simp: timeout_def wait_buffer_empty_def prog_simps)
  qed (use run in \<open>auto simp: timeout_def wait_buffer_empty_def prog_simps\<close>)
  then show "files_inv X tokens files ms st s'"
    using inv files_inv_emit [OF inv, of BufferEmpty] by auto
qed

lemma keeps_end_of_file: "keeps (files_inv X tokens files ms st) (end_of_file E X m i)"
  unfolding end_of_file_def Let_def
  by (intro triple_intro keeps_files_send keeps_files_timeout)

lemma open_file_inv:
  assumes "open_file X tokens files m s = (r, s')" and "files_inv X tokens files ms None s"
    and "m \<in> set ms" and "dm_is_string m"
  shows "files_inv X tokens files ms (case r of Inr st' \<Rightarrow> st' | Inl _ \<Rightarrow> None) s'"
proof -
  have err: "files_inv X tokens files ms None (s\<lparr>rs_trace := rs_trace s @ [FileErrorSent e]\<rparr>)" for e
    by (rule files_inv_emit [OF assms(2)]) (simp add: revealing_def)
  have new: "files_inv X tokens files ms (Some \<lparr>rs_file_id = i, rs_size = z\<rparr>)
      (s\<lparr>rs_trace := rs_trace s @ [FileOpened i]\<rparr>)"
    if "header_shown X tokens ms i" "i \<in> fd_id ` set files" for i z
    using assms(2) that by (auto simp: files_inv_def)
  have listed: "i \<in> fd_id ` set files" if "find (\<lambda>f. fd_id f = i) files = Some x" for i x
    using that by (auto simp: find_Some_iff)
  have shown: "header_shown X tokens ms (fh_id h)"
    if "from_slice X dec_send_file_header (dm_data m) = Some h" "hm_get tokens (fh_id h) = Some (fh_token h)"
    for h
    using that assms(3,4) by (auto simp: header_shown_def)
  show ?thesis
    using assms(1) err assms(2)
    by (auto simp: open_file_def error_send_def expect_def prog_simps intro!: new shown listed
        split: option.splits if_splits)
qed

lemma receive_message_inv:
  assumes run: "receive_message E X tokens files m st s = (r, s')"
    and inv: "files_inv X tokens files ms st s" and m: "m \<in> set ms"
  shows "files_inv X tokens files ms (case r of Inr (Next st') \<Rightarrow> st' | _ \<Rightarrow> None) s'"
proof (cases "dm_is_string m")
  case False
  show ?thesis
  proof (cases st)
    case None
    then show ?thesis
      using run inv False files_inv_emit [OF inv]
      by (auto simp: receive_message_def error_send_def prog_simps revealing_def)
  next
    case (Some f)
    have "files_inv X tokens files ms st (s\<lparr>rs_trace := rs_trace s @ [FileData (rs_file_id f) d]\<rparr>)" for d
      using inv Some by (auto simp: files_inv_def)
    then show ?thesis
      using run False Some files_inv_weaken [OF inv]
      by (auto simp: receive_message_def prog_simps split: if_splits)
  qed
next
  case True
  let ?close = "close_file st"
  let ?fin = "case st of None \<Rightarrow> ret False | Some f \<Rightarrow> end_of_file E X m (rs_file_id f)"
  obtain q1 s1 where c: "?close s = (q1, s1)" by force
  have s1: "files_inv X tokens files ms None s1" and q1: "q1 = Inr ()"
    using c inv files_inv_emit [OF files_inv_weaken [OF inv]]
    by (auto simp: close_file_def prog_simps revealing_def split: option.splits)
  obtain q2 s2 where e: "?fin s1 = (q2, s2)" by force
  have s2: "files_inv X tokens files ms None s2"
    using keepsD [OF keeps_end_of_file _ s1] e s1 by (auto simp: prog_simps split: option.splits)
  show ?thesis
  proof (cases q2)
    case (Inl x)
    then show ?thesis
      using run True c q1 e s2 by (auto simp: receive_message_def prog_simps)
  next
    case (Inr finished)
    obtain q3 s3 where o: "open_file X tokens files m s2 = (q3, s3)" by force
    from open_file_inv [OF o s2 m True]
    show ?thesis
      using run True c q1 e s2 Inr o
      by (cases q3) (auto simp: receive_message_def prog_simps split: if_splits)
  qed
qed

lemma files_inv_set_rx: "files_inv X tokens files ms st (s\<lparr>rs_rx := rx\<rparr>) = files_inv X tokens files ms st s"
  by (simp add: files_inv_def)

lemma receive_loop_inv:
  "files_inv X tokens files ms st s \<Longrightarrow> set rx \<subseteq> set ms \<Longrightarrow>
   while_recv (receive_message E X tokens files) rx st s = (r, s') \<Longrightarrow>
   files_inv X tokens files ms None s'"
proof (induction rx arbitrary: st s)
  case Nil
  then show ?case by (auto simp: prog_simps intro: files_inv_weaken)
next
  case (Cons m rx)
  obtain q s1 where b: "receive_message E X tokens files m st (s\<lparr>rs_rx := rx\<rparr>) = (q, s1)" by force
  have inv: "files_inv X tokens files ms (case q of Inr (Next st') \<Rightarrow> st' | _ \<Rightarrow> None) s1"
    using receive_message_inv [OF b] Cons.prems by (simp add: files_inv_set_rx)
  show ?case
    using Cons.prems(2,3) Cons.IH [of _ s1] b inv
    by (cases q) (auto simp: prog_simps split: loop_ctl.splits)
qed

text \<open>
  C8. The file loop, on any incoming messages and in any environment: a file is only opened if the
  sender showed a header with this id and with exactly the token handed out for it, and the
  file is in the sender's own list; data is only ever passed on to a file opened before. So
  nothing the user did not select is written.
\<close>

theorem only_accepted_files_received:
  assumes "receive_files E X tokens files s = (r, s')" and "rs_trace s = []"
  shows "(\<forall>i. FileOpened i \<in> set (rs_trace s') \<longrightarrow>
      i \<in> set (hm_keys tokens) \<and> header_shown X tokens (rs_rx s) i \<and> i \<in> fd_id ` set files)
    \<and> (\<forall>i d. FileData i d \<in> set (rs_trace s') \<longrightarrow> FileOpened i \<in> set (rs_trace s'))"
proof -
  have "files_inv X tokens files (rs_rx s) None s"
    using assms(2) by (simp add: files_inv_def)
  then have "files_inv X tokens files (rs_rx s) None s'"
    using receive_loop_inv [of X tokens files "rs_rx s" None s "rs_rx s" E r s'] assms(1)
    by (simp add: receive_files_def recv_loop_def)
  moreover have "i \<in> set (hm_keys tokens)" if "header_shown X tokens (rs_rx s) i" for i
    using that hm_get_None_iff [of tokens i] by (auto simp: header_shown_def)
  ultimately show ?thesis
    by (auto simp: files_inv_def)
qed

section \<open>Delivery\<close>

text \<open>
  What the sender puts on the wire for its files (proved of the sender's code in the theory of the
  sending side) and what the app should get for it.
\<close>

definition header_msg :: "('z) crates_scheme \<Rightarrow> string \<Rightarrow> string \<Rightarrow> dc_message" where
  "header_msg X i tok = \<lparr>dm_is_string = True,
     dm_data = as_bytes (to_text X enc_send_file_header \<lparr>fh_id = i, fh_token = tok\<rparr>)\<rparr>"

definition binary_msg :: "bytes \<Rightarrow> dc_message" where
  "binary_msg d = \<lparr>dm_is_string = False, dm_data = d\<rparr>"

definition delimiter_msg :: dc_message where
  "delimiter_msg = \<lparr>dm_is_string = True, dm_data = as_bytes ''0''\<rparr>"

definition file_msgs :: "('z) crates_scheme \<Rightarrow> (string, string) hmap \<Rightarrow> string \<times> bytes list
    \<Rightarrow> dc_message list" where
  "file_msgs X tokens f = header_msg X (fst f) (the (hm_get tokens (fst f))) # map binary_msg (snd f)"

definition file_script :: "string \<times> bytes list \<Rightarrow> event list" where
  "file_script f = FileOpened (fst f) # map (FileData (fst f)) (snd f) @ [FileClosed (fst f)]"

fun is_file_event :: "event \<Rightarrow> bool" where
  "is_file_event (FileOpened _) = True"
| "is_file_event (FileData _ _) = True"
| "is_file_event (FileClosed _) = True"
| "is_file_event _ = False"

abbreviation file_events :: "rtc_state \<Rightarrow> event list" where
  "file_events s \<equiv> filter is_file_event (rs_trace s)"

text \<open>The text of a JSON object has at least its two braces.\<close>

definition object_text_law :: "('z) crates_scheme \<Rightarrow> bool" where
  "object_text_law X \<longleftrightarrow> (\<forall>kvs. 2 \<le> length (x_json_print X (JObj kvs)))"

lemma header_not_delimiter: "object_text_law X \<Longrightarrow> \<not> is_delimiter (header_msg X i tok)"
  by (auto simp: is_delimiter_def header_msg_def object_text_law_def to_text_def enc_send_file_header_def
      not_le Suc_le_eq numeral_2_eq_2)

definition closing :: "rtc_file_state option \<Rightarrow> event list" where
  "closing st = (case st of None \<Rightarrow> [] | Some f \<Rightarrow> [FileClosed (rs_file_id f)])"

lemma close_file_run: "close_file st s = (Inr (), s\<lparr>rs_trace := rs_trace s @ closing st\<rparr>)"
  by (cases st) (simp_all add: close_file_def closing_def prog_simps)

text \<open>
  What receiving files may add to the trace: it asks the user nothing and opens listed files only.
  The app keeps reading as long as nothing else happens.
\<close>

fun receiving :: "file_dto list \<Rightarrow> event \<Rightarrow> bool" where
  "receiving files (FileOpened i) = (i \<in> fd_id ` set files)"
| "receiving files PinAsked = False"
| "receiving files (FilesPublished _) = False"
| "receiving files _ = True"

definition keeps_reading :: "env \<Rightarrow> file_dto list \<Rightarrow> event list \<Rightarrow> bool" where
  "keeps_reading E files tr \<longleftrightarrow> (\<forall>es. list_all (receiving files) es \<longrightarrow> en_data_open E (tr @ es))"

lemma keeps_reading_on:
  "keeps_reading E files tr \<Longrightarrow> list_all (receiving files) es \<Longrightarrow> keeps_reading E files (tr @ es)"
  by (simp add: keeps_reading_def)

lemma keeps_reading_now: "keeps_reading E files tr \<Longrightarrow> en_data_open E tr"
  unfolding keeps_reading_def by (metis append_Nil2 list.pred_inject(1))

lemma end_of_file_run:
  assumes "reliable E"
  shows "\<exists>s' es. end_of_file E X m i s = (Inr (is_delimiter m), s') \<and> rs_rx s' = rs_rx s
    \<and> rs_trace s' = rs_trace s @ es \<and> filter is_file_event es = [] \<and> list_all (receiving files) es"
proof -
  have t: "\<exists>s' es. timeout E wait_buffer_empty s = (Inr (), s') \<and> rs_rx s' = rs_rx s
      \<and> rs_trace s' = rs_trace s @ es \<and> filter is_file_event es = [] \<and> list_all (receiving files) es" for s
  proof (cases "en_cut E (rs_trace s)")
    case (Some n)
    then show ?thesis by (cases n) (simp_all add: timeout_def wait_buffer_empty_def prog_simps)
  qed (simp add: timeout_def wait_buffer_empty_def prog_simps)
  obtain q where "en_result E (rs_trace s) = q" by simp
  let ?sent = "SentText (to_text X enc_send_file_response
      \<lparr>fr_id = i, fr_success = (file_error q = None), fr_error = file_error q\<rparr>)"
  let ?s = "s\<lparr>rs_trace := rs_trace s @ [?sent]\<rparr>"
  obtain s' es where "timeout E wait_buffer_empty ?s = (Inr (), s')" "rs_rx s' = rs_rx ?s"
    "rs_trace s' = rs_trace ?s @ es" "filter is_file_event es = []" "list_all (receiving files) es"
    using t [of ?s] by blast
  then show ?thesis
    using assms \<open>en_result E (rs_trace s) = q\<close>
    by (intro exI [of _ "if is_delimiter m then s' else ?s"] exI [of _ "if is_delimiter m then ?sent # es else [?sent]"])
      (simp add: end_of_file_def send_text_def send_event_def reliable_def prog_simps Let_def)
qed

lemma closing_events: "filter is_file_event (closing st) = closing st" "list_all (receiving files) (closing st)"
  by (cases st; simp add: closing_def)+

lemma header_step:
  assumes X: "json_law X" "object_text_law X" and E: "reliable E"
    and tok: "hm_get tokens i = Some tok" and listed: "find (\<lambda>f. fd_id f = i) files = Some f"
  shows "\<exists>s' st' es. receive_message E X tokens files (header_msg X i tok) st s = (Inr (Next (Some st')), s')
    \<and> rs_file_id st' = i \<and> rs_rx s' = rs_rx s \<and> rs_trace s' = rs_trace s @ es
    \<and> filter is_file_event es = closing st @ [FileOpened i] \<and> list_all (receiving files) es"
proof -
  let ?m = "header_msg X i tok"
  have str: "dm_is_string ?m"
    by (simp add: header_msg_def)
  have header: "from_slice X dec_send_file_header (dm_data ?m) = Some \<lparr>fh_id = i, fh_token = tok\<rparr>"
    by (simp add: header_msg_def from_slice_to_text [OF X(1) send_file_header_codec.json_codec_axioms])
  have in_list: "i \<in> fd_id ` set files"
    using listed by (auto simp: find_Some_iff)
  let ?s = "s\<lparr>rs_trace := rs_trace s @ closing st\<rparr>"
  obtain s1 es where s1: "(case st of None \<Rightarrow> ret False | Some g \<Rightarrow> end_of_file E X ?m (rs_file_id g)) ?s
      = (Inr False, s1)" "rs_rx s1 = rs_rx s" "rs_trace s1 = rs_trace ?s @ es"
    "filter is_file_event es = []" "list_all (receiving files) es"
  proof (cases st)
    case None
    show thesis by (rule that [of ?s "[]"]) (simp_all add: None prog_simps)
  next
    case (Some g)
    then show thesis
      using end_of_file_run [OF E, of X ?m "rs_file_id g" ?s files] header_not_delimiter [OF X(2)] that
      by auto
  qed
  have "open_file X tokens files ?m s1 = (Inr (Some \<lparr>rs_file_id = i, rs_size = fd_size f\<rparr>),
      s1\<lparr>rs_trace := rs_trace s1 @ [FileOpened i]\<rparr>)"
    using tok listed by (simp add: open_file_def header expect_def prog_simps)
  then show ?thesis
    using s1 str in_list
    by (intro exI [of _ "s1\<lparr>rs_trace := rs_trace s1 @ [FileOpened i]\<rparr>"]
        exI [of _ "\<lparr>rs_file_id = i, rs_size = fd_size f\<rparr>"] exI [of _ "closing st @ es @ [FileOpened i]"])
      (simp add: receive_message_def close_file_run closing_events prog_simps)
qed

lemma delimiter_step:
  assumes "reliable E"
  shows "\<exists>s'. receive_message E X tokens files delimiter_msg (Some f) s = (Inr Break, s')
    \<and> rs_rx s' = rs_rx s \<and> file_events s' = file_events s @ [FileClosed (rs_file_id f)]"
proof -
  let ?s = "s\<lparr>rs_trace := rs_trace s @ closing (Some f)\<rparr>"
  obtain s1 where "end_of_file E X delimiter_msg (rs_file_id f) ?s = (Inr (is_delimiter delimiter_msg), s1)"
    "rs_rx s1 = rs_rx s" "file_events s1 = file_events ?s"
    using end_of_file_run [OF assms, of X delimiter_msg "rs_file_id f" ?s "[]"] by auto
  moreover have "is_delimiter delimiter_msg" "dm_is_string delimiter_msg"
    by (simp_all add: is_delimiter_def delimiter_msg_def)
  ultimately show ?thesis
    by (simp add: receive_message_def close_file_run prog_simps closing_def)
qed

lemma chunks_run:
  "rs_rx s = map binary_msg cs @ rest \<Longrightarrow> keeps_reading E files (rs_trace s) \<Longrightarrow>
    while_recv (receive_message E X tokens files) (map binary_msg cs @ rest) (Some f) s =
    while_recv (receive_message E X tokens files) rest (Some f)
      (s\<lparr>rs_rx := rest, rs_trace := rs_trace s @ map (FileData (rs_file_id f)) cs\<rparr>)"
proof (induction cs arbitrary: s)
  case Nil
  then show ?case by (cases s) simp
next
  case (Cons c cs)
  let ?s = "s\<lparr>rs_rx := map binary_msg cs @ rest,
    rs_trace := rs_trace s @ [FileData (rs_file_id f) c]\<rparr>"
  have "while_recv (receive_message E X tokens files) (map binary_msg (c # cs) @ rest) (Some f) s
      = while_recv (receive_message E X tokens files) (map binary_msg cs @ rest) (Some f) ?s"
    using keeps_reading_now [OF Cons.prems(2)] by (simp add: binary_msg_def receive_message_def prog_simps)
  then show ?case
    using Cons.IH [of ?s] keeps_reading_on [OF Cons.prems(2), of "[FileData (rs_file_id f) c]"] by simp
qed

lemma files_run:
  assumes X: "json_law X" "object_text_law X" and E: "reliable E"
  shows "rs_rx s = concat (map (file_msgs X tokens) fs) @ delimiter_msg # rest \<Longrightarrow> fs \<noteq> [] \<or> st \<noteq> None \<Longrightarrow>
    \<forall>f \<in> set fs. hm_get tokens (fst f) \<noteq> None \<and> fst f \<in> fd_id ` set files \<Longrightarrow>
    keeps_reading E files (rs_trace s) \<Longrightarrow>
    \<exists>s'. while_recv (receive_message E X tokens files) (rs_rx s) st s = (Inr (), s') \<and> rs_rx s' = rest
      \<and> file_events s' = file_events s @ closing st @ concat (map file_script fs)"
proof (induction fs arbitrary: st s)
  case Nil
  then obtain f where st: "st = Some f" by auto
  obtain s' where "receive_message E X tokens files delimiter_msg (Some f) (s\<lparr>rs_rx := rest\<rparr>) = (Inr Break, s')"
    "rs_rx s' = rest" "file_events s' = file_events s @ [FileClosed (rs_file_id f)]"
    using delimiter_step [OF E, of X tokens files f "s\<lparr>rs_rx := rest\<rparr>"] by auto
  then show ?case
    using Nil(1) by (simp add: st prog_simps closing_def)
next
  case (Cons fc fs)
  obtain i cs where fc: "fc = (i, cs)" by force
  obtain tok where tok: "hm_get tokens i = Some tok"
    using Cons.prems(3) fc by auto
  have "\<exists>f \<in> set files. fd_id f = i"
    using Cons.prems(3) fc by auto
  then obtain f where f: "find (\<lambda>f. fd_id f = i) files = Some f"
    by (cases "find (\<lambda>f. fd_id f = i) files") (auto simp: find_None_iff)
  let ?more = "concat (map (file_msgs X tokens) fs) @ delimiter_msg # rest"
  have rx: "rs_rx s = header_msg X i tok # map binary_msg cs @ ?more"
    using Cons.prems(1) fc tok by (simp add: file_msgs_def [of X tokens "(i, cs)"])
  obtain s1 st' es where s1: "receive_message E X tokens files (header_msg X i tok) st
      (s\<lparr>rs_rx := map binary_msg cs @ ?more\<rparr>) = (Inr (Next (Some st')), s1)" "rs_file_id st' = i"
    "rs_rx s1 = map binary_msg cs @ ?more" "rs_trace s1 = rs_trace s @ es"
    "filter is_file_event es = closing st @ [FileOpened i]" "list_all (receiving files) es"
    using header_step [OF X E tok f, of st "s\<lparr>rs_rx := map binary_msg cs @ ?more\<rparr>"] by auto
  let ?s2 = "s1\<lparr>rs_rx := ?more, rs_trace := rs_trace s1 @ map (FileData i) cs\<rparr>"
  have reading: "keeps_reading E files (rs_trace s1)"
    unfolding s1(4) by (rule keeps_reading_on [OF Cons.prems(4) s1(6)])
  have "while_recv (receive_message E X tokens files) (rs_rx s) st s =
      while_recv (receive_message E X tokens files) (map binary_msg cs @ ?more) (Some st') s1"
    unfolding rx using s1(1) by (simp add: prog_simps)
  also have "\<dots> = while_recv (receive_message E X tokens files) (rs_rx ?s2) (Some st') ?s2"
    using chunks_run [where X = X and tokens = tokens and f = st', OF s1(3) reading] s1(2) by simp
  finally have run: "while_recv (receive_message E X tokens files) (rs_rx s) st s = \<dots>" .
  have data: "filter is_file_event (map (FileData i) cs) = map (FileData i) cs"
    "list_all (receiving files) (map (FileData i) cs)"
    by (induction cs) simp_all
  obtain s' where s': "while_recv (receive_message E X tokens files) (rs_rx ?s2) (Some st') ?s2 = (Inr (), s')"
    "rs_rx s' = rest" "file_events s' = file_events ?s2 @ closing (Some st') @ concat (map file_script fs)"
    using Cons.IH [of ?s2 "Some st'"] Cons.prems(3) keeps_reading_on [OF reading data(2)] by auto
  have "file_events s' = file_events s @ closing st @ concat (map file_script (fc # fs))"
    using s'(3) s1(2,4,5) data(1) by (simp add: fc file_script_def closing_def)
  then show ?case
    using run s'(1,2) by auto
qed

text \<open>
  In a good environment the file loop delivers: fed with the messages of one or more accepted
  files (each its header and its chunks) and the final delimiter, it ends normally right after
  the delimiter, and the app sees exactly these files, in this order, each opened, given its
  chunks in order, and closed.
\<close>

theorem files_are_delivered:
  assumes "json_law X" and "object_text_law X" and "reliable E" and "keeps_reading E files (rs_trace s)"
    and "fs \<noteq> []" and "\<forall>f \<in> set fs. hm_get tokens (fst f) \<noteq> None \<and> fst f \<in> fd_id ` set files"
    and "rs_rx s = concat (map (file_msgs X tokens) fs) @ delimiter_msg # rest"
  shows "\<exists>s'. receive_files E X tokens files s = (Inr (), s') \<and> rs_rx s' = rest
    \<and> file_events s' = file_events s @ concat (map file_script fs)"
  using files_run [OF assms(1-3,7), of None files] assms(4-6)
  by (simp add: receive_files_def recv_loop_def closing_def)

definition sample_dto :: "string \<Rightarrow> file_dto" where
  "sample_dto i = \<lparr>fd_id = i, fd_file_name = ''a.txt'', fd_size = 3, fd_file_type = ''text/plain'',
     fd_sha256 = None, fd_preview = None, fd_metadata = None\<rparr>"

lemma sample_fd_id [simp]: "fd_id (sample_dto i) = i"
  by (simp add: sample_dto_def)

lemma calm_reading [simp]: "keeps_reading calm_env files tr"
  by (simp add: keeps_reading_def calm_env_def)

lemma sample_object_law: "object_text_law sample_crates"
proof -
  have "1 \<le> length (pr_obj kvs)" for kvs
    by (cases kvs rule: pr_obj.cases) auto
  then show ?thesis
    by (auto simp: object_text_law_def sample_crates_def Suc_le_eq)
qed

definition sample_rx :: "dc_message list" where
  "sample_rx = concat (map (file_msgs sample_crates [(''f'', ''tok0'')]) [(''f'', [[1, 2], [3]])]) @ [delimiter_msg]"

lemma sample_receive:
  "\<exists>s'. receive_files calm_env sample_crates [(''f'', ''tok0'')] [sample_dto ''f'']
      \<lparr>rs_rx = sample_rx, rs_trace = []\<rparr> = (Inr (), s')
    \<and> file_events s' = [FileOpened ''f'', FileData ''f'' [1, 2], FileData ''f'' [3], FileClosed ''f'']"
proof -
  have "\<exists>s'. while_recv (receive_message calm_env sample_crates [(''f'', ''tok0'')] [sample_dto ''f''])
      sample_rx None \<lparr>rs_rx = sample_rx, rs_trace = []\<rparr> = (Inr (), s')
    \<and> rs_rx s' = [] \<and> file_events s' = [] @ closing None @ concat (map file_script [(''f'', [[1, 2], [3]])])"
    using files_run [OF sample_laws(2) sample_object_law calm_reliable, where rest = "[]"
        and s = "\<lparr>rs_rx = sample_rx, rs_trace = []\<rparr>" and tokens = "[(''f'', ''tok0'')]"
        and fs = "[(''f'', [[1, 2], [3]])]" and st = None and files = "[sample_dto ''f'']"]
    by (simp add: sample_rx_def hm_get_Cons)
  then show ?thesis
    by (auto simp: receive_files_def recv_loop_def closing_def file_script_def)
qed

lemma files_are_delivered_witness:
  "\<exists>s'. receive_files calm_env sample_crates [(''f'', ''tok0'')] [sample_dto ''f'']
      \<lparr>rs_rx = sample_rx, rs_trace = []\<rparr> = (Inr (), s')
    \<and> file_events s' = [FileOpened ''f'', FileData ''f'' [1, 2], FileData ''f'' [3], FileClosed ''f'']"
  using files_are_delivered [OF sample_laws(2) sample_object_law calm_reliable, where rest = "[]"
        and s = "\<lparr>rs_rx = sample_rx, rs_trace = []\<rparr>" and tokens = "[(''f'', ''tok0'')]"
        and fs = "[(''f'', [[1, 2], [3]])]" and files = "[sample_dto ''f'']"]
  by (auto simp: sample_rx_def hm_get_Cons file_script_def)

lemma only_accepted_files_received_witness:
  "header_shown sample_crates [(''f'', ''tok0'')] sample_rx ''f''"
proof -
  obtain s' where run: "receive_files calm_env sample_crates [(''f'', ''tok0'')] [sample_dto ''f'']
      \<lparr>rs_rx = sample_rx, rs_trace = []\<rparr> = (Inr (), s')"
    and ev: "file_events s' = [FileOpened ''f'', FileData ''f'' [1, 2], FileData ''f'' [3], FileClosed ''f'']"
    using sample_receive by blast
  have "FileOpened ''f'' \<in> set (file_events s')"
    unfolding ev by simp
  then have opened: "FileOpened ''f'' \<in> set (rs_trace s')"
    by (meson filter_is_subset subsetD)
  have "rs_trace \<lparr>rs_rx = sample_rx, rs_trace = []\<rparr> = []"
    by (rule rtc_state.select_convs)
  from only_accepted_files_received [OF run this, THEN conjunct1, THEN spec, THEN mp, OF opened]
  show ?thesis
    unfolding rtc_state.select_convs by (rule conjunct2 [THEN conjunct1])
qed

end
