(* ===== verification/Rtc_Sender.thy ===== *)
theory Rtc_Sender
  imports Rtc_Receiver
begin

text \<open>
  The sending side of a transfer: the task \<open>send_offer\<close> spawns, \<open>webrtc.rs\<close> lines 222 to 561,
  stage by stage: nonces, tokens, both PINs, the file list, the receiver's choice (possibly after
  pairing), the files, the final delimiter. A stage that ends the task early with \<open>Ok(())\<close>
  gives \<open>None\<close>.
\<close>

section \<open>Nonces, tokens, PINs\<close>

definition sender_nonce :: "env \<Rightarrow> ('z) crates_scheme \<Rightarrow> bytes prog" where
  "sender_nonce E X =
     (let local_nonce = generate_nonce (en_nonce E) in
      thenP (map_error (\<lambda>e. ''Failed to send nonce: '' @ e)
        (send_text E (to_text X enc_nonce_message \<lparr>nm_nonce = x_b64_encode X local_nonce\<rparr>)))
     (bindP (receive_nonce X) (\<lambda>remote_nonce. ret (local_nonce @ remote_nonce))))"

definition send_token :: "env \<Rightarrow> ('z) crates_scheme \<Rightarrow> signing_token_key \<Rightarrow> bytes \<Rightarrow> unit prog" where
  "send_token E X signing_key nonce =
     bindP (map_error (\<lambda>e. ''Failed to generate token: '' @ e)
         (lift (generate_token_nonce X signing_key nonce))) (\<lambda>local_token.
       map_error (\<lambda>e. ''Failed to send token: '' @ e)
         (send_text E (to_text X enc_token_request \<lparr>tq_token = local_token\<rparr>)))"

definition receive_token_response :: "('z) crates_scheme \<Rightarrow> rtc_token_response prog" where
  "receive_token_response X =
     bindP recv (\<lambda>r. case r of
       None \<Rightarrow> fail ''Failed to receive token response''
     | Some msg \<Rightarrow>
        if \<not> dm_is_string msg then fail ''Expected string message''
        else expect ''json'' (from_slice X dec_token_response (dm_data msg)))"

fun response_token :: "rtc_token_response \<Rightarrow> string option" where
  "response_token (TokOk token) = Some token"
| "response_token (TokPinRequired token) = Some token"
| "response_token TokInvalidSignature = None"

definition check_receiver_token :: "('z) crates_scheme \<Rightarrow> verifying_token_key option
    \<Rightarrow> rtc_token_response \<Rightarrow> bytes \<Rightarrow> string prog" where
  "check_receiver_token X expecting_public_key token_response nonce =
     (case response_token token_response of
        None \<Rightarrow> fail ''Invalid token signature from receiving peer''
      | Some token \<Rightarrow>
         (case expecting_public_key of
            None \<Rightarrow> ret token
          | Some key \<Rightarrow>
              bindP (check_token X key token nonce) (\<lambda>valid.
                if \<not> valid then fail ''Invalid token signature or nonce'' else ret token)))"

definition answer_challenge :: "env \<Rightarrow> ('z) crates_scheme \<Rightarrow> rtc_token_response \<Rightarrow> unit prog" where
  "answer_challenge E X token_response =
     (case token_response of
        TokPinRequired _ \<Rightarrow> handle_pin E X False (parse_pin_receiving X)
      | _ \<Rightarrow> ret ())"

definition challenge_receiver :: "env \<Rightarrow> ('z) crates_scheme \<Rightarrow> pin_config option \<Rightarrow> unit prog" where
  "challenge_receiver E X pin =
     (case pin of
        None \<Rightarrow> ret ()
      | Some cfg \<Rightarrow> verify_pin E X cfg True (sending_notice E X))"

section \<open>The file list and the choice\<close>

definition or_report :: "env \<Rightarrow> unit prog \<Rightarrow> unit prog" where
  "or_report E f =
     bindP (attempt f) (\<lambda>r. case r of
       Inl e \<Rightarrow> thenP (status_try E (StError (''Failed to send file list message: '' @ e))) (fail e)
     | Inr _ \<Rightarrow> ret ())"

definition send_file_list :: "env \<Rightarrow> ('z) crates_scheme \<Rightarrow> file_dto list \<Rightarrow> unit prog" where
  "send_file_list E X files =
     thenP (or_report E (send_string_in_chunks () (to_text X enc_pin_sending (PsOk files)) (send_chunk E)))
       (or_report E (send_delimiter E))"

definition receive_choice :: "('z) crates_scheme \<Rightarrow> rtc_file_list_response prog" where
  "receive_choice X =
     bindP receive_string_from_chunks (\<lambda>bytes.
       expect ''Failed to deserialize file list response'' (from_slice X dec_file_list_response bytes))"

definition declined :: "env \<Rightarrow> (string, string) hmap option prog" where
  "declined E = thenP (status_try E Declined) (ret None)"

definition report_and_fail :: "env \<Rightarrow> string \<Rightarrow> 'a prog" where
  "report_and_fail E e = thenP (status_try E (StError e)) (fail e)"

text \<open>The receiver asks to pair: check its key against its token, ask the user, answer.\<close>

definition pair_request :: "env \<Rightarrow> ('z) crates_scheme \<Rightarrow> key_parsers \<Rightarrow> string \<Rightarrow> bytes \<Rightarrow> string
    \<Rightarrow> unit prog" where
  "pair_request E X P remote_token nonce public_key =
     bindP (expect ''Failed to extract signature identifier''
         (extract_signature_identifier remote_token)) (\<lambda>signature_identifier.
     bindP (lift (parse_public_key P public_key signature_identifier)) (\<lambda>parsed_key.
     bindP (check_token X parsed_key remote_token nonce) (\<lambda>valid.
       if \<not> valid then
         thenP wait_buffer_empty
        (thenP (send_text E (to_text X enc_pair_response PairInvalidSignature))
           (fail ''Invalid token signature or nonce''))
       else
         bindP (asks (en_pair E)) (\<lambda>a. case a of
           ChannelClosed \<Rightarrow> fail ''Failed to send pair response''
         | AnswerDropped \<Rightarrow> thenP (emit PairAsked) (fail ''channel closed'')
         | Answered pair_user_response \<Rightarrow>
             thenP (emit PairAsked)
               (send_text E (to_text X enc_pair_response
                 (if pair_user_response then PairOk public_key else PairDeclined)))))))"

definition choice_after_pairing :: "env \<Rightarrow> ('z) crates_scheme \<Rightarrow> (string, string) hmap option prog" where
  "choice_after_pairing E X =
     bindP (receive_choice X) (\<lambda>file_list_res. case file_list_res of
       FlOk files \<Rightarrow> ret (Some files)
     | FlDeclined \<Rightarrow> declined E
     | FlInvalidSignature \<Rightarrow> report_and_fail E ''Invalid signature (not expected)''
     | FlPair _ \<Rightarrow> report_and_fail E ''Unexpected pair response'')"

definition file_choice :: "env \<Rightarrow> ('z) crates_scheme \<Rightarrow> key_parsers \<Rightarrow> string \<Rightarrow> bytes
    \<Rightarrow> (string, string) hmap option prog" where
  "file_choice E X P remote_token nonce =
     bindP (receive_choice X) (\<lambda>file_list_res. case file_list_res of
       FlOk files \<Rightarrow> ret (Some files)
     | FlPair public_key \<Rightarrow>
         thenP (pair_request E X P remote_token nonce public_key) (choice_after_pairing E X)
     | FlDeclined \<Rightarrow> declined E
     | FlInvalidSignature \<Rightarrow> report_and_fail E ''Invalid signature (not expected)'')"

text \<open>
  On a failure the status message is built but its send is never awaited, so nothing is sent.
\<close>

definition publish_selection :: "env \<Rightarrow> (string, string) hmap \<Rightarrow> unit prog" where
  "publish_selection E file_map =
     (if en_selection_open E then emit (SelectionPublished (hm_keys file_map))
      else fail ''Could not publish selection'')"

section \<open>Sending the files\<close>

definition or_file_error :: "string \<Rightarrow> unit prog \<Rightarrow> unit prog \<Rightarrow> unit prog" where
  "or_file_error file_id f continue =
     bindP (attempt f) (\<lambda>r. case r of Inl e \<Rightarrow> error_send file_id e | Inr _ \<Rightarrow> continue)"

definition send_file :: "env \<Rightarrow> ('z) crates_scheme \<Rightarrow> (string, string) hmap \<Rightarrow> rtc_file \<Rightarrow> unit prog" where
  "send_file E X file_map message =
     (case hm_get file_map (rf_file_id message) of
        None \<Rightarrow> error_send (rf_file_id message) ''Failed to get file token''
      | Some file_token \<Rightarrow>
          or_file_error (rf_file_id message)
            (send_text E (to_text X enc_send_file_header
              \<lparr>fh_id = rf_file_id message, fh_token = file_token\<rparr>))
            (or_file_error (rf_file_id message)
              (process_in_chunks () (rf_binary message) (send_chunk E))
              (ret ())))"

fun send_files :: "env \<Rightarrow> ('z) crates_scheme \<Rightarrow> (string, string) hmap \<Rightarrow> rtc_file list \<Rightarrow> unit prog" where
  "send_files E X file_map [] = ret ()"
| "send_files E X file_map (message # sending) =
     thenP (send_file E X file_map message) (send_files E X file_map sending)"

text \<open>The delimiter, and one more message from the receiver before the task ends.\<close>

definition finish_sending :: "env \<Rightarrow> unit prog" where
  "finish_sending E =
     thenP wait_buffer_empty (thenP (send_delimiter E) (thenP recv (ret ())))"

section \<open>The whole task\<close>

definition sender_handshake :: "env \<Rightarrow> ('z) crates_scheme \<Rightarrow> signing_token_key
    \<Rightarrow> verifying_token_key option \<Rightarrow> pin_config option \<Rightarrow> (bytes \<times> string) prog" where
  "sender_handshake E X signing_key expecting_public_key pin =
     bindP (sender_nonce E X) (\<lambda>nonce.
     thenP (send_token E X signing_key nonce)
    (bindP (receive_token_response X) (\<lambda>token_response.
     bindP (check_receiver_token X expecting_public_key token_response nonce) (\<lambda>remote_token.
     thenP (answer_challenge E X token_response)
    (thenP (challenge_receiver E X pin)
       (ret (nonce, remote_token)))))))"

text \<open>\<open>opened\<close>: the data channel opened (its \<open>on_open\<close> callback ran).\<close>

definition send_task :: "env \<Rightarrow> ('z) crates_scheme \<Rightarrow> key_parsers \<Rightarrow> bool \<Rightarrow> signing_token_key
    \<Rightarrow> verifying_token_key option \<Rightarrow> pin_config option \<Rightarrow> file_dto list \<Rightarrow> rtc_file list \<Rightarrow> unit prog" where
  "send_task E X P opened signing_key expecting_public_key pin files sending =
     (if \<not> opened then fail ''Data channel not opened''
      else
        thenP wait_buffer_empty
       (bindP (sender_handshake E X signing_key expecting_public_key pin) (\<lambda>(nonce, remote_token).
        thenP (status_send E Connected)
       (thenP (send_file_list E X files)
       (bindP (file_choice E X P remote_token nonce) (\<lambda>choice. case choice of
          None \<Rightarrow> ret ()
        | Some file_map \<Rightarrow>
            thenP (publish_selection E file_map)
           (thenP (send_files E X file_map sending)
              (finish_sending E))))))))"

section \<open>Nothing is disclosed before the receiver is entitled\<close>

definition disclosing :: "('z) crates_scheme \<Rightarrow> event set" where
  "disclosing X = {StatusSent Connected} \<union> {SelectionPublished ids | ids. True}
     \<union> {SentBinary c | c. SentBinary c \<notin> notice_events X}"

lemma not_disclosing [simp]:
  "SentText txt \<notin> disclosing X" "PinAsked \<notin> disclosing X" "BufferEmpty \<notin> disclosing X"
  "StatusSent PinRequired \<notin> disclosing X" "StatusSent TooManyAttempts \<notin> disclosing X"
  "StatusSent (StError e) \<notin> disclosing X"
  by (simp_all add: disclosing_def)

lemma notice_not_disclosing: "notice_events X \<union> (- disclosing X) = - disclosing X"
  by (auto simp: notice_events_def disclosing_def)

abbreviation discreet :: "('z) crates_scheme \<Rightarrow> rtc_state \<Rightarrow> bool" where
  "discreet X \<equiv> silent (- disclosing X) (\<lambda>_. True)"

lemma keeps_handle_pin_loop:
  assumes "StatusSent PinRequired \<in> A" "PinAsked \<in> A" "StatusSent TooManyAttempts \<in> A"
    and "\<And>txt. SentText txt \<in> A" and "\<And>m ms. P (m # ms) \<Longrightarrow> P ms"
  shows "keeps (silent A P) (handle_pin_loop n E X in_chunks parse)"
proof (induction n)
  case (Suc n)
  have ask: "keeps (silent A P) (ask_user_pin E)"
    unfolding ask_user_pin_def
    by (intro triple_intro; (simp split: answer.split)?; (intro conjI allI impI triple_intro)?; simp add: assms)
  have answer: "keeps (silent A P) (receive_pin_answer in_chunks)"
    unfolding receive_pin_answer_def by (intro triple_intro; erule assms(5))
  show ?case
    unfolding handle_pin_loop.simps
    by (intro keeps_then keeps_bind ask answer triple_intro;
        (simp split: challenge_pin_result.split)?; (intro conjI allI impI triple_intro)?;
        simp add: Suc assms)
qed (simp add: triple_intro)

lemma keeps_handle_pin:
  assumes "StatusSent PinRequired \<in> A" "PinAsked \<in> A" "StatusSent TooManyAttempts \<in> A"
    and "\<And>txt. SentText txt \<in> A" and "\<And>m ms. P (m # ms) \<Longrightarrow> P ms"
  shows "keeps (silent A P) (handle_pin E X in_chunks parse)"
  unfolding handle_pin_def by (rule keepsI) (rule keepsD [OF keeps_handle_pin_loop [OF assms]])

lemma discreet_handshake: "keeps (discreet X) (sender_handshake E X key expecting pin)"
proof -
  have nonce: "keeps (discreet X) (sender_nonce E X)"
    unfolding sender_nonce_def receive_nonce_def Let_def by (intro triple_intro) simp_all
  have token: "keeps (discreet X) (send_token E X key n)" for n
    unfolding send_token_def by (intro triple_intro) simp_all
  have response: "keeps (discreet X) (receive_token_response X)"
    unfolding receive_token_response_def by (intro triple_intro) simp_all
  have check: "keeps (discreet X) (check_receiver_token X expecting r n)" for r n
    unfolding check_receiver_token_def check_token_def by (intro triple_intro)
  have answer: "keeps (discreet X) (answer_challenge E X r)" for r
    by (cases r) (auto simp: answer_challenge_def intro!: keeps_ret keeps_handle_pin)
  have "keeps (silent (notice_events X \<union> - disclosing X) (\<lambda>_. True))
      (verify_pin_loop E X cfg (sending_notice E X) n p k)" for cfg n p k
    by (rule sender_notice.verify_loop_silent) simp_all
  then have "keeps (discreet X) (verify_pin_loop E X cfg (sending_notice E X) n p k)" for cfg n p k
    by (simp only: notice_not_disclosing)
  then have challenge: "keeps (discreet X) (challenge_receiver E X pin)"
    unfolding challenge_receiver_def verify_pin_def by (intro triple_intro) simp_all
  show ?thesis
    unfolding sender_handshake_def
    by (intro keeps_bind keeps_then keeps_ret nonce token response check answer challenge)
qed

definition receiver_entitled :: "env \<Rightarrow> ('z) crates_scheme \<Rightarrow> verifying_token_key option
    \<Rightarrow> pin_config option \<Rightarrow> dc_message list \<Rightarrow> bool" where
  "receiver_entitled E X expecting pin rx \<longleftrightarrow> (\<exists>m1 m2 pre rest nm n response token.
     rx = m1 # m2 # pre @ rest
     \<and> from_slice X dec_nonce_message (dm_data m1) = Some nm
     \<and> x_b64_decode X (nm_nonce nm) = Some n \<and> validate_nonce n
     \<and> from_slice X dec_token_response (dm_data m2) = Some response
     \<and> response_token response = Some token
     \<and> (\<forall>key. expecting = Some key \<longrightarrow>
          verify_token_nonce X key token (generate_nonce (en_nonce E) @ n) = Some True)
     \<and> (\<forall>cfg. pin = Some cfg \<longrightarrow> pin_shown X cfg rest))"

lemma sender_nonce_Inr:
  assumes "sender_nonce E X s = (Inr nonce, s')"
  shows "\<exists>m nm n. rs_rx s = m # rs_rx s'
    \<and> from_slice X dec_nonce_message (dm_data m) = Some nm
    \<and> x_b64_decode X (nm_nonce nm) = Some n \<and> validate_nonce n
    \<and> nonce = generate_nonce (en_nonce E) @ n"
proof -
  obtain n s1 u where send: "send_text E (to_text X enc_nonce_message
      \<lparr>nm_nonce = x_b64_encode X (generate_nonce (en_nonce E))\<rparr>) s = (Inr u, s1)"
    and n: "receive_nonce X s1 = (Inr n, s')" and nonce: "nonce = generate_nonce (en_nonce E) @ n"
    using assms by (auto simp: sender_nonce_def prog_simps Let_def split: prod.splits sum.splits)
  show ?thesis
    using receive_nonce_Inr [OF n] send_text_rx [OF send] nonce by auto
qed

lemma send_token_Inr: "send_token E X key nonce s = (Inr u, s') \<Longrightarrow> rs_rx s' = rs_rx s"
  using send_text_rx
  by (auto simp: send_token_def lift_def prog_simps split: prod.splits sum.splits)

lemma receive_token_response_Inr:
  assumes "receive_token_response X s = (Inr r, s')"
  shows "\<exists>m. rs_rx s = m # rs_rx s' \<and> from_slice X dec_token_response (dm_data m) = Some r"
  using assms
  by (auto simp: receive_token_response_def recv_def expect_def prog_simps
      split: list.splits if_splits option.splits)

lemma check_receiver_token_Inr:
  assumes "check_receiver_token X expecting r nonce s = (Inr token, s')"
  shows "s' = s \<and> response_token r = Some token
    \<and> (\<forall>key. expecting = Some key \<longrightarrow> verify_token_nonce X key token nonce = Some True)"
  using assms
  by (auto simp: check_receiver_token_def check_token_def prog_simps
      split: option.splits if_splits prod.splits sum.splits)

lemma answer_challenge_rx:
  assumes "answer_challenge E X r s = (q, s')"
  shows "\<exists>pre. rs_rx s = pre @ rs_rx s'"
proof -
  have "keeps (silent UNIV (\<lambda>rx. \<exists>pre. rs_rx s = pre @ rx)) (answer_challenge E X r)"
  proof -
    have drop: "\<exists>pre. rs_rx s = pre @ ms" if "\<exists>pre. rs_rx s = pre @ m # ms" for m ms
      using that by (metis append.assoc append_Cons append_Nil)
    show ?thesis
      unfolding answer_challenge_def
      by (cases r) (simp_all add: keeps_ret keeps_handle_pin [OF _ _ _ _ drop])
  qed
  from keepsD [OF this assms] show ?thesis
    by (simp add: silent_def)
qed

lemma challenge_receiver_Inr:
  assumes "challenge_receiver E X pin s = (Inr u, s')"
  shows "\<forall>cfg. pin = Some cfg \<longrightarrow> pin_shown X cfg (rs_rx s)"
proof (intro allI impI)
  fix cfg
  assume "pin = Some cfg"
  then have "verify_pin E X cfg True (sending_notice E X) s = (Inr u, s')"
    using assms by (simp add: challenge_receiver_def)
  from verify_pin_accepts [OF this disjI2 [OF refl]] show "pin_shown X cfg (rs_rx s)"
    by (auto simp: pin_shown_def)
qed

lemma sender_handshake_Inr:
  assumes "sender_handshake E X key expecting pin s = (Inr x, s')"
  shows "receiver_entitled E X expecting pin (rs_rx s)"
proof -
  obtain nonce r token s1 s2 s3 s4 s5 u where n: "sender_nonce E X s = (Inr nonce, s1)"
    and t: "send_token E X key nonce s1 = (Inr (), s2)"
    and resp: "receive_token_response X s2 = (Inr r, s3)"
    and c: "check_receiver_token X expecting r nonce s3 = (Inr token, s4)"
    and a: "answer_challenge E X r s4 = (Inr (), s5)"
    and p: "challenge_receiver E X pin s5 = (Inr u, s')"
    using assms by (auto simp: sender_handshake_def prog_simps split: prod.splits sum.splits)
  obtain pre where "rs_rx s4 = pre @ rs_rx s5"
    using answer_challenge_rx [OF a] by blast
  then show ?thesis
    using sender_nonce_Inr [OF n] send_token_Inr [OF t] receive_token_response_Inr [OF resp]
      check_receiver_token_Inr [OF c] challenge_receiver_Inr [OF p]
    unfolding receiver_entitled_def by auto blast
qed

lemma disclosed_after_handshake:
  assumes run: "send_task E X P opened key expecting pin files sending s = (r, s')"
    and start: "rs_trace s = []" and ev: "ev \<in> set (rs_trace s')" "ev \<in> disclosing X"
  obtains x s1 s2 where "sender_handshake E X key expecting pin s1 = (Inr x, s2)"
    and "rs_rx s1 = rs_rx s"
proof -
  let ?s1 = "s\<lparr>rs_trace := [BufferEmpty]\<rparr>"
  obtain q s2 where h: "sender_handshake E X key expecting pin ?s1 = (q, s2)" by force
  have s2: "discreet X s2"
    using keepsD [OF discreet_handshake h] by (simp add: silent_def)
  show thesis
  proof (cases q)
    case (Inl e)
    then have "s' = s2 \<or> s' = s"
      using run h start
      by (auto simp: send_task_def wait_buffer_empty_def prog_simps split: if_splits)
    then show thesis using s2 ev start by (auto simp: silent_def)
  next
    case (Inr x)
    then show thesis using that h by simp
  qed
qed

text \<open>
  C7. The sender discloses nothing before the receiver is entitled: if the task ever reported
  the connection as established, sent any binary message other than a PIN notice (so also any
  part of the file list or of a file), or published a selection, then the receiver's first
  message was a nonce of valid length, its second carried a token that the expected key (when one is
  configured) accepts for the concatenation of both nonces, and the receiver sent the
  configured PIN (when there is a non-empty one) within the allowed number of attempts.
\<close>

theorem sender_discloses_only_to_entitled:
  assumes "send_task E X P opened key expecting pin files sending s = (r, s')"
    and "rs_trace s = []" and "ev \<in> set (rs_trace s')" and "ev \<in> disclosing X"
  shows "receiver_entitled E X expecting pin (rs_rx s)"
  using disclosed_after_handshake [OF assms] sender_handshake_Inr by metis

definition polite_answer :: "string \<Rightarrow> dc_message list" where
  "polite_answer token =
     [text_msg (to_text sample_crates enc_nonce_message \<lparr>nm_nonce = x_b64_encode sample_crates (replicate 16 1)\<rparr>),
      text_msg (to_text sample_crates enc_token_response (TokOk token))]
     @ frame_string (as_bytes (to_text sample_crates enc_file_list_response FlDeclined))"

definition sample_parsers :: key_parsers where
  "sample_parsers = \<lparr>kp_signing_from_pem = (\<lambda>_. Inr sample_key),
     kp_ed25519_from_pem = (\<lambda>_. Inr (sk_verifying_key sample_key)), kp_rsa_from_pem = (\<lambda>_. Inl ''no'')\<rparr>"

lemma polite_send:
  "\<exists>s'. send_task calm_env sample_crates sample_parsers True sample_key None None [] []
      \<lparr>rs_rx = polite_answer token, rs_trace = []\<rparr> = (Inr (), s') \<and> StatusSent Connected \<in> set (rs_trace s')"
proof -
  let ?X = sample_crates
  note [simp] = from_slice_to_text [OF sample_laws(2) nonce_message_codec.json_codec_axioms]
    from_slice_to_text [OF sample_laws(2) token_response_codec.json_codec_axioms]
    file_list_response_text [OF sample_laws(2)]
  have b64: "x_b64_decode ?X (x_b64_encode ?X bs) = Some bs" for bs
    using sample_laws(3) by (simp add: b64_law_def)
  obtain tok where tok: "generate_token_nonce ?X sample_key (replicate 32 7 @ replicate 16 1) = Inr tok"
    using sample_token by blast
  have frame: "take_chunks (frame_string bs) = (bs, [])" for bs
    using chunked.unframe_frame [of bs "[]"] by simp
  have chunks: "\<exists>es. send_string_in_chunks () str (send_chunk calm_env) s =
      (Inr (), s\<lparr>rs_trace := rs_trace s @ es\<rparr>)" for str s
    using adds_string [OF calm_reliable] by (auto simp: adds_trace_def)
  obtain es where es: "send_string_in_chunks () (to_text ?X enc_pin_sending (PsOk [])) (send_chunk calm_env)
      \<lparr>rs_rx = frame_string (as_bytes (to_text ?X enc_file_list_response FlDeclined)),
        rs_trace = [BufferEmpty, SentText (to_text ?X enc_nonce_message
          \<lparr>nm_nonce = x_b64_encode ?X (replicate 32 7)\<rparr>),
          SentText (to_text ?X enc_token_request \<lparr>tq_token = tok\<rparr>), StatusSent Connected]\<rparr>
    = (Inr (), \<lparr>rs_rx = frame_string (as_bytes (to_text ?X enc_file_list_response FlDeclined)),
        rs_trace = [BufferEmpty, SentText (to_text ?X enc_nonce_message
          \<lparr>nm_nonce = x_b64_encode ?X (replicate 32 7)\<rparr>),
          SentText (to_text ?X enc_token_request \<lparr>tq_token = tok\<rparr>), StatusSent Connected] @ es\<rparr>)"
    using chunks [of "to_text ?X enc_pin_sending (PsOk [])"
      "\<lparr>rs_rx = frame_string (as_bytes (to_text ?X enc_file_list_response FlDeclined)),
        rs_trace = [BufferEmpty, SentText (to_text ?X enc_nonce_message
          \<lparr>nm_nonce = x_b64_encode ?X (replicate 32 7)\<rparr>),
          SentText (to_text ?X enc_token_request \<lparr>tq_token = tok\<rparr>), StatusSent Connected]\<rparr>"] by auto
  have env: "en_send calm_env tr = None" "en_status_open calm_env tr" "en_nonce calm_env n = replicate n 7"
    for tr n
    by (simp_all add: calm_env_def)
  show ?thesis
    using es
    by (simp add: send_task_def sender_handshake_def sender_nonce_def receive_nonce_def recv_def
        polite_answer_def text_msg_def expect_def b64 validate_nonce_def generate_nonce_def env
        map_error_def send_text_def send_event_def send_token_def check_receiver_token_def
        receive_token_response_def answer_challenge_def lift_def tok challenge_receiver_def
        send_file_list_def or_report_def attempt_def send_delimiter_def file_choice_def frame
        receive_choice_def receive_string_from_chunks_def status_send_def status_try_def declined_def
        wait_buffer_empty_def prog_simps Let_def)
qed

lemma sender_discloses_only_to_entitled_witness:
  "receiver_entitled calm_env sample_crates None None (polite_answer ''t'')"
proof -
  obtain s' where run: "send_task calm_env sample_crates sample_parsers True sample_key None None [] []
      \<lparr>rs_rx = polite_answer ''t'', rs_trace = []\<rparr> = (Inr (), s')"
    and ev: "StatusSent Connected \<in> set (rs_trace s')"
    using polite_send by blast
  have "receiver_entitled calm_env sample_crates None None
      (rs_rx \<lparr>rs_rx = polite_answer ''t'', rs_trace = []\<rparr>)"
    by (rule sender_discloses_only_to_entitled [OF run _ ev]) (simp_all add: disclosing_def)
  then show ?thesis by simp
qed

section \<open>From end to end\<close>

definition accepted :: "(string, string) hmap \<Rightarrow> rtc_file list \<Rightarrow> (string \<times> bytes list) list" where
  "accepted tokens sending =
     map (\<lambda>f. (rf_file_id f, chunks_of chunk_size (concat (rf_binary f))))
       (filter (\<lambda>f. hm_get tokens (rf_file_id f) \<noteq> None) sending)"

lemma iterate_run:
  assumes "reliable E"
  shows "iterate (send_chunk E) () cs s = (Inr (), s\<lparr>rs_trace := rs_trace s @ map SentBinary cs\<rparr>)"
proof -
  obtain es where es: "iterate (send_chunk E) () cs s = (Inr (), s\<lparr>rs_trace := rs_trace s @ es\<rparr>)"
    using run_adds [OF adds_iterate [OF assms]] .
  from iterate_send_chunk [OF this] show ?thesis
    using es by simp
qed

lemma accepted_content:
  "map (\<lambda>f. (fst f, concat (snd f))) (accepted tokens sending)
    = map (\<lambda>f. (rf_file_id f, concat (rf_binary f)))
        (filter (\<lambda>f. hm_get tokens (rf_file_id f) \<noteq> None) sending)"
  by (simp add: accepted_def concat_chunks_of)

text \<open>What sending one file does when the sends succeed.\<close>

definition send_effects :: "('z) crates_scheme \<Rightarrow> (string, string) hmap \<Rightarrow> rtc_file \<Rightarrow> event list" where
  "send_effects X tokens f =
     (case hm_get tokens (rf_file_id f) of
        None \<Rightarrow> [FileErrorSent \<lparr>fe_file_id = rf_file_id f, fe_error = ''Failed to get file token''\<rparr>]
      | Some tok \<Rightarrow> SentText (to_text X enc_send_file_header \<lparr>fh_id = rf_file_id f, fh_token = tok\<rparr>)
          # map SentBinary (chunks_of chunk_size (concat (rf_binary f))))"

lemma send_file_effects:
  "reliable E \<Longrightarrow>
   send_file E X tokens f s = (Inr (), s\<lparr>rs_trace := rs_trace s @ send_effects X tokens f\<rparr>)"
  by (simp add: send_file_def or_file_error_def attempt_def send_text_def send_event_def reliable_def
      error_send_def send_effects_def process_in_chunks_eq iterate_run prog_simps split: option.split)

lemma send_effects_messages:
  "sent_messages (send_effects X tokens f) = concat (map (file_msgs X tokens) (accepted tokens [f]))"
  "filter is_file_event (send_effects X tokens f) = []"
proof -
  have "filter is_file_event (map SentBinary cs) = []" for cs by (induction cs) simp_all
  then show "sent_messages (send_effects X tokens f) = concat (map (file_msgs X tokens) (accepted tokens [f]))"
    "filter is_file_event (send_effects X tokens f) = []"
    by (simp_all add: send_effects_def sent_binary_messages accepted_def file_msgs_def header_msg_def
        binary_msg_def split: option.split)
qed

lemma send_file_run:
  assumes "reliable E"
  shows "\<exists>es. send_file E X tokens f s = (Inr (), s\<lparr>rs_trace := rs_trace s @ es\<rparr>)
    \<and> sent_messages es = concat (map (file_msgs X tokens) (accepted tokens [f]))"
  using send_file_effects [OF assms] send_effects_messages by blast

lemma send_files_run:
  assumes "reliable E"
  shows "\<exists>es. send_files E X tokens sending s = (Inr (), s\<lparr>rs_trace := rs_trace s @ es\<rparr>)
    \<and> sent_messages es = concat (map (file_msgs X tokens) (accepted tokens sending))"
proof (induction sending arbitrary: s)
  case Nil
  then show ?case by (auto simp: prog_simps accepted_def intro!: exI [of _ "[]"])
next
  case (Cons f sending)
  obtain es where es: "send_file E X tokens f s = (Inr (), s\<lparr>rs_trace := rs_trace s @ es\<rparr>)"
    "sent_messages es = concat (map (file_msgs X tokens) (accepted tokens [f]))"
    using send_file_run [OF assms] by blast
  obtain fs where "send_files E X tokens sending (s\<lparr>rs_trace := rs_trace s @ es\<rparr>) =
      (Inr (), s\<lparr>rs_trace := rs_trace s @ es @ fs\<rparr>)"
    "sent_messages fs = concat (map (file_msgs X tokens) (accepted tokens sending))"
    using Cons.IH [of "s\<lparr>rs_trace := rs_trace s @ es\<rparr>"] by auto
  then show ?case
    using es by (intro exI [of _ "es @ fs"]) (auto simp: prog_simps accepted_def)
qed

lemma finish_run:
  assumes "reliable E"
  shows "\<exists>s'. finish_sending E s = (Inr (), s') \<and> rs_trace s' = rs_trace s @ [BufferEmpty, SentText ''0'']"
  using assms
  by (cases "rs_rx s") (simp_all add: finish_sending_def wait_buffer_empty_def send_delimiter_def
      send_text_def send_event_def reliable_def recv_def prog_simps)

text \<open>
  A transfer from end to end: the sender's file stage and its final delimiter, run in a
  reliable environment, followed by the receiver's file loop on exactly what the sender put on
  the wire. The receiver ends normally, and its app has seen exactly the files for which the
  receiver handed out a token, in the order they were sent, each opened, given the content in
  chunks of at most 16 KiB, and closed; the chunks of a file together are the bytes the sending
  app supplied for it.
\<close>

theorem transfer_end_to_end:
  assumes laws: "json_law X" "object_text_law X"
    and env: "reliable E" "reliable F" "keeps_reading F files []"
    and some: "accepted tokens sending \<noteq> []"
    and listed: "\<forall>f \<in> set (accepted tokens sending). fst f \<in> fd_id ` set files"
    and sent: "thenP (send_files E X tokens sending) (finish_sending E) s = (r, s')"
    and wire: "rs_rx t = sent_messages (drop (length (rs_trace s)) (rs_trace s'))" "rs_trace t = []"
  shows "r = Inr () \<and> (\<exists>t'. receive_files F X tokens files t = (Inr (), t')
      \<and> file_events t' = concat (map file_script (accepted tokens sending)))
    \<and> map (\<lambda>f. (fst f, concat (snd f))) (accepted tokens sending)
      = map (\<lambda>f. (rf_file_id f, concat (rf_binary f)))
          (filter (\<lambda>f. hm_get tokens (rf_file_id f) \<noteq> None) sending)"
proof -
  obtain es where es: "send_files E X tokens sending s = (Inr (), s\<lparr>rs_trace := rs_trace s @ es\<rparr>)"
    "sent_messages es = concat (map (file_msgs X tokens) (accepted tokens sending))"
    using send_files_run [OF env(1)] by blast
  obtain s2 where s2: "finish_sending E (s\<lparr>rs_trace := rs_trace s @ es\<rparr>) = (Inr (), s2)"
    "rs_trace s2 = (rs_trace s @ es) @ [BufferEmpty, SentText ''0'']"
    using finish_run [OF env(1), of "s\<lparr>rs_trace := rs_trace s @ es\<rparr>"] by auto
  have r: "r = Inr ()" "s' = s2"
    using sent es(1) s2(1) by (simp_all add: prog_simps)
  have rx: "rs_rx t = concat (map (file_msgs X tokens) (accepted tokens sending)) @ delimiter_msg # []"
    using wire(1) es(2) s2(2) r by (simp add: delimiter_msg_def)
  have tok: "\<forall>f \<in> set (accepted tokens sending). hm_get tokens (fst f) \<noteq> None \<and> fst f \<in> fd_id ` set files"
    using listed by (auto simp: accepted_def)
  obtain t' where "while_recv (receive_message F X tokens files) (rs_rx t) None t = (Inr (), t')"
    "file_events t' = file_events t @ closing None @ concat (map file_script (accepted tokens sending))"
    using files_run [OF laws env(2) rx, of None files] some tok env(3) wire(2) by auto
  then show ?thesis
    using r(1) wire(2)
    by (auto simp: receive_files_def recv_loop_def closing_def accepted_def concat_chunks_of)
qed

lemma transfer_end_to_end_witness:
  "\<exists>s' t'. thenP (send_files calm_env sample_crates [(''f'', ''tok0'')]
        [\<lparr>rf_file_id = ''f'', rf_binary = [[1], [2, 3]]\<rparr>]) (finish_sending calm_env)
        \<lparr>rs_rx = [], rs_trace = []\<rparr> = (Inr (), s')
    \<and> receive_files calm_env sample_crates [(''f'', ''tok0'')] [sample_dto ''f'']
        \<lparr>rs_rx = sent_messages (rs_trace s'), rs_trace = []\<rparr> = (Inr (), t')
    \<and> file_events t' = [FileOpened ''f'', FileData ''f'' [1, 2, 3], FileClosed ''f'']"
proof -
  let ?s = "\<lparr>rs_rx = [], rs_trace = []\<rparr>"
  let ?f = "\<lparr>rf_file_id = ''f'', rf_binary = [[1], [2, 3]]\<rparr>"
  have chunk: "chunks_of chunk_size [1, 2, 3] = [[1, 2, 3]]"
    by (rule chunks_of_short) (simp_all add: chunk_size_def)
  have acc: "accepted [(''f'', ''tok0'')] [?f] = [(''f'', [[1, 2, 3]])]"
    by (simp add: accepted_def hm_get_Cons chunk)
  obtain r s' where run: "thenP (send_files calm_env sample_crates [(''f'', ''tok0'')] [?f])
      (finish_sending calm_env) ?s = (r, s')" by force
  let ?t = "\<lparr>rs_rx = sent_messages (rs_trace s'), rs_trace = []\<rparr>"
  have "r = Inr () \<and> (\<exists>t'. receive_files calm_env sample_crates [(''f'', ''tok0'')] [sample_dto ''f''] ?t = (Inr (), t')
      \<and> file_events t' = concat (map file_script [(''f'', [[1, 2, 3]])]))"
    using transfer_end_to_end [OF sample_laws(2) sample_object_law calm_reliable calm_reliable
        calm_reading _ _ run, of "[sample_dto ''f'']" ?t] by (simp add: acc)
  then show ?thesis
    using run by (auto simp: file_script_def)
qed

end
