(* ===== verification/Rtc_Dialogue.thy ===== *)
theory Rtc_Dialogue
  imports Rtc_Sender
begin

text \<open>
  Two tasks talking to each other. A dialogue is the sequence of the messages of both sides;
  \<open>converses\<close> says that a program, given what the other side says in it, says its own part and
  ends well, and that it says each of its messages as soon as it has heard what precedes it in
  the dialogue. So a dialogue that both sides converse in is an execution of the two over a
  channel, and not merely a pair of runs that happen to fit.
\<close>

section \<open>Programs only add to the trace\<close>

definition grown :: "event list \<Rightarrow> rtc_state \<Rightarrow> bool" where
  "grown tr s \<longleftrightarrow> (\<exists>es. rs_trace s = tr @ es)"

lemma grown_set_rx [simp]: "grown tr (s\<lparr>rs_rx := ms\<rparr>) \<longleftrightarrow> grown tr s"
  by (simp add: grown_def)

lemma grown_emit [triple_intro]: "keeps (grown tr) (emit ev)"
  by (rule keepsI) (auto simp: grown_def prog_simps)

lemma grown_recv [triple_intro]: "keeps (grown tr) recv"
  by (rule keepsI) (auto simp: recv_def split: list.splits)

lemma grown_receive_string [triple_intro]: "keeps (grown tr) receive_string_from_chunks"
  by (rule keepsI) (auto simp: receive_string_from_chunks_def split: prod.splits)

lemma grown_set [triple_intro]: "keeps (grown tr) (set_rx ms)"
  by (rule keepsI) (auto simp: prog_simps)

lemma grown_basic [triple_intro]:
  "keeps (grown tr) (send_text E txt)" "keeps (grown tr) (send_binary E bs)"
  "keeps (grown tr) (status_send E st)" "keeps (grown tr) (status_try E st)"
  "keeps (grown tr) wait_buffer_empty" "keeps (grown tr) (error_send i e)"
  "keeps (grown tr) (send_delimiter E)"
  unfolding send_text_def send_binary_def send_event_def status_send_def status_try_def
    wait_buffer_empty_def error_send_def send_delimiter_def
  by (intro triple_intro)+

lemma keeps_grown:
  "keeps (grown (rs_trace s)) f \<Longrightarrow> \<exists>es. rs_trace (snd (f s)) = rs_trace s @ es"
  using keepsD [of "grown (rs_trace s)" f s "fst (f s)" "snd (f s)"] by (auto simp: grown_def)

lemma grown_timeout [triple_intro]:
  assumes f: "\<And>tr. keeps (grown tr) f"
  shows "keeps (grown tr) (timeout E f)"
proof (rule keepsI)
  fix s r s'
  assume s: "grown tr s" and run: "timeout E f s = (r, s')"
  obtain es where es: "rs_trace (snd (f s)) = rs_trace s @ es"
    using keeps_grown [OF f] by blast
  from s obtain fs where "rs_trace s = tr @ fs" by (auto simp: grown_def)
  with es run show "grown tr s'"
    by (auto simp: timeout_def grown_def split: prod.splits option.splits)
qed

lemma grown_send_string [triple_intro]:
  "keeps (grown tr) (send_string_in_chunks () str (send_chunk E))"
proof -
  have "keeps (grown tr) (iterate (send_chunk E) () cs)" for cs
    by (induction cs) (auto simp: send_chunk_def intro!: triple_intro)
  then show ?thesis
    by (auto simp: send_string_in_chunks_def process_in_chunks_eq intro!: triple_intro)
qed

section \<open>Dialogues\<close>

datatype party = SenderSide | ReceiverSide

fun other :: "party \<Rightarrow> party" where
  "other SenderSide = ReceiverSide"
| "other ReceiverSide = SenderSide"

lemma other_simps [simp]: "other p \<noteq> p" "p \<noteq> other p" "other (other p) = p"
  by (cases p; simp)+

type_synonym dialogue = "(party \<times> dc_message) list"

definition says :: "party \<Rightarrow> dialogue \<Rightarrow> dc_message list" where
  "says p d = map snd (filter (\<lambda>x. fst x = p) d)"

lemma says_simps [simp]:
  "says p [] = []" "says p ((q, m) # d) = (if q = p then m # says p d else says p d)"
  "says p (d @ d') = says p d @ says p d'"
  by (simp_all add: says_def)

lemma says_map [simp]: "says p (map (Pair q) ms) = (if q = p then ms else [])"
  by (induction ms) auto

abbreviation hearing :: "dc_message list \<Rightarrow> event list \<Rightarrow> rtc_state" where
  "hearing rx tr \<equiv> \<lparr>rs_rx = rx, rs_trace = tr\<rparr>"

text \<open>\<open>f\<close> says at least \<open>said\<close> when it hears \<open>rx\<close> and nothing more.\<close>

definition says_at_least :: "'a prog \<Rightarrow> dc_message list \<Rightarrow> event list \<Rightarrow> dc_message list \<Rightarrow> bool" where
  "says_at_least f rx tr said \<longleftrightarrow>
     (\<exists>es more. rs_trace (snd (f (hearing rx tr))) = tr @ es \<and> sent_messages es = said @ more)"

definition in_turn :: "party \<Rightarrow> 'a prog \<Rightarrow> dialogue \<Rightarrow> event list \<Rightarrow> bool" where
  "in_turn me f d tr \<longleftrightarrow> (\<forall>d1 m d2. d = d1 @ (me, m) # d2 \<longrightarrow>
     says_at_least f (says (other me) d1) tr (says me d1 @ [m]))"

text \<open>
  What the user and the app have been shown so far, on which their answers may depend.
\<close>

fun user_event :: "event \<Rightarrow> bool" where
  "user_event PinAsked = True"
| "user_event (FilesPublished _) = True"
| "user_event (FileOpened _) = True"
| "user_event (FileData _ _) = True"
| "user_event (FileClosed _) = True"
| "user_event _ = False"

abbreviation user_events :: "event list \<Rightarrow> event list" where
  "user_events \<equiv> filter user_event"

text \<open>The effects \<open>es\<close> on the trace do not depend on what comes after the dialogue.\<close>

definition ends_well :: "party \<Rightarrow> 'a prog \<Rightarrow> dialogue \<Rightarrow> 'a \<Rightarrow> event list \<Rightarrow> event list \<Rightarrow> bool" where
  "ends_well me f d v tr es \<longleftrightarrow> sent_messages es = says me d \<and> filter is_file_event es = []
     \<and> (\<forall>rest. f (hearing (says (other me) d @ rest) tr) = (Inr v, hearing rest (tr @ es)))"

text \<open>The user has seen \<open>u\<close> before and \<open>w\<close> afterwards.\<close>

definition converses :: "party \<Rightarrow> event list \<Rightarrow> 'a prog \<Rightarrow> dialogue \<Rightarrow> 'a \<Rightarrow> event list \<Rightarrow> bool" where
  "converses me u f d v w \<longleftrightarrow> (\<forall>tr. user_events tr = u \<longrightarrow>
     in_turn me f d tr \<and> (\<exists>es. ends_well me f d v tr es \<and> user_events (tr @ es) = w))"

text \<open>
  The last stage of a task, and so a whole task: it returns, has said its part and has the file
  events \<open>fe\<close>; what it leaves unheard does not matter.
\<close>

definition plays :: "party \<Rightarrow> unit prog \<Rightarrow> dialogue \<Rightarrow> event list \<Rightarrow> event list \<Rightarrow> bool" where
  "plays me f d tr fe \<longleftrightarrow> in_turn me f d tr
     \<and> (\<exists>es rest. f (hearing (says (other me) d) tr) = (Inr (), hearing rest (tr @ es))
        \<and> sent_messages es = says me d \<and> filter is_file_event es = fe)"

named_theorems converse \<open>composition of conversing programs\<close>

lemma in_turn_silent: "me \<notin> fst ` set d \<Longrightarrow> in_turn me f d tr"
  by (force simp: in_turn_def)

lemma says_more:
  assumes "says_at_least f rx tr said" and "\<And>x tr. keeps (grown tr) (g x)"
  shows "says_at_least (bindP f g) rx tr said"
proof -
  have "\<exists>fs. rs_trace (snd (bindP f g s)) = rs_trace (snd (f s)) @ fs" for s
    using keeps_grown [OF assms(2)] by (auto simp: bindP_def split: prod.splits sum.splits)
  then show ?thesis
    using assms(1) unfolding says_at_least_def by (metis append.assoc sent_messages_simps(3))
qed

lemma in_turn_bind:
  assumes f: "in_turn me f d tr" "ends_well me f d v tr es" and g: "in_turn me (g v) d' (tr @ es)"
    and grows: "\<And>x tr. keeps (grown tr) (g x)"
  shows "in_turn me (bindP f g) (d @ d') tr"
  unfolding in_turn_def
proof (intro allI impI)
  fix d1 m d2
  assume "d @ d' = d1 @ (me, m) # d2"
  then consider e where "d = d1 @ (me, m) # e" | e where "d1 = d @ e" "d' = e @ (me, m) # d2"
    by (auto simp: append_eq_append_conv2 append_eq_Cons_conv)
  then show "says_at_least (bindP f g) (says (other me) d1) tr (says me d1 @ [m])"
  proof cases
    case 1
    with f(1) have "says_at_least f (says (other me) d1) tr (says me d1 @ [m])"
      by (simp add: in_turn_def)
    then show ?thesis by (rule says_more [OF _ grows])
  next
    case 2
    then have "says_at_least (g v) (says (other me) e) (tr @ es) (says me e @ [m])"
      using g by (simp add: in_turn_def)
    then obtain fs more where "rs_trace (snd (g v (hearing (says (other me) e) (tr @ es)))) = (tr @ es) @ fs"
      "sent_messages fs = (says me e @ [m]) @ more"
      unfolding says_at_least_def by blast
    with f(2) 2(1) show ?thesis
      unfolding says_at_least_def ends_well_def
      by (intro exI [of _ "es @ fs"] exI [of _ more]) (simp add: bindP_def)
  qed
qed

lemma ends_well_bind:
  "ends_well me f d v tr es \<Longrightarrow> ends_well me (g v) d' w (tr @ es) fs \<Longrightarrow>
   ends_well me (bindP f g) (d @ d') w tr (es @ fs)"
  by (simp add: ends_well_def bindP_def)

lemma converse_bind:
  assumes f: "converses me u f d v w" and g: "converses me w (g v) d' v' w'"
    and grows: "\<And>x tr. keeps (grown tr) (g x)"
  shows "converses me u (bindP f g) (d @ d') v' w'"
  unfolding converses_def
proof (intro allI impI)
  fix tr
  assume "user_events tr = u"
  with f obtain es where f': "in_turn me f d tr" "ends_well me f d v tr es" "user_events (tr @ es) = w"
    by (auto simp: converses_def)
  with g obtain fs where g': "in_turn me (g v) d' (tr @ es)" "ends_well me (g v) d' v' (tr @ es) fs"
    "user_events ((tr @ es) @ fs) = w'"
    unfolding converses_def by blast
  show "in_turn me (bindP f g) (d @ d') tr
      \<and> (\<exists>es. ends_well me (bindP f g) (d @ d') v' tr es \<and> user_events (tr @ es) = w')"
    using in_turn_bind [where g = g, OF f'(1,2) g'(1) grows] ends_well_bind [where g = g, OF f'(2) g'(2)] g'(3)
    by (metis append.assoc)
qed

lemma converse_then:
  assumes "converses me u f d v w" "converses me w g d' v' w'" and "\<And>tr. keeps (grown tr) g"
  shows "converses me u (thenP f g) (d @ d') v' w'"
  unfolding thenP_def using assms by (rule converse_bind)

text \<open>What the last stage says may depend on the effects so far.\<close>

lemma plays_bind:
  assumes f: "converses me u f d v w"
    and g: "\<And>tr. user_events tr = w \<Longrightarrow> \<exists>resp. plays me (g v) (e resp) tr fe"
    and grows: "\<And>x tr. keeps (grown tr) (g x)" and start: "user_events tr = u"
  shows "\<exists>resp. plays me (bindP f g) (d @ e resp) tr fe"
proof -
  from f start obtain es where f': "in_turn me f d tr" "ends_well me f d v tr es" "user_events (tr @ es) = w"
    by (auto simp: converses_def)
  obtain resp where e: "plays me (g v) (e resp) (tr @ es) fe"
    using g [OF f'(3)] by blast
  have "in_turn me (bindP f g) (d @ e resp) tr"
    using in_turn_bind [where g = g, OF f'(1,2) _ grows] e by (simp add: plays_def)
  moreover obtain fs rest where "g v (hearing (says (other me) (e resp)) (tr @ es)) = (Inr (), hearing rest (tr @ es @ fs))"
    "sent_messages fs = says me (e resp)" "filter is_file_event fs = fe"
    using e by (auto simp: plays_def)
  ultimately have "plays me (bindP f g) (d @ e resp) tr fe"
    using f'(2) unfolding plays_def ends_well_def
    by (intro conjI exI [of _ "es @ fs"] exI [of _ rest]) (simp_all add: bindP_def)
  then show ?thesis by blast
qed

lemma plays_then:
  "converses me u f d v w \<Longrightarrow> (\<And>tr. user_events tr = w \<Longrightarrow> \<exists>resp. plays me g (e resp) tr fe) \<Longrightarrow>
   (\<And>tr. keeps (grown tr) g) \<Longrightarrow> user_events tr = u \<Longrightarrow> \<exists>resp. plays me (thenP f g) (d @ e resp) tr fe"
  unfolding thenP_def by (rule plays_bind)

lemma plays_bind_to:
  "converses me u f d v w \<Longrightarrow> (\<And>tr. user_events tr = w \<Longrightarrow> plays me (g v) e tr fe) \<Longrightarrow>
   (\<And>x tr. keeps (grown tr) (g x)) \<Longrightarrow> user_events tr = u \<Longrightarrow> plays me (bindP f g) (d @ e) tr fe"
  using plays_bind [of me u f d v w g "\<lambda>_. e" fe tr] by simp

lemma plays_then_to:
  "converses me u f d v w \<Longrightarrow> (\<And>tr. user_events tr = w \<Longrightarrow> plays me g e tr fe) \<Longrightarrow>
   (\<And>tr. keeps (grown tr) g) \<Longrightarrow> user_events tr = u \<Longrightarrow> plays me (thenP f g) (d @ e) tr fe"
  unfolding thenP_def by (rule plays_bind_to)

text \<open>Answering at the end what was said before.\<close>

lemma in_turn_answer:
  assumes "rs_trace (snd (f (hearing as tr))) = tr @ es" and "sent_messages es = bs"
  shows "in_turn me f (map (Pair (other me)) as @ map (Pair me) bs) tr"
  unfolding in_turn_def
proof (intro allI impI)
  fix d1 m d2
  assume d: "map (Pair (other me)) as @ map (Pair me) bs = d1 @ (me, m) # d2"
  have "\<not> (\<exists>ys. map (Pair (other me)) as = d1 @ (me, m) # ys)"
    by (auto simp: map_eq_append_conv map_eq_Cons_conv)
  with d obtain us where us: "d1 = map (Pair (other me)) as @ us" "map (Pair me) bs = us @ (me, m) # d2"
    by (auto simp: append_eq_append_conv2 append_eq_Cons_conv Cons_eq_append_conv)
  then have "bs = says me us @ m # says me d2"
    using says_map [of me me bs] by simp
  moreover have "says (other me) us = []"
  proof -
    have "says (other me) (us @ (me, m) # d2) = []"
      unfolding us(2) [symmetric] by simp
    then show ?thesis by simp
  qed
  ultimately show "says_at_least f (says (other me) d1) tr (says me d1 @ [m])"
    using us(1) assms unfolding says_at_least_def
    by (intro exI [of _ es] exI [of _ "says me d2"]) simp
qed

text \<open>A program that does not listen says the same whatever it could hear.\<close>

lemma converse_monologue:
  assumes "\<And>tr. user_events tr = u \<Longrightarrow> \<exists>es. (\<forall>rx. f (hearing rx tr) = (Inr v, hearing rx (tr @ es)))
    \<and> sent_messages es = ms \<and> filter is_file_event es = [] \<and> u @ user_events es = w"
  shows "converses me u f (map (Pair me) ms) v w"
  unfolding converses_def
proof (intro allI impI)
  fix tr
  assume u: "user_events tr = u"
  obtain es where es: "\<And>rx. f (hearing rx tr) = (Inr v, hearing rx (tr @ es))"
    "sent_messages es = ms" "filter is_file_event es = []" "user_events (tr @ es) = w"
    using assms [OF u] u by (metis filter_append)
  have "in_turn me f (map (Pair me) ms) tr"
    unfolding in_turn_def says_at_least_def
  proof (intro allI impI)
    fix d1 m d2
    assume "map (Pair me) ms = d1 @ (me, m) # d2"
    then have "ms = says me (d1 @ (me, m) # d2)"
      by (metis says_map)
    then show "\<exists>es more. rs_trace (snd (f (hearing (says (other me) d1) tr))) = tr @ es
        \<and> sent_messages es = (says me d1 @ [m]) @ more"
      using es by auto
  qed
  moreover have "ends_well me f (map (Pair me) ms) v tr es"
    using es by (simp add: ends_well_def)
  ultimately show "in_turn me f (map (Pair me) ms) tr
      \<and> (\<exists>es. ends_well me f (map (Pair me) ms) v tr es \<and> user_events (tr @ es) = w)"
    using es(4) by blast
qed

lemma converse_quiet:
  assumes "\<And>s. user_events (rs_trace s) = u \<Longrightarrow> f s = (Inr v, s\<lparr>rs_trace := rs_trace s @ es\<rparr>)"
    and "sent_messages es = []" and "filter is_file_event es = []" and "w = u @ user_events es"
  shows "converses me u f [] v w"
proof -
  have "converses me u f (map (Pair me) []) v w"
    by (rule converse_monologue) (rule exI [of _ es], simp add: assms)
  then show ?thesis by simp
qed

lemma converse_ret [converse]: "converses me u (ret v) [] v u"
  by (rule converse_quiet [where es = "[]"]) (simp_all add: prog_simps)

lemma converse_emit:
  "sent_message ev = [] \<Longrightarrow> \<not> is_file_event ev \<Longrightarrow> converses me u (emit ev) [] () (u @ user_events [ev])"
  by (rule converse_quiet [where es = "[ev]"]) (simp_all add: prog_simps)

lemma converse_asks: "(\<And>tr. user_events tr = u \<Longrightarrow> q tr = x) \<Longrightarrow> converses me u (asks q) [] x u"
  by (rule converse_quiet [where es = "[]"]) (simp_all add: prog_simps)

lemma converse_status [converse]:
  "reliable E \<Longrightarrow> converses me u (status_send E st) [] () u"
  "reliable E \<Longrightarrow> converses me u (status_try E st) [] () u"
  by (rule converse_quiet [where es = "[StatusSent st]"];
    simp add: status_try_def status_send_def attempt_def reliable_def prog_simps)+

lemma converse_wait [converse]: "converses me u wait_buffer_empty [] () u"
  using converse_emit [of BufferEmpty me u] by (simp add: wait_buffer_empty_def)

lemma converse_send_text [converse]:
  assumes "reliable E"
  shows "converses me u (send_text E str) [(me, text_msg str)] () u"
proof -
  have "converses me u (send_text E str) (map (Pair me) [text_msg str]) () u"
    by (rule converse_monologue, rule exI [of _ "[SentText str]"])
      (use assms in \<open>simp add: send_text_def send_event_def reliable_def text_msg_def prog_simps\<close>)
  then show ?thesis by simp
qed

lemma binary_not_special: "filter is_file_event (map SentBinary cs) = []" "user_events (map SentBinary cs) = []"
  by (induction cs) simp_all

lemma converse_string:
  assumes "reliable E"
  shows "converses me u (send_string_in_chunks () str (send_chunk E))
    (map (Pair me) (map (\<lambda>c. \<lparr>dm_is_string = False, dm_data = c\<rparr>) (chunks_of chunk_size (as_bytes str)))) () u"
proof (rule converse_monologue)
  fix tr
  let ?cs = "chunks_of chunk_size (as_bytes str)"
  show "\<exists>es. (\<forall>rx. send_string_in_chunks () str (send_chunk E) (hearing rx tr) = (Inr (), hearing rx (tr @ es)))
      \<and> sent_messages es = map (\<lambda>c. \<lparr>dm_is_string = False, dm_data = c\<rparr>) ?cs \<and> filter is_file_event es = []
      \<and> u @ user_events es = u"
    using iterate_run [OF assms, of ?cs]
    by (intro exI [of _ "map SentBinary ?cs"])
      (simp add: send_string_in_chunks_def process_in_chunks_eq sent_binary_messages binary_not_special prog_simps)
qed

lemma converse_chunks [converse]:
  assumes "reliable E"
  shows "converses me u (thenP (send_string_in_chunks () str (send_chunk E)) (send_delimiter E))
    (map (Pair me) (frame_string (as_bytes str))) () u"
  using converse_then [OF converse_string [OF assms, of me u str] converse_send_text [OF assms, of me u "''0''"]]
  by (simp add: send_delimiter_def frame_string_def text_msg_def triple_intro)

text \<open>Listening.\<close>

lemma converse_listen:
  assumes "\<And>s rest. rs_rx s = ms @ rest \<Longrightarrow> f s = (Inr v, s\<lparr>rs_rx := rest\<rparr>)"
  shows "converses me u f (map (Pair (other me)) ms) v u"
  using assms
  by (auto simp: converses_def ends_well_def intro!: in_turn_silent exI [of _ "[]"])

lemma converse_recv [converse]: "converses me u recv [(other me, m)] (Some m) u"
  using converse_listen [of "[m]" recv "Some m" me] by (simp add: recv_def)

lemma converse_receive_string [converse]:
  "converses me u receive_string_from_chunks (map (Pair (other me)) (frame_string bs)) bs u"
  by (rule converse_listen) (simp add: receive_string_from_chunks_def chunked.unframe_frame)

text \<open>Handling an error that does not happen.\<close>

lemma converse_handled:
  assumes f: "converses me u f d v w"
    and trace: "\<And>s. rs_trace (snd (h s)) = rs_trace (snd (f s))"
    and result: "\<And>s s'. f s = (Inr v, s') \<Longrightarrow> h s = (Inr v', s')"
  shows "converses me u h d v' w"
  using f result unfolding converses_def in_turn_def ends_well_def says_at_least_def trace
  by metis

lemma converse_map_error [converse]:
  "converses me u f d v w \<Longrightarrow> converses me u (map_error g f) d v w"
  by (erule converse_handled) (auto simp: map_error_def split: prod.split sum.split rtc_error.split)

lemma converse_attempt:
  "converses me u f d v w \<Longrightarrow> converses me u (attempt f) d (Inr v) w"
  by (erule converse_handled) (auto simp: attempt_def split: prod.split sum.split rtc_error.split)

end
