(* ===== verification/Rtc_Stages.thy ===== *)
theory Rtc_Stages
  imports Rtc_Dialogue
begin

text \<open>
  The stages of the sending and of the receiving task in a dialogue with an honest peer: nonces and
  tokens, a PIN that the user may first mistype, the list of files, the choice, the files.
\<close>

section \<open>The stages only add to the trace\<close>

lemma keeps_cases [triple_intro]:
  "keeps I f \<Longrightarrow> keeps I g \<Longrightarrow> (\<And>x. keeps I (h x)) \<Longrightarrow>
    keeps I (case a of ChannelClosed \<Rightarrow> f | AnswerDropped \<Rightarrow> g | Answered x \<Rightarrow> h x)"
  by (cases a) simp_all

lemma keeps_case_pin [triple_intro]:
  "(\<And>x. keeps I (h x)) \<Longrightarrow> keeps I p \<Longrightarrow> keeps I q \<Longrightarrow> (\<And>e. keeps I (g e)) \<Longrightarrow>
    keeps I (case c of CpOk x \<Rightarrow> h x | CpPinRequired \<Rightarrow> p | CpTooManyAttempts \<Rightarrow> q | CpParseError e \<Rightarrow> g e)"
  by (cases c) simp_all

lemma keeps_case_sending [triple_intro]:
  "(\<And>x. keeps I (h x)) \<Longrightarrow> keeps I p \<Longrightarrow> keeps I q \<Longrightarrow>
    keeps I (case r of PsOk x \<Rightarrow> h x | PsPinRequired \<Rightarrow> p | PsTooManyAttempts \<Rightarrow> q)"
  by (cases r) simp_all

lemma keeps_case_list [triple_intro]:
  "(\<And>x. keeps I (h x)) \<Longrightarrow> (\<And>x. keeps I (k x)) \<Longrightarrow> keeps I p \<Longrightarrow> keeps I q \<Longrightarrow>
    keeps I (case l of FlOk x \<Rightarrow> h x | FlPair x \<Rightarrow> k x | FlDeclined \<Rightarrow> p | FlInvalidSignature \<Rightarrow> q)"
  by (cases l) simp_all

lemma keeps_case_loop [triple_intro]:
  "keeps I p \<Longrightarrow> (\<And>x. keeps I (h x)) \<Longrightarrow> keeps I (case b of Break \<Rightarrow> p | Next x \<Rightarrow> h x)"
  by (cases b) simp_all

lemma keeps_case_prod [triple_intro]:
  "(\<And>x y. keeps I (h x y)) \<Longrightarrow> keeps I (case q of (x, y) \<Rightarrow> h x y)"
  by (cases q) simp

lemma grown_ask [triple_intro]:
  "keeps (grown tr) (ask_user_pin E)" "keeps (grown tr) (receive_pin_answer in_chunks)"
  unfolding ask_user_pin_def receive_pin_answer_def by (intro triple_intro)+

lemma grown_pin_loop: "keeps (grown tr) (handle_pin_loop n E X in_chunks parse)"
proof (induction n)
  case (Suc n)
  then show ?case
    unfolding handle_pin_loop.simps by (intro triple_intro)
qed (simp add: keeps_throw)

lemma grown_handle_pin [triple_intro]: "keeps (grown tr) (handle_pin E X in_chunks parse)"
  unfolding handle_pin_def by (rule keepsI) (rule keepsD [OF grown_pin_loop])

lemma grown_notice [triple_intro]:
  "keeps (grown tr) (receiving_notice E X r)" "keeps (grown tr) (sending_notice E X r)"
  unfolding receiving_notice.simps sending_notice.simps by (intro triple_intro)+

lemma grown_receive_pin [triple_intro]: "keeps (grown tr) (receive_pin X)"
  unfolding receive_pin_def by (intro triple_intro)

lemma grown_verify_loop:
  assumes result: "\<And>tr r. keeps (grown tr) (send_result r)"
  shows "keeps (grown tr) (verify_pin_loop E X cfg send_result notice pin k)"
proof -
  have reject: "keeps (grown tr) (reject_pin E send_result)"
    unfolding reject_pin_def by (intro triple_intro result)
  from reject result show ?thesis
  proof (induction E X cfg send_result notice pin k rule: verify_pin_loop.induct)
    case (1 E X cfg send_result notice pin k)
    then show ?case
      unfolding verify_pin_loop.simps [of E X cfg send_result notice pin k]
      by (intro keeps_if keeps_ret keeps_then keeps_bind grown_receive_pin) blast+
  qed
qed

lemma grown_verify_pin:
  "(\<And>tr r. keeps (grown tr) (send_result r)) \<Longrightarrow> keeps (grown tr) (verify_pin E X cfg notice send_result)"
  unfolding verify_pin_def by (intro triple_intro grown_verify_loop)

text \<open>The stages of both tasks.\<close>

lemma grown_receiver_stages [triple_intro]:
  "keeps (grown tr) (receive_nonce X)" "keeps (grown tr) (receiver_nonce E X)"
  "keeps (grown tr) (receive_token X)" "keeps (grown tr) (check_token X key t n)"
  "keeps (grown tr) (check_sender_token E X expecting t n)"
  "keeps (grown tr) (answer_token E X signing_key pin n)" "keeps (grown tr) (challenge_sender E X pin)"
  "keeps (grown tr) (receive_file_list E X)" "keeps (grown tr) (publish_file_list E files)"
  "keeps (grown tr) (user_selection E X)" "keeps (grown tr) (send_file_tokens E X ids)"
  unfolding receive_nonce_def receiver_nonce_def receive_token_def check_token_def check_sender_token_def
    answer_token_def challenge_sender_def receive_file_list_def publish_file_list_def user_selection_def
    send_file_tokens_def Let_def
  by (intro triple_intro grown_verify_pin)+

lemma grown_sender_stages [triple_intro]:
  "keeps (grown tr) (sender_nonce E X)" "keeps (grown tr) (send_token E X signing_key n)"
  "keeps (grown tr) (receive_token_response X)" "keeps (grown tr) (check_receiver_token X expecting response n)"
  "keeps (grown tr) (challenge_receiver E X pin)" "keeps (grown tr) (send_file_list E X files)"
  "keeps (grown tr) (receive_choice X)" "keeps (grown tr) (pair_request E X P t n public_key)"
  unfolding sender_nonce_def send_token_def receive_token_response_def check_receiver_token_def
    challenge_receiver_def send_file_list_def or_report_def receive_choice_def pair_request_def Let_def
  by (intro triple_intro grown_verify_pin)+

lemma grown_answer_challenge [triple_intro]: "keeps (grown tr) (answer_challenge E X response)"
  by (cases response) (simp_all add: answer_challenge_def grown_handle_pin keeps_ret)

lemma grown_handshakes [triple_intro]:
  "keeps (grown tr) (sender_handshake E X key expecting pin)"
  "keeps (grown tr) (receiver_handshake E X key expecting pin)"
  unfolding sender_handshake_def receiver_handshake_def by (intro triple_intro)+

lemma grown_or_report [triple_intro]: "keeps (grown tr) f \<Longrightarrow> keeps (grown tr) (or_report E f)"
  unfolding or_report_def by (intro triple_intro)

lemma grown_file_choice [triple_intro]:
  "keeps (grown tr) (file_choice E X P t n)" "keeps (grown tr) (publish_selection E file_map)"
  unfolding file_choice_def choice_after_pairing_def declined_def report_and_fail_def publish_selection_def
  by (intro triple_intro)+

lemma grown_send_files [triple_intro]:
  "keeps (grown tr) (send_files E X file_map sending)" "keeps (grown tr) (finish_sending E)"
proof -
  have chunks: "keeps (grown tr) (process_in_chunks () rx (send_chunk E))" for rx
  proof -
    have "keeps (grown tr) (iterate (send_chunk E) () cs)" for cs
      by (induction cs) (auto simp: send_chunk_def intro!: triple_intro)
    then show ?thesis by (auto simp: process_in_chunks_eq intro!: triple_intro)
  qed
  have "keeps (grown tr) (send_file E X file_map message)" for message
    unfolding send_file_def or_file_error_def by (intro triple_intro chunks)
  then show "keeps (grown tr) (send_files E X file_map sending)"
    by (induction sending) (auto intro!: triple_intro)
  show "keeps (grown tr) (finish_sending E)"
    unfolding finish_sending_def by (intro triple_intro)
qed

lemma grown_receive_files [triple_intro]: "keeps (grown tr) (receive_files E X file_tokens files)"
proof -
  have body: "keeps (grown tr) (receive_message E X file_tokens files m st)" for m st
    unfolding receive_message_def close_file_def end_of_file_def open_file_def Let_def
    by (intro triple_intro)
  have "keeps (grown tr) (while_recv (receive_message E X file_tokens files) ms st)" for ms st
    by (induction ms arbitrary: st) (auto intro!: triple_intro body)
  then show ?thesis
    unfolding receive_files_def recv_loop_def by (intro keepsI) (metis keepsD)
qed

section \<open>What the honest peers say\<close>

definition nonce_text :: "('z) crates_scheme \<Rightarrow> bytes \<Rightarrow> dc_message" where
  "nonce_text X n = text_msg (to_text X enc_nonce_message \<lparr>nm_nonce = x_b64_encode X n\<rparr>)"

definition sender_frame :: "('z) crates_scheme \<Rightarrow> rtc_pin_sending_response \<Rightarrow> dialogue" where
  "sender_frame X r = map (Pair SenderSide) (frame_string (as_bytes (to_text X enc_pin_sending r)))"

definition choice_frame :: "('z) crates_scheme \<Rightarrow> rtc_file_list_response \<Rightarrow> dialogue" where
  "choice_frame X r = map (Pair ReceiverSide) (frame_string (as_bytes (to_text X enc_file_list_response r)))"

definition nonces :: "('z) crates_scheme \<Rightarrow> bytes \<Rightarrow> bytes \<Rightarrow> dialogue" where
  "nonces X n m = [(SenderSide, nonce_text X n), (ReceiverSide, nonce_text X m)]"

definition tokens_shown :: "('z) crates_scheme \<Rightarrow> string \<Rightarrow> rtc_token_response \<Rightarrow> dialogue" where
  "tokens_shown X t response =
     [(SenderSide, text_msg (to_text X enc_token_request \<lparr>tq_token = t\<rparr>)),
      (ReceiverSide, text_msg (to_text X enc_token_response response))]"

text \<open>One PIN after the other, each wrong one answered by \<open>retry\<close>, up to the right one.\<close>

definition pin_tries :: "('z) crates_scheme \<Rightarrow> party \<Rightarrow> dialogue \<Rightarrow> string list \<Rightarrow> string \<Rightarrow> dialogue" where
  "pin_tries X me retry wrong pin =
     concat (map (\<lambda>w. (me, pin_text X w) # retry) wrong) @ [(me, pin_text X pin)]"

definition receiving_text :: "('z) crates_scheme \<Rightarrow> rtc_pin_receiving_response \<Rightarrow> dialogue" where
  "receiving_text X r = [(ReceiverSide, text_msg (to_text X enc_pin_receiving r))]"

definition sender_shows_pin :: "('z) crates_scheme \<Rightarrow> pin_config option \<Rightarrow> string list \<Rightarrow> dialogue" where
  "sender_shows_pin X pin wrong = (case pin of None \<Rightarrow> [] | Some cfg \<Rightarrow>
     pin_tries X SenderSide (receiving_text X PrPinRequired) wrong (pc_pin cfg) @ receiving_text X PrOk)"

definition receiver_shows_pin :: "('z) crates_scheme \<Rightarrow> pin_config option \<Rightarrow> string list \<Rightarrow> dialogue" where
  "receiver_shows_pin X pin wrong = (case pin of None \<Rightarrow> [] | Some cfg \<Rightarrow>
     sender_frame X PsPinRequired
     @ pin_tries X ReceiverSide (sender_frame X PsPinRequired) wrong (pc_pin cfg))"

lemma pin_tries_simps:
  "pin_tries X me retry [] pin = [(me, pin_text X pin)]"
  "pin_tries X me retry (w # ws) pin = (me, pin_text X w) # retry @ pin_tries X me retry ws pin"
  by (simp_all add: pin_tries_def)

section \<open>Listening\<close>

lemma text_msg_simps [simp]: "dm_is_string (text_msg t)" "dm_data (text_msg t) = as_bytes t"
  by (simp_all add: text_msg_def)

lemma pin_text_eq: "pin_text X p = text_msg (to_text X enc_pin_message \<lparr>pm_pin = p\<rparr>)"
  by (simp add: pin_text_def text_msg_def)

lemma converse_hear:
  assumes "\<And>s rest. rs_rx s = m # rest \<Longrightarrow> f s = (Inr v, s\<lparr>rs_rx := rest\<rparr>)"
  shows "converses me u f [(other me, m)] v u"
proof -
  have "converses me u f (map (Pair (other me)) [m]) v u"
    by (rule converse_listen) (simp add: assms)
  then show ?thesis by simp
qed

lemma hear_nonce:
  assumes "json_law X" and "b64_law X" and "validate_nonce n"
  shows "converses me u (receive_nonce X) [(other me, nonce_text X n)] n u"
  by (rule converse_hear) (use assms from_slice_to_text [OF assms(1) nonce_message_codec.json_codec_axioms] in
    \<open>simp add: receive_nonce_def recv_def expect_def b64_law_def nonce_text_def prog_simps\<close>)

lemma hear_token:
  assumes "json_law X"
  shows "converses me u (receive_token X)
    [(other me, text_msg (to_text X enc_token_request \<lparr>tq_token = t\<rparr>))] t u"
  by (rule converse_hear) (use from_slice_to_text [OF assms token_request_codec.json_codec_axioms] in
    \<open>simp add: receive_token_def recv_def expect_def prog_simps\<close>)

lemma hear_token_response:
  assumes "json_law X"
  shows "converses me u (receive_token_response X)
    [(other me, text_msg (to_text X enc_token_response response))] response u"
  by (rule converse_hear) (use from_slice_to_text [OF assms token_response_codec.json_codec_axioms] in
    \<open>simp add: receive_token_response_def recv_def expect_def prog_simps\<close>)

lemma hear_pin:
  assumes "json_law X"
  shows "converses me u (receive_pin X) [(other me, pin_text X p)] p u"
  by (rule converse_hear) (use from_slice_to_text [OF assms pin_message_codec.json_codec_axioms] in
    \<open>simp add: receive_pin_def recv_def expect_def pin_text_eq prog_simps\<close>)

section \<open>Stages in turn\<close>

lemma map_error_ret [simp]: "map_error g (ret x) = ret x"
  by (simp add: map_error_def prog_simps fun_eq_iff)

lemma converse_cong: "converses me u f d v w \<Longrightarrow> d = d' \<Longrightarrow> converses me u f d' v w"
  by simp

text \<open>A stage that says nothing first or last.\<close>

lemma converse_quiet_then:
  "converses me u f [] () w \<Longrightarrow> converses me w g d v w' \<Longrightarrow> (\<And>tr. keeps (grown tr) g) \<Longrightarrow>
   converses me u (thenP f g) d v w'"
  using converse_then [of me u f "[]" "()" w g d v w'] by simp

lemma converse_then_ret:
  "converses me u f d v w \<Longrightarrow> converses me u (bindP f (\<lambda>x. ret (h x))) d (h v) w"
  using converse_bind [of me u f d v w "\<lambda>x. ret (h x)" "[]" "h v" w] by (simp add: converse_ret keeps_ret)

lemma sender_nonce_converses:
  assumes "reliable E" and "json_law X" and "b64_law X" and "validate_nonce n"
  shows "converses SenderSide u (sender_nonce E X) (nonces X (generate_nonce (en_nonce E)) n)
    (generate_nonce (en_nonce E) @ n) u"
proof -
  let ?n = "generate_nonce (en_nonce E)"
  have "converses SenderSide u (sender_nonce E X)
      ([(SenderSide, nonce_text X ?n)] @ [(other SenderSide, nonce_text X n)]) (?n @ n) u"
    unfolding sender_nonce_def Let_def nonce_text_def [of X ?n]
    by (rule converse_then converse_then_ret hear_nonce converse assms | intro triple_intro)+
  then show ?thesis by (simp add: nonces_def)
qed

lemma receiver_nonce_converses:
  assumes "reliable F" and "json_law X" and "b64_law X" and "validate_nonce n"
  shows "converses ReceiverSide u (receiver_nonce F X) (nonces X n (generate_nonce (en_nonce F)))
    (n @ generate_nonce (en_nonce F)) u"
proof -
  let ?n = "generate_nonce (en_nonce F)"
  have "converses ReceiverSide u (receiver_nonce F X)
      ([(other ReceiverSide, nonce_text X n)] @ [(ReceiverSide, nonce_text X ?n)] @ []) (n @ ?n) u"
    unfolding receiver_nonce_def Let_def nonce_text_def [of X ?n]
    by (rule converse_bind converse_then hear_nonce converse assms | intro triple_intro)+
  then show ?thesis by (simp add: nonces_def)
qed

lemma send_token_converses:
  assumes "reliable E" and "generate_token_nonce X key n = Inr t"
  shows "converses me u (send_token E X key n) [(me, text_msg (to_text X enc_token_request \<lparr>tq_token = t\<rparr>))] () u"
  using assms by (auto simp: send_token_def lift_def intro!: converse)

definition token_answer :: "pin_config option \<Rightarrow> string \<Rightarrow> rtc_token_response" where
  "token_answer pin t = (case pin of Some _ \<Rightarrow> TokPinRequired t | None \<Rightarrow> TokOk t)"

lemma answer_token_converses:
  assumes "reliable F" and "generate_token_nonce X key n = Inr t"
  shows "converses me u (answer_token F X key pin n)
    [(me, text_msg (to_text X enc_token_response (token_answer pin t)))] () u"
  using assms by (auto simp: answer_token_def token_answer_def lift_def intro!: converse)

text \<open>The other side's token passes: no key is expected, or the one that made the token.\<close>

definition key_expected :: "signing_token_key \<Rightarrow> verifying_token_key option \<Rightarrow> bool" where
  "key_expected key expecting \<longleftrightarrow> expecting = None \<or> expecting = Some (to_verifying_key key)"

lemma token_passes:
  assumes "b64_law X" and "sign_law key" and "key_expected key expecting"
    and "generate_token_nonce X key n = Inr t"
  shows "check_sender_token F X expecting t n = ret ()"
    and "check_receiver_token X expecting (token_answer pin t) n = ret t"
proof -
  have "verify_token_nonce X (to_verifying_key key) t n = Some True"
    using generated_valid [OF assms(1,2,4)] by (simp add: verify_token_nonce_True)
  with assms(3) show "check_sender_token F X expecting t n = ret ()"
    and "check_receiver_token X expecting (token_answer pin t) n = ret t"
    by (auto simp: key_expected_def check_sender_token_def check_receiver_token_def check_token_def
        token_answer_def split: option.split)
qed

section \<open>A user who knows the PIN but mistypes it\<close>

text \<open>
  Asked for the \<open>i\<close>-th time, the user enters the \<open>i\<close>-th wrong PIN, and the right one after these;
  the attempts the other side allows suffice.
\<close>

definition knows_pin :: "env \<Rightarrow> pin_config option \<Rightarrow> string list \<Rightarrow> bool" where
  "knows_pin E pin wrong \<longleftrightarrow> (case pin of None \<Rightarrow> wrong = [] | Some cfg \<Rightarrow>
     pc_pin cfg \<noteq> [] \<and> pc_pin cfg \<notin> set wrong \<and> length wrong < unat (pc_max_tries cfg)
     \<and> (\<forall>tr i. i \<le> length wrong \<longrightarrow> user_events tr = replicate i PinAsked \<longrightarrow>
          en_pin E tr = Answered ((wrong @ [pc_pin cfg]) ! i)))"

text \<open>What the user has seen when the right PIN has been entered.\<close>

definition asked :: "pin_config option \<Rightarrow> string list \<Rightarrow> event list" where
  "asked pin wrong = (case pin of None \<Rightarrow> [] | Some _ \<Rightarrow> replicate (Suc (length wrong)) PinAsked)"

text \<open>One round of \<open>handle_pin\<close>, with \<open>again\<close> for the next one.\<close>

definition pin_round :: "env \<Rightarrow> ('z) crates_scheme \<Rightarrow> bool \<Rightarrow> (bytes \<Rightarrow> 'a challenge_pin_result)
    \<Rightarrow> 'a prog \<Rightarrow> 'a prog" where
  "pin_round E X in_chunks parse_response again =
     thenP (status_send E PinRequired)
    (bindP (ask_user_pin E) (\<lambda>pin.
     thenP (send_text E (to_text X enc_pin_message \<lparr>pm_pin = pin\<rparr>))
    (bindP (receive_pin_answer in_chunks) (\<lambda>answer.
       case parse_response answer of
         CpOk result \<Rightarrow> ret result
       | CpPinRequired \<Rightarrow> again
       | CpTooManyAttempts \<Rightarrow>
           thenP (status_send E TooManyAttempts) (fail ''Too many requests'')
       | CpParseError e \<Rightarrow> fail e))))"

lemma handle_pin_loop_Suc:
  "handle_pin_loop (Suc n) E X in_chunks parse = pin_round E X in_chunks parse (handle_pin_loop n E X in_chunks parse)"
  by (simp add: pin_round_def)

text \<open>What a round does up to the answer.\<close>

definition pin_shown_events :: "('z) crates_scheme \<Rightarrow> string \<Rightarrow> event list" where
  "pin_shown_events X p = [StatusSent PinRequired, PinAsked, SentText (to_text X enc_pin_message \<lparr>pm_pin = p\<rparr>)]"

lemma pin_shown_simps [simp]:
  "user_events (pin_shown_events X p) = [PinAsked]" "filter is_file_event (pin_shown_events X p) = []"
  "sent_messages (pin_shown_events X p) = [pin_text X p]"
  by (simp_all add: pin_shown_events_def pin_text_eq text_msg_def)

definition hears :: "bool \<Rightarrow> dc_message list \<Rightarrow> bytes \<Rightarrow> bool" where
  "hears in_chunks ms bs \<longleftrightarrow> ms \<noteq> [] \<and> (\<forall>tr rest.
     receive_pin_answer in_chunks (hearing (ms @ rest) tr) = (Inr bs, hearing rest tr))"

lemma hears_text: "hears False [text_msg t] (as_bytes t)"
  by (simp add: hears_def receive_pin_answer_def recv_def prog_simps)

lemma hears_frame: "hears True (frame_string bs) bs"
  by (simp add: hears_def receive_pin_answer_def receive_string_from_chunks_def chunked.unframe_frame)
    (simp add: frame_string_def)

lemma pin_round_run:
  assumes "reliable E" and "en_pin E (tr @ [StatusSent PinRequired]) = Answered p" and "hears in_chunks ms bs"
  shows "pin_round E X in_chunks parse again (hearing (ms @ rest) tr) =
    (case parse bs of
       CpOk result \<Rightarrow> (Inr result, hearing rest (tr @ pin_shown_events X p))
     | CpPinRequired \<Rightarrow> again (hearing rest (tr @ pin_shown_events X p))
     | CpTooManyAttempts \<Rightarrow> thenP (status_send E TooManyAttempts) (fail ''Too many requests'')
         (hearing rest (tr @ pin_shown_events X p))
     | CpParseError e \<Rightarrow> fail e (hearing rest (tr @ pin_shown_events X p)))"
  using assms by (simp add: pin_round_def ask_user_pin_def status_send_def send_text_def send_event_def
      reliable_def hears_def pin_shown_events_def prog_simps split: challenge_pin_result.split)

lemma pin_round_says:
  assumes "reliable E" and "en_pin E (tr @ [StatusSent PinRequired]) = Answered p"
    and "\<And>tr. keeps (grown tr) again"
  shows "says_at_least (pin_round E X in_chunks parse again) rx tr [pin_text X p]"
proof -
  define after where "after = bindP (receive_pin_answer in_chunks) (\<lambda>answer.
       case parse answer of
         CpOk result \<Rightarrow> ret result
       | CpPinRequired \<Rightarrow> again
       | CpTooManyAttempts \<Rightarrow>
           thenP (status_send E TooManyAttempts) (fail ''Too many requests'')
       | CpParseError e \<Rightarrow> fail e)"
  have "keeps (grown tr) after" for tr
    unfolding after_def by (intro triple_intro assms(3))
  then obtain es where "rs_trace (snd (after (hearing rx (tr @ pin_shown_events X p)))) = (tr @ pin_shown_events X p) @ es"
    using keeps_grown [of "hearing rx (tr @ pin_shown_events X p)" after] by auto
  moreover have "pin_round E X in_chunks parse again (hearing rx tr) = after (hearing rx (tr @ pin_shown_events X p))"
    using assms(1,2) by (simp add: pin_round_def after_def ask_user_pin_def status_send_def send_text_def
        send_event_def reliable_def pin_shown_events_def prog_simps)
  ultimately show ?thesis
    unfolding says_at_least_def by (intro exI [of _ "pin_shown_events X p @ es"]) simp
qed

text \<open>The whole loop, with the fuel it has when it hears only a part of the dialogue.\<close>

definition user_enters :: "env \<Rightarrow> event list \<Rightarrow> string list \<Rightarrow> bool" where
  "user_enters E u ps \<longleftrightarrow> (\<forall>tr i. i < length ps \<longrightarrow> user_events tr = u @ replicate i PinAsked \<longrightarrow>
     en_pin E tr = Answered (ps ! i))"

lemma user_enters_Cons:
  assumes "user_enters E u (p # ps)"
  shows "user_events tr = u \<Longrightarrow> en_pin E (tr @ [StatusSent PinRequired]) = Answered p"
    and "user_enters E (u @ [PinAsked]) ps"
proof -
  show "en_pin E (tr @ [StatusSent PinRequired]) = Answered p" if "user_events tr = u"
    using assms [unfolded user_enters_def, rule_format, where i = 0 and tr = "tr @ [StatusSent PinRequired]"] that
    by simp
  show "user_enters E (u @ [PinAsked]) ps"
    using assms unfolding user_enters_def
    by (metis Suc_less_eq append.assoc append_Cons append_Nil length_Cons nth_Cons_Suc replicate_Suc)
qed

definition in_turn_upto :: "nat \<Rightarrow> party \<Rightarrow> 'a prog \<Rightarrow> dialogue \<Rightarrow> event list \<Rightarrow> bool" where
  "in_turn_upto n me f d tr \<longleftrightarrow> (\<forall>d1 m d2. d = d1 @ (me, m) # d2 \<longrightarrow> length (says (other me) d1) < n \<longrightarrow>
     says_at_least f (says (other me) d1) tr (says me d1 @ [m]))"

lemma shown_events_all:
  "user_events (concat (map (pin_shown_events X) ps)) = replicate (length ps) PinAsked"
  "filter is_file_event (concat (map (pin_shown_events X) ps)) = []"
  "sent_messages (concat (map (pin_shown_events X) ps)) = map (pin_text X) ps"
  by (induction ps) simp_all

lemma user_enters_last:
  assumes "user_enters E u (ps @ [p])" and "user_events tr = u"
  shows "en_pin E ((tr @ concat (map (pin_shown_events X) ps)) @ [StatusSent PinRequired]) = Answered p"
  using assms(1) [unfolded user_enters_def, rule_format, where i = "length ps"
      and tr = "(tr @ concat (map (pin_shown_events X) ps)) @ [StatusSent PinRequired]"] assms(2)
  by (simp add: shown_events_all)

lemma handle_pin_loop_wrong:
  assumes E: "reliable E" and wrong: "hears in_chunks ms bs" "parse bs = CpPinRequired"
  shows "user_enters E u (ps @ qs) \<Longrightarrow> length ps \<le> n \<Longrightarrow> user_events tr = u \<Longrightarrow>
    handle_pin_loop n E X in_chunks parse (hearing (concat (map (\<lambda>_. ms) ps) @ rest) tr)
      = handle_pin_loop (n - length ps) E X in_chunks parse
          (hearing rest (tr @ concat (map (pin_shown_events X) ps)))"
proof (induction ps arbitrary: n u tr)
  case (Cons q ps)
  then obtain k where n: "n = Suc k" by (cases n) auto
  note enters = user_enters_Cons [of E u q "ps @ qs"]
  have "en_pin E (tr @ [StatusSent PinRequired]) = Answered q"
    using enters(1) Cons.prems by simp
  then show ?case
    using Cons.IH [of "u @ [PinAsked]" k "tr @ pin_shown_events X q"] Cons.prems enters(2)
    unfolding n handle_pin_loop_Suc by (simp add: pin_round_run [OF E _ wrong(1)] wrong(2))
qed simp

lemma handle_pin_loop_run:
  assumes E: "reliable E" and wrong: "hears in_chunks ms bs" "parse bs = CpPinRequired"
    and right: "hears in_chunks ms' bs'" "parse bs' = CpOk v"
    and enters: "user_enters E u (ps @ [p])" and fuel: "length ps < n" and u: "user_events tr = u"
  shows "handle_pin_loop n E X in_chunks parse (hearing (concat (map (\<lambda>_. ms) ps) @ ms' @ rest) tr)
      = (Inr v, hearing rest (tr @ concat (map (pin_shown_events X) (ps @ [p]))))"
proof -
  obtain k where k: "n - length ps = Suc k"
    using fuel by (cases "n - length ps") auto
  from handle_pin_loop_wrong [where parse = parse and rest = "ms' @ rest", OF E wrong enters less_imp_le [OF fuel] u]
  show ?thesis
    unfolding k handle_pin_loop_Suc
    by (simp add: pin_round_run [OF E user_enters_last [OF enters u] right(1)] right(2))
qed

lemma handle_pin_loop_turns:
  assumes E: "reliable E" and wrong: "hears in_chunks ms bs" "parse bs = CpPinRequired"
    and ms: "retry = map (Pair (other me)) ms"
  shows "user_enters E u (ps @ [p]) \<Longrightarrow> user_events tr = u \<Longrightarrow>
    in_turn_upto n me (handle_pin_loop n E X in_chunks parse)
      (pin_tries X me retry ps p @ map (Pair (other me)) ms') tr"
proof (induction n arbitrary: ps u tr)
  case 0
  then show ?case by (simp add: in_turn_upto_def)
next
  case (Suc n)
  obtain q qs where ps: "ps @ [p] = q # qs" by (cases ps) auto
  have q: "en_pin E (tr @ [StatusSent PinRequired]) = Answered q"
    using user_enters_Cons(1) [of E u q qs] Suc.prems ps by simp
  have first: "says_at_least (handle_pin_loop (Suc n) E X in_chunks parse) rx tr [pin_text X q]" for rx
    unfolding handle_pin_loop_Suc by (rule pin_round_says [OF E q grown_pin_loop])
  show ?case
    unfolding in_turn_upto_def
  proof (intro allI impI)
    fix d1 m d2
    assume d: "pin_tries X me retry ps p @ map (Pair (other me)) ms' = d1 @ (me, m) # d2"
      and len: "length (says (other me) d1) < Suc n"
    show "says_at_least (handle_pin_loop (Suc n) E X in_chunks parse) (says (other me) d1) tr (says me d1 @ [m])"
    proof (cases ps)
      case Nil
      then have "d1 = [] \<and> m = pin_text X q"
        using d ps by (auto simp: pin_tries_simps Cons_eq_append_conv map_eq_append_conv map_eq_Cons_conv)
      then show ?thesis using first by simp
    next
      case (Cons r rs)
      then have r: "r = q" using ps by simp
      from d show ?thesis
      proof (cases d1)
        case Nil
        then show ?thesis using d Cons r first by (simp add: pin_tries_simps)
      next
        case (Cons x e1)
        have e1: "map (Pair (other me)) ms @ pin_tries X me retry rs p @ map (Pair (other me)) ms' = e1 @ (me, m) # d2"
          and x: "x = (me, pin_text X q)"
          using d Cons \<open>ps = r # rs\<close> r by (simp_all add: pin_tries_simps ms)
        obtain e2 where e2: "e1 = map (Pair (other me)) ms @ e2"
          "pin_tries X me retry rs p @ map (Pair (other me)) ms' = e2 @ (me, m) # d2"
        proof -
          have "\<not> (\<exists>ys. map (Pair (other me)) ms = e1 @ (me, m) # ys)"
            by (auto simp: map_eq_append_conv map_eq_Cons_conv)
          with e1 that show ?thesis
            by (auto simp: append_eq_append_conv2 append_eq_Cons_conv Cons_eq_append_conv)
        qed
        have "length (says (other me) e2) < n"
          using len wrong(1) by (simp add: Cons x e2(1) hears_def) (cases ms; simp)
        moreover have "user_enters E (u @ [PinAsked]) (rs @ [p])"
          using user_enters_Cons(2) [of E u q qs] Suc.prems(1) ps \<open>ps = r # rs\<close> by simp
        ultimately have "says_at_least (handle_pin_loop n E X in_chunks parse) (says (other me) e2)
            (tr @ pin_shown_events X q) (says me e2 @ [m])"
          using Suc.IH [of "u @ [PinAsked]" rs "tr @ pin_shown_events X q"] Suc.prems(2) e2(2)
          unfolding in_turn_upto_def by simp
        then obtain es more where "rs_trace (snd (handle_pin_loop n E X in_chunks parse
            (hearing (says (other me) e2) (tr @ pin_shown_events X q)))) = (tr @ pin_shown_events X q) @ es"
          "sent_messages es = (says me e2 @ [m]) @ more"
          unfolding says_at_least_def by blast
        then show ?thesis
          unfolding says_at_least_def handle_pin_loop_Suc
          by (intro exI [of _ "pin_shown_events X q @ es"] exI [of _ more])
            (simp add: Cons x e2(1) pin_round_run [OF E q wrong(1)] wrong(2))
      qed
    qed
  qed
qed

lemma says_pin_tries:
  assumes "retry = map (Pair (other me)) ms"
  shows "says (other me) (pin_tries X me retry ps p) = concat (map (\<lambda>_. ms) ps)"
    and "says me (pin_tries X me retry ps p) = map (pin_text X) (ps @ [p])"
  using assms by (induction ps) (simp_all add: pin_tries_simps)

lemma handle_pin_converses:
  assumes E: "reliable E" and enters: "user_enters E u (wrong @ [p])"
    and retry: "hears in_chunks ms bs" "parse bs = CpPinRequired" "retry = map (Pair (other me)) ms"
    and right: "hears in_chunks ms' bs'" "parse bs' = CpOk v" "final = map (Pair (other me)) ms'"
  shows "converses me u (handle_pin E X in_chunks parse) (pin_tries X me retry wrong p @ final) v
    (u @ replicate (Suc (length wrong)) PinAsked)"
  unfolding converses_def
proof (intro allI impI)
  fix tr
  assume u: "user_events tr = u"
  let ?d = "pin_tries X me retry wrong p @ final" and ?es = "concat (map (pin_shown_events X) (wrong @ [p]))"
  have "in_turn me (handle_pin E X in_chunks parse) ?d tr"
    using handle_pin_loop_turns [where ms' = ms' and parse = parse and ps = wrong and p = p and u = u,
        OF E retry enters u, folded right(3)]
    unfolding in_turn_def in_turn_upto_def says_at_least_def handle_pin_def by fastforce
  moreover have "length wrong \<le> length (concat (map (\<lambda>_. ms) wrong))"
    using retry(1) by (induction wrong) (auto simp: hears_def neq_Nil_conv)
  then have fuel: "length wrong < Suc (length (concat (map (\<lambda>_. ms) wrong) @ ms' @ rest))" for rest
    by simp
  have "handle_pin E X in_chunks parse (hearing (says (other me) ?d @ rest) tr) = (Inr v, hearing rest (tr @ ?es))" for rest
    using handle_pin_loop_run [where rest = rest, OF E retry(1,2) right(1,2) enters fuel [of rest] u]
    by (simp add: handle_pin_def says_pin_tries [OF retry(3)] right(3) del: handle_pin_loop.simps)
  then have "ends_well me (handle_pin E X in_chunks parse) ?d v tr ?es"
    unfolding ends_well_def by (simp add: shown_events_all says_pin_tries [OF retry(3)] right(3)
        del: map_append concat_append)
  moreover have "user_events (tr @ ?es) = u @ replicate (Suc (length wrong)) PinAsked"
    unfolding filter_append shown_events_all u by simp
  ultimately show "in_turn me (handle_pin E X in_chunks parse) ?d tr
      \<and> (\<exists>es. ends_well me (handle_pin E X in_chunks parse) ?d v tr es
        \<and> user_events (tr @ es) = u @ replicate (Suc (length wrong)) PinAsked)"
    by blast
qed

text \<open>The other side checks.\<close>

lemma verify_loop_converses:
  assumes X: "json_law X" and retry: "\<And>u. converses me u (send_result VpPinRequired) retry () u"
    and grows: "\<And>tr r. keeps (grown tr) (send_result r)" and p: "p = pc_pin cfg"
  shows "pin \<noteq> p \<Longrightarrow> p \<notin> set wrong \<Longrightarrow> unat k + length wrong < unat (pc_max_tries cfg) \<Longrightarrow>
    converses me u (verify_pin_loop E X cfg send_result notice pin k)
      ((if notice \<or> 0 < k then retry else []) @ pin_tries X (other me) retry wrong p) () u"
proof (induction wrong arbitrary: notice pin k)
  have step: "verify_pin_loop E X cfg send_result notice pin k
      = thenP (if notice \<or> 0 < k then send_result VpPinRequired else ret ())
          (bindP (receive_pin X) (\<lambda>q. verify_pin_loop E X cfg send_result False q (k + 1)))"
    if "pin \<noteq> p" "unat k < unat (pc_max_tries cfg)" for notice pin k
    using that by (subst verify_pin_loop.simps) (auto simp: p word_le_nat_alt)
  have said: "converses me u (if notice \<or> 0 < k then send_result VpPinRequired else ret ())
      (if notice \<or> 0 < k then retry else []) () u" for notice k
    using retry by (simp add: converse_ret)
  have done_: "verify_pin_loop E X cfg send_result b p k = ret ()" for b k
    by (simp add: verify_pin_loop.simps p)
  have grows': "keeps (grown tr) (verify_pin_loop E X cfg send_result b q k)" for tr b q k
    by (rule grown_verify_loop) (rule grows)
  {
    case Nil
    then have k: "unat k < unat (pc_max_tries cfg)" by simp
    have "converses me u (verify_pin_loop E X cfg send_result notice pin k)
        ((if notice \<or> 0 < k then retry else []) @ [(other me, pin_text X p)] @ []) () u"
      unfolding step [OF Nil(1) k]
      by (rule converse_then converse_bind said hear_pin X converse_ret
          | intro triple_intro grows' | simp only: done_)+
    then show ?case by (simp add: pin_tries_simps)
  next
    case (Cons q qs)
    then have k: "unat k < unat (pc_max_tries cfg)" by simp
    have k': "unat (k + 1) = Suc (unat k)"
      by (rule unat_try_Suc [of "pc_max_tries cfg"]) (use k in \<open>simp add: word_le_nat_alt\<close>)
    then have pos: "0 < k + 1" by (simp add: word_less_nat_alt)
    have "converses me u (verify_pin_loop E X cfg send_result False q (k + 1))
        ((if False \<or> 0 < k + 1 then retry else []) @ pin_tries X (other me) retry qs p) () u"
      using Cons.prems k' by (intro Cons.IH) auto
    then have more: "converses me u (verify_pin_loop E X cfg send_result False q (k + 1))
        (retry @ pin_tries X (other me) retry qs p) () u"
      using pos by simp
    have "converses me u (verify_pin_loop E X cfg send_result notice pin k)
        ((if notice \<or> 0 < k then retry else []) @ [(other me, pin_text X q)]
         @ retry @ pin_tries X (other me) retry qs p) () u"
      unfolding step [OF Cons.prems(1) k]
      by (rule converse_then converse_bind said hear_pin X more | intro triple_intro grows')+
    then show ?case by (simp add: pin_tries_simps)
  }
qed

lemma verify_pin_converses:
  assumes "json_law X" and "reliable E" and "pc_pin cfg \<noteq> []" "pc_pin cfg \<notin> set wrong"
    "length wrong < unat (pc_max_tries cfg)"
    and retry: "\<And>u. converses me u (send_result VpPinRequired) retry () u"
      "\<And>tr r. keeps (grown tr) (send_result r)"
  shows "converses me u (verify_pin E X cfg notice send_result)
    ((if notice then retry else []) @ pin_tries X (other me) retry wrong (pc_pin cfg)) () u"
proof -
  have "converses me u (verify_pin_loop E X cfg send_result notice [] 0)
      ((if notice \<or> 0 < (0 :: u8) then retry else []) @ pin_tries X (other me) retry wrong (pc_pin cfg)) () u"
    using assms(3-5) by (intro verify_loop_converses [where cfg = cfg and send_result = send_result and retry = retry,
        OF assms(1) retry refl]) auto
  then show ?thesis
    unfolding verify_pin_def using assms(2)
    by (intro converse_quiet_then [OF converse_status(1)] grown_verify_loop retry(2)) simp_all
qed

lemma knows_pin_Some:
  assumes "knows_pin E (Some cfg) wrong"
  shows "pc_pin cfg \<noteq> []" "pc_pin cfg \<notin> set wrong" "length wrong < unat (pc_max_tries cfg)"
    "user_enters E [] (wrong @ [pc_pin cfg])"
  using assms by (auto simp: knows_pin_def user_enters_def)

lemma parse_receiving_text:
  assumes "json_law X"
  shows "parse_pin_receiving X (as_bytes (to_text X enc_pin_receiving r)) =
      (case r of PrOk \<Rightarrow> CpOk () | PrPinRequired \<Rightarrow> CpPinRequired | PrTooManyAttempts \<Rightarrow> CpTooManyAttempts)"
  by (cases r) (simp_all add: parse_pin_receiving_def from_slice_to_text [OF assms pin_receiving_codec.json_codec_axioms])

lemma answer_challenge_converses:
  assumes "json_law X" and "reliable E" and "knows_pin E pin wrong"
  shows "converses SenderSide [] (answer_challenge E X (token_answer pin t)) (sender_shows_pin X pin wrong) ()
    (asked pin wrong)"
proof (cases pin)
  case (Some cfg)
  have "converses SenderSide [] (handle_pin E X False (parse_pin_receiving X))
      (pin_tries X SenderSide (receiving_text X PrPinRequired) wrong (pc_pin cfg) @ receiving_text X PrOk) ()
      ([] @ replicate (Suc (length wrong)) PinAsked)"
    by (rule handle_pin_converses [OF assms(2) knows_pin_Some(4) [OF assms(3) [unfolded Some]] hears_text _ _ hears_text])
      (simp_all add: parse_receiving_text [OF assms(1)] receiving_text_def)
  then show ?thesis
    by (simp add: answer_challenge_def token_answer_def sender_shows_pin_def asked_def Some)
qed (simp add: answer_challenge_def token_answer_def sender_shows_pin_def asked_def converse_ret)

lemma challenge_sender_converses:
  assumes "json_law X" and "reliable F" and "knows_pin E pin wrong"
  shows "converses ReceiverSide u (challenge_sender F X pin) (sender_shows_pin X pin wrong) () u"
proof (cases pin)
  case (Some cfg)
  note known = knows_pin_Some [OF assms(3) [unfolded Some]]
  have "converses ReceiverSide u (verify_pin F X cfg False (receiving_notice F X))
      ((if False then receiving_text X PrPinRequired else [])
       @ pin_tries X (other ReceiverSide) (receiving_text X PrPinRequired) wrong (pc_pin cfg)) () u"
    using assms(2) by (intro verify_pin_converses assms(1) known(1-3) triple_intro)
      (simp_all add: converse receiving_text_def)
  from converse_then [OF this converse_send_text [OF assms(2)]] show ?thesis
    by (simp add: challenge_sender_def sender_shows_pin_def receiving_text_def Some triple_intro)
qed (simp add: challenge_sender_def sender_shows_pin_def converse_ret)

lemma challenge_receiver_converses:
  assumes "json_law X" and "reliable E" and "knows_pin F pin wrong"
  shows "converses SenderSide u (challenge_receiver E X pin) (receiver_shows_pin X pin wrong) () u"
proof (cases pin)
  case (Some cfg)
  note known = knows_pin_Some [OF assms(3) [unfolded Some]]
  have "converses SenderSide u (verify_pin E X cfg True (sending_notice E X))
      ((if True then sender_frame X PsPinRequired else [])
       @ pin_tries X (other SenderSide) (sender_frame X PsPinRequired) wrong (pc_pin cfg)) () u"
    using assms(2) by (intro verify_pin_converses assms(1) known(1-3) triple_intro)
      (simp_all add: converse sender_frame_def)
  then show ?thesis
    by (simp add: challenge_receiver_def receiver_shows_pin_def Some)
qed (simp add: challenge_receiver_def receiver_shows_pin_def converse_ret)

section \<open>The list of files\<close>

lemma or_report_converses:
  assumes "converses me u f d () w"
  shows "converses me u (or_report E f) d () w"
proof -
  have "converses me u (or_report E f) (d @ []) () w"
    unfolding or_report_def
    by (rule converse_bind converse_attempt [OF assms] | intro triple_intro | simp add: converse_ret)+
  then show ?thesis by simp
qed

lemma send_file_list_converses:
  assumes "reliable E"
  shows "converses SenderSide u (send_file_list E X files) (sender_frame X (PsOk files)) () u"
proof -
  let ?str = "to_text X enc_pin_sending (PsOk files)"
  let ?cs = "map (\<lambda>c. \<lparr>dm_is_string = False, dm_data = c\<rparr>) (chunks_of chunk_size (as_bytes ?str))"
  have string: "converses SenderSide u (send_string_in_chunks () ?str (send_chunk E)) (map (Pair SenderSide) ?cs) () u"
    by (rule converse_string [OF assms])
  have delimiter: "converses SenderSide u (send_delimiter E) [(SenderSide, text_msg ''0'')] () u"
    unfolding send_delimiter_def by (rule converse_send_text [OF assms])
  have "converses SenderSide u (send_file_list E X files)
      (map (Pair SenderSide) ?cs @ [(SenderSide, text_msg ''0'')]) () u"
    unfolding send_file_list_def
    by (rule converse_then or_report_converses string delimiter | intro triple_intro)+
  then show ?thesis by (simp add: sender_frame_def frame_string_def text_msg_def)
qed

lemma receive_file_list_converses:
  assumes "json_law X" and "reliable F" and "knows_pin F pin wrong"
  shows "converses ReceiverSide [] (receive_file_list F X)
    (receiver_shows_pin X pin wrong @ sender_frame X (PsOk files)) files (asked pin wrong)"
proof -
  let ?str = "\<lambda>r. as_bytes (to_text X enc_pin_sending r)"
  have parse: "from_slice X dec_pin_sending (?str r) = Some r" for r
    by (rule from_slice_to_text [OF assms(1) pin_sending_codec.json_codec_axioms])
  have hear: "converses ReceiverSide u receive_string_from_chunks (sender_frame X r) (?str r) u" for r u
    using converse_receive_string [of ReceiverSide u "?str r"] by (simp add: sender_frame_def)
  show ?thesis
  proof (cases pin)
    case None
    have "converses ReceiverSide [] (receive_file_list F X) (sender_frame X (PsOk files) @ []) files []"
      unfolding receive_file_list_def
      by (rule converse_bind hear | intro triple_intro | simp add: parse expect_def converse_ret)+
    then show ?thesis by (simp add: receiver_shows_pin_def asked_def None)
  next
    case (Some cfg)
    have answer: "converses ReceiverSide [] (handle_pin F X True (parse_pin_sending X))
        (pin_tries X ReceiverSide (sender_frame X PsPinRequired) wrong (pc_pin cfg) @ sender_frame X (PsOk files)) files
        ([] @ replicate (Suc (length wrong)) PinAsked)"
      by (rule handle_pin_converses [OF assms(2) knows_pin_Some(4) [OF assms(3) [unfolded Some]] hears_frame _ _ hears_frame])
        (simp_all add: parse_pin_sending_def parse sender_frame_def)
    have "converses ReceiverSide [] (receive_file_list F X) (sender_frame X PsPinRequired
        @ pin_tries X ReceiverSide (sender_frame X PsPinRequired) wrong (pc_pin cfg) @ sender_frame X (PsOk files)) files
        ([] @ replicate (Suc (length wrong)) PinAsked)"
      unfolding receive_file_list_def
      by (rule converse_bind [OF hear]) (simp add: parse expect_def answer [simplified], intro triple_intro)
    then show ?thesis by (simp add: receiver_shows_pin_def asked_def Some)
  qed
qed

section \<open>The handshakes\<close>

definition handshake_dialogue :: "('z) crates_scheme \<Rightarrow> bytes \<Rightarrow> bytes \<Rightarrow> string \<Rightarrow> string
    \<Rightarrow> pin_config option \<Rightarrow> pin_config option \<Rightarrow> string list \<Rightarrow> string list \<Rightarrow> dialogue" where
  "handshake_dialogue X n m t u sender_pin receiver_pin sender_wrong receiver_wrong =
     nonces X n m @ tokens_shown X t (token_answer receiver_pin u)
     @ sender_shows_pin X receiver_pin sender_wrong @ receiver_shows_pin X sender_pin receiver_wrong"

lemma sender_handshake_converses:
  assumes laws: "json_law X" "b64_law X" and E: "reliable E"
    and keys: "sign_law peer_key" "key_expected peer_key expecting"
    and nonce: "validate_nonce m"
    and made: "generate_token_nonce X key (generate_nonce (en_nonce E) @ m) = Inr t"
      "generate_token_nonce X peer_key (generate_nonce (en_nonce E) @ m) = Inr u"
    and pins: "knows_pin E receiver_pin sender_wrong" "knows_pin F sender_pin receiver_wrong"
  shows "converses SenderSide [] (sender_handshake E X key expecting sender_pin)
    (handshake_dialogue X (generate_nonce (en_nonce E)) m t u sender_pin receiver_pin sender_wrong receiver_wrong)
    (generate_nonce (en_nonce E) @ m, u) (asked receiver_pin sender_wrong)"
proof -
  let ?n = "generate_nonce (en_nonce E)"
  have response: "converses SenderSide w (receive_token_response X)
      [(ReceiverSide, text_msg (to_text X enc_token_response (token_answer receiver_pin u)))]
      (token_answer receiver_pin u) w" for w
    using hear_token_response [OF laws(1), of SenderSide w] by simp
  have "converses SenderSide [] (sender_handshake E X key expecting sender_pin)
      (nonces X ?n m @ [(SenderSide, text_msg (to_text X enc_token_request \<lparr>tq_token = t\<rparr>))]
       @ [(ReceiverSide, text_msg (to_text X enc_token_response (token_answer receiver_pin u)))]
       @ [] @ sender_shows_pin X receiver_pin sender_wrong @ receiver_shows_pin X sender_pin receiver_wrong @ [])
      (?n @ m, u) (asked receiver_pin sender_wrong)"
    unfolding sender_handshake_def
    by (rule converse_then converse_bind sender_nonce_converses send_token_converses response
          answer_challenge_converses challenge_receiver_converses [where F = F] assms
        | simp only: token_passes(2) [OF laws(2) keys made(2)]
        | intro triple_intro | rule converse_ret)+
  then show ?thesis by (simp add: handshake_dialogue_def tokens_shown_def)
qed

lemma receiver_handshake_converses:
  assumes laws: "json_law X" "b64_law X" and F: "reliable F"
    and keys: "sign_law peer_key" "key_expected peer_key expecting"
    and nonce: "validate_nonce n"
    and made: "generate_token_nonce X peer_key (n @ generate_nonce (en_nonce F)) = Inr t"
      "generate_token_nonce X key (n @ generate_nonce (en_nonce F)) = Inr u"
    and pins: "knows_pin E receiver_pin sender_wrong" "knows_pin F sender_pin receiver_wrong"
  shows "converses ReceiverSide [] (receiver_handshake F X key expecting receiver_pin)
    (handshake_dialogue X n (generate_nonce (en_nonce F)) t u sender_pin receiver_pin sender_wrong receiver_wrong
      @ sender_frame X (PsOk files)) files (asked sender_pin receiver_wrong)"
proof -
  let ?m = "generate_nonce (en_nonce F)"
  have token: "converses ReceiverSide w (receive_token X)
      [(SenderSide, text_msg (to_text X enc_token_request \<lparr>tq_token = t\<rparr>))] t w" for w
    using hear_token [OF laws(1), of ReceiverSide w] by simp
  have "converses ReceiverSide [] (receiver_handshake F X key expecting receiver_pin)
      (nonces X n ?m @ [(SenderSide, text_msg (to_text X enc_token_request \<lparr>tq_token = t\<rparr>))] @ []
       @ [(ReceiverSide, text_msg (to_text X enc_token_response (token_answer receiver_pin u)))]
       @ sender_shows_pin X receiver_pin sender_wrong
       @ (receiver_shows_pin X sender_pin receiver_wrong @ sender_frame X (PsOk files))) files
      (asked sender_pin receiver_wrong)"
    unfolding receiver_handshake_def
    by (rule converse_then converse_bind receiver_nonce_converses token answer_token_converses
          challenge_sender_converses [where E = E] receive_file_list_converses assms
        | simp only: token_passes(1) [OF laws(2) keys made(1)]
        | intro triple_intro | rule converse_ret)+
  then show ?thesis by (simp add: handshake_dialogue_def tokens_shown_def)
qed

section \<open>The choice\<close>

lemma file_choice_converses:
  assumes "json_law X" and "hm_wf tokens"
  shows "converses SenderSide u (file_choice E X P t n) (choice_frame X (FlOk tokens)) (Some tokens) u"
proof -
  let ?bs = "as_bytes (to_text X enc_file_list_response (FlOk tokens))"
  have hear: "converses SenderSide u receive_string_from_chunks (choice_frame X (FlOk tokens)) ?bs u"
    using converse_receive_string [of SenderSide u ?bs] by (simp add: choice_frame_def)
  have parse: "from_slice X dec_file_list_response ?bs = Some (FlOk tokens)"
    using file_list_response_text [OF assms(1), of "FlOk tokens"] assms(2) by simp
  have choice: "converses SenderSide u (receive_choice X) (choice_frame X (FlOk tokens) @ []) (FlOk tokens) u"
    unfolding receive_choice_def
    by (rule converse_bind hear | intro triple_intro | simp add: parse expect_def converse_ret)+
  have "converses SenderSide u (file_choice E X P t n) ((choice_frame X (FlOk tokens) @ []) @ []) (Some tokens) u"
    unfolding file_choice_def declined_def report_and_fail_def choice_after_pairing_def
    by (rule converse_bind choice | intro triple_intro | simp add: converse_ret)+
  then show ?thesis by simp
qed

lemma decline_heard:
  assumes "json_law X" and "reliable E"
  shows "converses SenderSide u (file_choice E X P t n) (choice_frame X FlDeclined) None u"
proof -
  let ?bs = "as_bytes (to_text X enc_file_list_response FlDeclined)"
  have hear: "converses SenderSide u receive_string_from_chunks (choice_frame X FlDeclined) ?bs u"
    using converse_receive_string [of SenderSide u ?bs] by (simp add: choice_frame_def)
  have parse: "from_slice X dec_file_list_response ?bs = Some FlDeclined"
    using file_list_response_text [OF assms(1), of FlDeclined] by simp
  have choice: "converses SenderSide u (receive_choice X) (choice_frame X FlDeclined @ []) FlDeclined u"
    unfolding receive_choice_def
    by (rule converse_bind hear | intro triple_intro | simp add: parse expect_def converse_ret)+
  have declined: "converses SenderSide u (declined E) ([] @ []) None u"
    unfolding declined_def by (rule converse_then converse assms | intro triple_intro)+
  have "converses SenderSide u (file_choice E X P t n) ((choice_frame X FlDeclined @ []) @ ([] @ [])) None u"
    unfolding file_choice_def
    by (rule converse_bind [OF choice]) (simp add: declined [simplified],
        unfold declined_def report_and_fail_def choice_after_pairing_def, intro triple_intro)
  then show ?thesis by simp
qed

lemma assign_tokens_wf: "hm_wf m \<Longrightarrow> hm_wf (assign_tokens uuid i ids m)"
  by (induction ids arbitrary: i m) (simp_all add: map_simps)

lemma publish_converses:
  "reliable F \<Longrightarrow> en_files_open F \<Longrightarrow>
    converses me u (publish_file_list F files) [] () (u @ [FilesPublished files])"
  "en_selection_open E \<Longrightarrow> converses me u (publish_selection E tokens) [] () u"
proof -
  have emit: "converses me u (emit (FilesPublished files)) [] () (u @ [FilesPublished files])"
    using converse_emit [of "FilesPublished files" me u] by simp
  show "reliable F \<Longrightarrow> en_files_open F \<Longrightarrow>
      converses me u (publish_file_list F files) [] () (u @ [FilesPublished files])"
    by (simp add: publish_file_list_def converse_quiet_then [OF converse_status(1)] emit grown_emit)
  show "en_selection_open E \<Longrightarrow> converses me u (publish_selection E tokens) [] () u"
    using converse_emit [of "SelectionPublished (hm_keys tokens)" me u] by (simp add: publish_selection_def)
qed

text \<open>What a user who is shown the file list selects, or declines.\<close>

definition user_chooses :: "env \<Rightarrow> event list \<Rightarrow> string list option \<Rightarrow> bool" where
  "user_chooses F u choice \<longleftrightarrow> (\<forall>tr. user_events tr = u \<longrightarrow> en_selected F tr = Answered choice)"

lemma user_selects_converses:
  assumes "user_chooses F u (Some ids)"
  shows "converses me u (user_selection F X) [] (Some ids) u"
  by (rule converse_quiet [where es = "[]"])
    (use assms in \<open>auto simp: user_chooses_def user_selection_def prog_simps\<close>)

lemma string_and_delimiter:
  assumes "reliable F"
  shows "converses me u (thenP (send_string_in_chunks () str (send_chunk F)) (thenP (send_delimiter F) (ret v)))
    (map (Pair me) (frame_string (as_bytes str))) v u"
proof -
  have "converses me u (thenP (send_string_in_chunks () str (send_chunk F)) (thenP (send_delimiter F) (ret v)))
      (map (Pair me) (map (\<lambda>c. \<lparr>dm_is_string = False, dm_data = c\<rparr>) (chunks_of chunk_size (as_bytes str)))
       @ [(me, text_msg ''0'')] @ []) v u"
    unfolding send_delimiter_def
    by (rule converse_then converse_string converse assms | intro triple_intro)+
  then show ?thesis by (simp add: frame_string_def text_msg_def)
qed

lemma user_declines_converses:
  assumes "reliable F" and "user_chooses F u None"
  shows "converses ReceiverSide u (user_selection F X) (choice_frame X FlDeclined) None u"
proof -
  have "converses ReceiverSide u (asks (en_selected F)) [] (Answered None) u"
    using assms(2) by (intro converse_asks) (simp add: user_chooses_def)
  then have "converses ReceiverSide u (user_selection F X) ([] @ choice_frame X FlDeclined) None u"
    unfolding user_selection_def choice_frame_def
    by (rule converse_bind) (simp add: string_and_delimiter [OF assms(1)], intro triple_intro)
  then show ?thesis by simp
qed

lemma send_file_tokens_converses:
  assumes "reliable F"
  shows "converses ReceiverSide u (send_file_tokens F X ids)
    (choice_frame X (FlOk (assign_tokens (en_uuid F) 0 ids hm_new))) (assign_tokens (en_uuid F) 0 ids hm_new) u"
  unfolding send_file_tokens_def Let_def choice_frame_def by (rule string_and_delimiter [OF assms])

section \<open>The files\<close>

definition files_dialogue :: "('z) crates_scheme \<Rightarrow> (string, string) hmap \<Rightarrow> rtc_file list \<Rightarrow> dialogue" where
  "files_dialogue X tokens sending =
     map (Pair SenderSide) (concat (map (file_msgs X tokens) (accepted tokens sending)))"

lemma send_effects_user: "user_events (send_effects X tokens f) = []"
  by (auto simp: send_effects_def binary_not_special split: option.split)

lemma send_file_converses:
  assumes "reliable E"
  shows "converses SenderSide u (send_file E X tokens f) (files_dialogue X tokens [f]) () u"
  unfolding files_dialogue_def
  by (rule converse_monologue, rule exI [of _ "send_effects X tokens f"])
    (simp add: send_file_effects [OF assms] send_effects_messages send_effects_user)

lemma files_dialogue_Cons:
  "files_dialogue X tokens (f # sending) = files_dialogue X tokens [f] @ files_dialogue X tokens sending"
  by (simp add: files_dialogue_def accepted_def)

lemma send_files_converses:
  assumes "reliable E"
  shows "converses SenderSide u (send_files E X tokens sending) (files_dialogue X tokens sending) () u"
proof (induction sending)
  case Nil
  then show ?case by (simp add: files_dialogue_def accepted_def converse_ret)
next
  case (Cons f sending)
  then show ?case
    unfolding send_files.simps files_dialogue_Cons [of X tokens f sending]
    by (rule converse_then [OF send_file_converses [OF assms]]) (rule triple_intro)+
qed

end
