(* ===== verification/Rtc_Session.thy ===== *)
theory Rtc_Session
  imports Rtc_Stages
begin

text \<open>
  Two honest peers: the whole sending task and the whole receiving task in one dialogue, with keys,
  PINs and a choice, up to the delivered files or the refusal.
\<close>

section \<open>The last stages\<close>

text \<open>The delimiter, and whatever the receiver answers.\<close>

definition ending :: "dc_message list \<Rightarrow> dialogue" where
  "ending resp = (SenderSide, text_msg ''0'') # map (Pair ReceiverSide) resp"

lemma finish_sending_plays:
  assumes "reliable E"
  shows "plays SenderSide (finish_sending E) (ending resp) tr []"
proof -
  have run: "finish_sending E (hearing rx tr) = (Inr (), hearing (drop 1 rx) (tr @ [BufferEmpty, SentText ''0'']))" for rx
    using assms by (cases rx) (simp_all add: finish_sending_def wait_buffer_empty_def send_delimiter_def
      send_text_def send_event_def reliable_def recv_def prog_simps)
  have first: "d1 = [] \<and> m = text_msg ''0''" if "ending resp = d1 @ (SenderSide, m) # d2" for d1 m d2
    using that by (auto simp: ending_def Cons_eq_append_conv map_eq_append_conv map_eq_Cons_conv)
  have "in_turn SenderSide (finish_sending E) (ending resp) tr"
    unfolding in_turn_def says_at_least_def
  proof (intro allI impI)
    fix d1 m d2
    assume "ending resp = d1 @ (SenderSide, m) # d2"
    from first [OF this] show "\<exists>es more. rs_trace (snd (finish_sending E (hearing (says (other SenderSide) d1) tr)))
        = tr @ es \<and> sent_messages es = (says SenderSide d1 @ [m]) @ more"
      by (simp add: run text_msg_def)
  qed
  then show ?thesis
    by (auto simp: plays_def run ending_def text_msg_def)
qed

lemma receive_files_plays:
  assumes X: "json_law X" "object_text_law X" and F: "reliable F" "keeps_reading F files tr"
    and some: "accepted tokens sending \<noteq> []"
    and listed: "\<forall>f \<in> set (accepted tokens sending). fst f \<in> fd_id ` set files"
  shows "\<exists>resp. plays ReceiverSide (receive_files F X tokens files)
    (files_dialogue X tokens sending @ ending resp) tr (concat (map file_script (accepted tokens sending)))"
proof -
  let ?fs = "accepted tokens sending"
  let ?heard = "concat (map (file_msgs X tokens) ?fs) @ [text_msg ''0'']"
  have "\<forall>f \<in> set ?fs. hm_get tokens (fst f) \<noteq> None \<and> fst f \<in> fd_id ` set files"
    using listed by (auto simp: accepted_def)
  moreover have "rs_rx (hearing ?heard tr) = concat (map (file_msgs X tokens) ?fs) @ delimiter_msg # []"
    by (simp add: text_msg_def delimiter_msg_def)
  ultimately obtain s' where s': "receive_files F X tokens files (hearing ?heard tr) = (Inr (), s')" "rs_rx s' = []"
    "file_events s' = file_events (hearing ?heard tr) @ concat (map file_script ?fs)"
    using files_run [OF X F(1), where s = "hearing ?heard tr" and tokens = tokens and fs = ?fs
        and rest = "[]" and st = None and files = files] some F(2)
    by (auto simp: receive_files_def recv_loop_def closing_def)
  obtain es where es: "rs_trace s' = tr @ es"
    using keeps_grown [OF grown_receive_files, where s = "hearing ?heard tr"] s'(1) by (metis rtc_state.select_convs(2) snd_conv)
  have said: "says SenderSide (files_dialogue X tokens sending @ ending resp) = ?heard"
    "says ReceiverSide (files_dialogue X tokens sending @ ending resp) = resp" for resp
    by (simp_all add: files_dialogue_def ending_def)
  have "in_turn ReceiverSide (receive_files F X tokens files)
      (map (Pair (other ReceiverSide)) ?heard @ map (Pair ReceiverSide) (sent_messages es)) tr"
    by (rule in_turn_answer [of _ _ _ es]) (simp_all add: s' es)
  then have "in_turn ReceiverSide (receive_files F X tokens files)
      (files_dialogue X tokens sending @ ending (sent_messages es)) tr"
    by (simp add: files_dialogue_def ending_def)
  moreover have "receive_files F X tokens files (hearing ?heard tr) = (Inr (), hearing [] (tr @ es))"
    using s' es by (cases s') simp
  moreover have "filter is_file_event es = concat (map file_script ?fs)"
    using s'(3) es by simp
  ultimately show ?thesis
    unfolding plays_def using said by (intro exI [of _ "sent_messages es"]) auto
qed

section \<open>The tasks\<close>

text \<open>Everything up to the file list, which both outcomes share.\<close>

definition greeting :: "('z) crates_scheme \<Rightarrow> bytes \<Rightarrow> bytes \<Rightarrow> string \<Rightarrow> string
    \<Rightarrow> pin_config option \<Rightarrow> pin_config option \<Rightarrow> string list \<Rightarrow> string list \<Rightarrow> file_dto list \<Rightarrow> dialogue" where
  "greeting X n m t u sender_pin receiver_pin sender_wrong receiver_wrong files =
     handshake_dialogue X n m t u sender_pin receiver_pin sender_wrong receiver_wrong
     @ sender_frame X (PsOk files)"

text \<open>
  What two honest peers have in common: the laws of the crates, a reliable connection, keys each
  other expects, nonces of a valid length, and users who know the PINs.
\<close>

record meeting =
  mt_sender :: env
  mt_receiver :: env
  mt_key :: signing_token_key
  mt_peer_key :: signing_token_key
  mt_expecting :: "verifying_token_key option"
  mt_peer_expecting :: "verifying_token_key option"
  mt_sender_pin :: "pin_config option"
  mt_receiver_pin :: "pin_config option"
  mt_sender_wrong :: "string list"
  mt_receiver_wrong :: "string list"

definition meeting_nonce :: "meeting \<Rightarrow> bytes" where
  "meeting_nonce M = generate_nonce (en_nonce (mt_sender M)) @ generate_nonce (en_nonce (mt_receiver M))"

definition honest :: "('z) crates_scheme \<Rightarrow> meeting \<Rightarrow> bool" where
  "honest X M \<longleftrightarrow> json_law X \<and> b64_law X \<and> object_text_law X
     \<and> reliable (mt_sender M) \<and> reliable (mt_receiver M)
     \<and> sign_law (mt_key M) \<and> sign_law (mt_peer_key M)
     \<and> key_expected (mt_peer_key M) (mt_expecting M) \<and> key_expected (mt_key M) (mt_peer_expecting M)
     \<and> validate_nonce (generate_nonce (en_nonce (mt_sender M)))
     \<and> validate_nonce (generate_nonce (en_nonce (mt_receiver M)))
     \<and> knows_pin (mt_sender M) (mt_receiver_pin M) (mt_sender_wrong M)
     \<and> knows_pin (mt_receiver M) (mt_sender_pin M) (mt_receiver_wrong M)
     \<and> en_files_open (mt_receiver M) \<and> en_selection_open (mt_sender M)
     \<and> (\<exists>t u. generate_token_nonce X (mt_key M) (meeting_nonce M) = Inr t
          \<and> generate_token_nonce X (mt_peer_key M) (meeting_nonce M) = Inr u)"

definition sending_task where
  "sending_task X P M files sending = send_task (mt_sender M) X P True (mt_key M) (mt_expecting M)
     (mt_sender_pin M) files sending"

definition receiving_task where
  "receiving_task X M = receive_task (mt_receiver M) X (mt_peer_key M) (mt_peer_expecting M) (mt_receiver_pin M)"

text \<open>
  What the receiver's user has been shown when asked for the selection, and an app that reads what
  it is given from there on.
\<close>

definition seen_before_choice :: "meeting \<Rightarrow> file_dto list \<Rightarrow> event list" where
  "seen_before_choice M files = asked (mt_sender_pin M) (mt_receiver_wrong M) @ [FilesPublished files]"

definition app_reads :: "env \<Rightarrow> file_dto list \<Rightarrow> event list \<Rightarrow> bool" where
  "app_reads F files u \<longleftrightarrow> (\<forall>tr. user_events tr = u \<longrightarrow> keeps_reading F files tr)"

lemma honestD:
  assumes "honest X M"
  shows "json_law X" "b64_law X" "object_text_law X" "reliable (mt_sender M)" "reliable (mt_receiver M)"
    "sign_law (mt_key M)" "sign_law (mt_peer_key M)" "key_expected (mt_peer_key M) (mt_expecting M)"
    "key_expected (mt_key M) (mt_peer_expecting M)"
    "validate_nonce (generate_nonce (en_nonce (mt_sender M)))"
    "validate_nonce (generate_nonce (en_nonce (mt_receiver M)))"
    "knows_pin (mt_sender M) (mt_receiver_pin M) (mt_sender_wrong M)"
    "knows_pin (mt_receiver M) (mt_sender_pin M) (mt_receiver_wrong M)"
    "en_files_open (mt_receiver M)" "en_selection_open (mt_sender M)"
  using assms by (simp_all add: honest_def)

text \<open>The sending task up to the choice, whatever follows.\<close>

lemma sender_greets:
  assumes M: "honest X M"
    and made: "generate_token_nonce X (mt_key M) (meeting_nonce M) = Inr t"
      "generate_token_nonce X (mt_peer_key M) (meeting_nonce M) = Inr u"
    and choice: "\<And>w n s. converses SenderSide w (file_choice (mt_sender M) X P s n) d choice w"
    and rest: "\<And>tr. plays SenderSide (case choice of None \<Rightarrow> ret ()
        | Some file_map \<Rightarrow> thenP (publish_selection (mt_sender M) file_map)
            (thenP (send_files (mt_sender M) X file_map sending) (finish_sending (mt_sender M)))) e tr []"
  shows "plays SenderSide (sending_task X P M files sending)
    (greeting X (generate_nonce (en_nonce (mt_sender M))) (generate_nonce (en_nonce (mt_receiver M))) t u
      (mt_sender_pin M) (mt_receiver_pin M) (mt_sender_wrong M) (mt_receiver_wrong M) files @ d @ e) [] []"
proof -
  let ?n = "generate_nonce (en_nonce (mt_sender M))" and ?m = "generate_nonce (en_nonce (mt_receiver M))"
  note h = honestD [OF M]
  have start: "user_events [] = []" by simp
  have "plays SenderSide (sending_task X P M files sending)
      ([] @ handshake_dialogue X ?n ?m t u (mt_sender_pin M) (mt_receiver_pin M) (mt_sender_wrong M) (mt_receiver_wrong M)
       @ [] @ sender_frame X (PsOk files) @ d @ e) [] []"
    unfolding sending_task_def send_task_def
    by (rule plays_then_to plays_bind_to converse_wait sender_handshake_converses [where F = "mt_receiver M"]
          converse_status(1) send_file_list_converses choice rest h made [unfolded meeting_nonce_def] start
        | assumption | intro triple_intro | simp only: if_False if_True not_True_eq_False prod.case)+
  then show ?thesis by (simp add: greeting_def)
qed

text \<open>The receiving task up to the question for the selection, whatever follows.\<close>

lemma receiver_greets:
  assumes M: "honest X M"
    and made: "generate_token_nonce X (mt_key M) (meeting_nonce M) = Inr t"
      "generate_token_nonce X (mt_peer_key M) (meeting_nonce M) = Inr u"
    and rest: "\<And>tr. user_events tr = seen_before_choice M files \<Longrightarrow> \<exists>resp. plays ReceiverSide
      (bindP (user_selection (mt_receiver M) X) (\<lambda>selected. case selected of
         None \<Rightarrow> ret ()
       | Some selected_files \<Rightarrow> bindP (send_file_tokens (mt_receiver M) X selected_files) (\<lambda>file_tokens.
           receive_files (mt_receiver M) X file_tokens files))) (e resp) tr fe"
  shows "\<exists>resp. plays ReceiverSide (receiving_task X M)
    (greeting X (generate_nonce (en_nonce (mt_sender M))) (generate_nonce (en_nonce (mt_receiver M))) t u
      (mt_sender_pin M) (mt_receiver_pin M) (mt_sender_wrong M) (mt_receiver_wrong M) files @ e resp) [] fe"
proof -
  let ?n = "generate_nonce (en_nonce (mt_sender M))" and ?m = "generate_nonce (en_nonce (mt_receiver M))"
  note h = honestD [OF M]
  have start: "user_events [] = []" by simp
  have later: "\<exists>resp. plays ReceiverSide
      (thenP (publish_file_list (mt_receiver M) files)
        (bindP (user_selection (mt_receiver M) X) (\<lambda>selected. case selected of
           None \<Rightarrow> ret ()
         | Some selected_files \<Rightarrow> bindP (send_file_tokens (mt_receiver M) X selected_files) (\<lambda>file_tokens.
             receive_files (mt_receiver M) X file_tokens files)))) ([] @ e resp) tr fe"
    if "user_events tr = asked (mt_sender_pin M) (mt_receiver_wrong M)" for tr
    by (rule plays_then [OF publish_converses(1) [OF h(5,14)] rest [unfolded seen_before_choice_def] _ that])
      (assumption | intro triple_intro)+
  have "\<exists>resp. plays ReceiverSide (receiving_task X M)
      ((handshake_dialogue X ?n ?m t u (mt_sender_pin M) (mt_receiver_pin M) (mt_sender_wrong M) (mt_receiver_wrong M)
        @ sender_frame X (PsOk files)) @ [] @ e resp) [] fe"
    unfolding receiving_task_def receive_task_def
    by (rule plays_bind receiver_handshake_converses [where E = "mt_sender M"] later start
          h made [unfolded meeting_nonce_def] | assumption | intro triple_intro)+
  then show ?thesis by (simp add: greeting_def)
qed

text \<open>The two tasks in one dialogue, written out.\<close>

lemma honest_transfer:
  assumes M: "honest X M"
    and made: "generate_token_nonce X (mt_key M) (meeting_nonce M) = Inr t"
      "generate_token_nonce X (mt_peer_key M) (meeting_nonce M) = Inr u"
    and choice: "user_chooses (mt_receiver M) (seen_before_choice M files) (Some ids)"
    and reads: "app_reads (mt_receiver M) files (seen_before_choice M files)"
    and tokens: "tokens = assign_tokens (en_uuid (mt_receiver M)) 0 ids hm_new"
    and some: "accepted tokens sending \<noteq> []"
    and listed: "\<forall>f \<in> set (accepted tokens sending). fst f \<in> fd_id ` set files"
  shows "\<exists>resp. let d = greeting X (generate_nonce (en_nonce (mt_sender M)))
        (generate_nonce (en_nonce (mt_receiver M))) t u (mt_sender_pin M) (mt_receiver_pin M)
        (mt_sender_wrong M) (mt_receiver_wrong M) files
        @ choice_frame X (FlOk tokens) @ files_dialogue X tokens sending @ ending resp
    in plays SenderSide (sending_task X P M files sending) d [] []
      \<and> plays ReceiverSide (receiving_task X M) d [] (concat (map file_script (accepted tokens sending)))"
proof -
  note h = honestD [OF M]
  let ?g = "greeting X (generate_nonce (en_nonce (mt_sender M))) (generate_nonce (en_nonce (mt_receiver M))) t u
      (mt_sender_pin M) (mt_receiver_pin M) (mt_sender_wrong M) (mt_receiver_wrong M) files"
  let ?e = "\<lambda>resp. choice_frame X (FlOk tokens) @ files_dialogue X tokens sending @ ending resp"
  have "\<exists>resp. plays ReceiverSide (receive_files (mt_receiver M) X tokens files)
      (files_dialogue X tokens sending @ ending resp) tr (concat (map file_script (accepted tokens sending)))"
    if "user_events tr = seen_before_choice M files" for tr
    using receive_files_plays [OF h(1,3,5) _ some listed] reads that by (simp add: app_reads_def)
  then have "\<exists>resp. plays ReceiverSide (receiving_task X M) (?g @ [] @ ?e resp) []
      (concat (map file_script (accepted tokens sending)))"
    by (intro receiver_greets [OF M made] plays_bind [OF user_selects_converses [OF choice]])
      (simp only: option.case, unfold tokens, (rule plays_bind [OF send_file_tokens_converses [OF h(5)]]
          | assumption | intro triple_intro)+)
  then obtain resp where R: "plays ReceiverSide (receiving_task X M) (?g @ ?e resp) []
      (concat (map file_script (accepted tokens sending)))" by auto
  have wf: "hm_wf tokens" using assign_tokens_wf [of hm_new] by (simp add: tokens hm_new_def)
  have "plays SenderSide (case Some tokens of None \<Rightarrow> ret ()
        | Some file_map \<Rightarrow> thenP (publish_selection (mt_sender M) file_map)
            (thenP (send_files (mt_sender M) X file_map sending) (finish_sending (mt_sender M))))
      ([] @ files_dialogue X tokens sending @ ending resp) tr []" for tr
    unfolding option.case
    by (rule plays_then_to publish_converses(2) send_files_converses finish_sending_plays h refl
        | assumption | intro triple_intro)+
  from sender_greets [OF M made file_choice_converses [OF h(1) wf] this]
  have "plays SenderSide (sending_task X P M files sending) (?g @ ?e resp) [] []" by simp
  with R show ?thesis by (auto simp: Let_def)
qed

text \<open>
  C1. Two honest peers complete a transfer, whatever the keys, PINs and files: when each side knows
  the PIN the other one asks for and enters it within the allowed attempts (any number of wrong ones
  first, as long as they suffice), each key is the one the other side expects (or none is expected),
  the nonces have a valid length, nothing on the way fails, the receiving app reads what it is given,
  and the user selects at least one of
  the listed files that the sending app then supplies, there is a dialogue in which the whole sending
  task and the whole receiving task both play their part, saying every message as soon as they
  have heard what precedes it. Both end normally, and the receiving app has seen exactly the selected
  files, in the order they were sent, each opened, given its content in chunks, and closed; the chunks
  of a file together are the bytes the sending app supplied for it.
\<close>

theorem honest_transfer_completes:
  assumes "honest X M"
    and "user_chooses (mt_receiver M) (seen_before_choice M files) (Some ids)"
    and "app_reads (mt_receiver M) files (seen_before_choice M files)"
    and "tokens = assign_tokens (en_uuid (mt_receiver M)) 0 ids hm_new"
    and "accepted tokens sending \<noteq> []"
    and "\<forall>f \<in> set (accepted tokens sending). fst f \<in> fd_id ` set files"
  shows "\<exists>d. plays SenderSide (sending_task X P M files sending) d [] []
    \<and> plays ReceiverSide (receiving_task X M) d [] (concat (map file_script (accepted tokens sending)))
    \<and> map (\<lambda>f. (fst f, concat (snd f))) (accepted tokens sending)
      = map (\<lambda>f. (rf_file_id f, concat (rf_binary f)))
          (filter (\<lambda>f. hm_get tokens (rf_file_id f) \<noteq> None) sending)"
proof -
  obtain t u where "generate_token_nonce X (mt_key M) (meeting_nonce M) = Inr t"
      "generate_token_nonce X (mt_peer_key M) (meeting_nonce M) = Inr u"
    using assms(1) by (auto simp: honest_def)
  from honest_transfer [OF assms(1) this assms(2-6), of P] show ?thesis
    unfolding Let_def using accepted_content by blast
qed

text \<open>
  Both sides ask for a PIN; the users enter two and one wrong ones before the right one, and each
  side expects the key of the other.
\<close>

definition enters :: "string list \<Rightarrow> event list \<Rightarrow> string answer" where
  "enters pins tr = Answered (pins ! length (user_events tr))"

definition sample_meeting :: "string list option \<Rightarrow> meeting" where
  "sample_meeting selected =
     \<lparr>mt_sender = calm_env\<lparr>en_pin := enters [''1'', ''2'', ''123'']\<rparr>,
      mt_receiver = calm_env\<lparr>en_pin := enters [''1'', ''456''], en_selected := (\<lambda>_. Answered selected)\<rparr>,
      mt_key = sample_key, mt_peer_key = sample_key,
      mt_expecting = Some (to_verifying_key sample_key), mt_peer_expecting = Some (to_verifying_key sample_key),
      mt_sender_pin = Some \<lparr>pc_pin = ''456'', pc_max_tries = 3\<rparr>,
      mt_receiver_pin = Some \<lparr>pc_pin = ''123'', pc_max_tries = 3\<rparr>,
      mt_sender_wrong = [''1'', ''2''], mt_receiver_wrong = [''1'']\<rparr>"

lemma enters_user: "user_events tr = replicate i PinAsked \<Longrightarrow> enters pins tr = Answered (pins ! i)"
  by (simp add: enters_def)

lemma sample_meeting_honest: "honest sample_crates (sample_meeting selected)"
proof -
  obtain t where t: "generate_token_nonce sample_crates sample_key
      (generate_nonce (en_nonce calm_env) @ generate_nonce (en_nonce calm_env)) = Inr t"
    using sample_token by blast
  then show ?thesis
    using sample_laws(2,3) sample_object_law sample_sign_law calm_reliable
    by (simp add: honest_def sample_meeting_def meeting_nonce_def key_expected_def knows_pin_def enters_user
        reliable_def validate_nonce_def generate_nonce_def calm_env_def)
qed

definition sample_file :: rtc_file where
  "sample_file = \<lparr>rf_file_id = ''f'', rf_binary = [[1], [2, 3]]\<rparr>"

lemma sample_chooses:
  "user_chooses (mt_receiver (sample_meeting selected)) (seen_before_choice (sample_meeting selected) files) selected"
  "app_reads (mt_receiver (sample_meeting selected)) files (seen_before_choice (sample_meeting selected) files)"
  by (simp_all add: user_chooses_def app_reads_def keeps_reading_def sample_meeting_def calm_env_def)

lemma sample_accepted:
  "accepted (assign_tokens uuid 0 [''f''] hm_new) [sample_file] = [(''f'', [[1, 2, 3]])]"
proof -
  have "chunks_of chunk_size [1, 2, 3] = [[1, 2, 3]]"
    by (rule chunks_of_short) (simp_all add: chunk_size_def)
  then show ?thesis by (simp add: accepted_def sample_file_def map_simps)
qed

lemma honest_transfer_completes_witness:
  "\<exists>d. plays SenderSide (sending_task sample_crates sample_parsers (sample_meeting (Some [''f'']))
        [sample_dto ''f''] [sample_file]) d [] []
    \<and> plays ReceiverSide (receiving_task sample_crates (sample_meeting (Some [''f'']))) d []
        [FileOpened ''f'', FileData ''f'' [1, 2, 3], FileClosed ''f'']"
  using honest_transfer_completes [OF sample_meeting_honest sample_chooses refl, where sending = "[sample_file]"
      and files = "[sample_dto ''f'']" and ids = "[''f'']" and P = sample_parsers]
  unfolding sample_accepted by (auto simp: file_script_def)

text \<open>
  C9. A refusal ends both tasks: when the receiver's user, shown the file list after a handshake of
  two honest peers, declines it, both tasks end normally, no file is opened and nothing is sent
  after the answer \<open>declined\<close>, whatever the sending app would have supplied.
\<close>

theorem declined_transfer_ends:
  assumes "honest X M"
    and "user_chooses (mt_receiver M) (seen_before_choice M files) None"
  shows "\<exists>d. plays SenderSide (sending_task X P M files sending) (d @ choice_frame X FlDeclined) [] []
    \<and> plays ReceiverSide (receiving_task X M) (d @ choice_frame X FlDeclined) [] []"
proof -
  note h = honestD [OF assms(1)]
  obtain t u where made: "generate_token_nonce X (mt_key M) (meeting_nonce M) = Inr t"
      "generate_token_nonce X (mt_peer_key M) (meeting_nonce M) = Inr u"
    using assms(1) by (auto simp: honest_def)
  have stop: "plays me (ret ()) [] tr []" for me tr
    by (simp add: plays_def in_turn_def prog_simps)
  have "\<exists>resp :: unit. plays ReceiverSide (bindP (user_selection (mt_receiver M) X) (\<lambda>selected. case selected of
         None \<Rightarrow> ret ()
       | Some selected_files \<Rightarrow> bindP (send_file_tokens (mt_receiver M) X selected_files) (\<lambda>file_tokens.
           receive_files (mt_receiver M) X file_tokens files))) (choice_frame X FlDeclined @ []) tr []"
    if "user_events tr = seen_before_choice M files" for tr
    by (rule plays_bind [OF user_declines_converses [OF h(5) assms(2)] _ _ that])
      (simp add: stop, intro triple_intro)
  from receiver_greets [OF assms(1) made this]
    sender_greets [OF assms(1) made decline_heard [OF h(1,4)], where e = "[]" and P = P and files = files and sending = sending]
  show ?thesis by (auto simp: stop)
qed

lemma declined_transfer_ends_witness:
  "\<exists>d. plays SenderSide (sending_task sample_crates sample_parsers (sample_meeting None) [sample_dto ''f''] [])
        (d @ choice_frame sample_crates FlDeclined) [] []
    \<and> plays ReceiverSide (receiving_task sample_crates (sample_meeting None))
        (d @ choice_frame sample_crates FlDeclined) [] []"
  by (rule declined_transfer_ends [OF sample_meeting_honest sample_chooses(1)])

end
