(* ===== verification/Rtc_Connection.thy ===== *)
theory Rtc_Connection
  imports Rtc_Sender
begin

text \<open>
  Establishing and ending the peer connection: the parts of \<open>send_offer\<close> and \<open>accept_offer\<close>
  around the spawned tasks, and \<open>create_peer_connection\<close>, \<open>webrtc.rs\<close> lines 195 to 217, 564 to
  661 and 999 to 1076. The \<open>webrtc\<close> crate is the record \<open>peer_env\<close>; how the \<open>select!\<close> between
  the task and the disconnect signal ends is a parameter.
\<close>

record 'd peer_env =
  pe_new_connection :: "string + unit"
  pe_new_data_channel :: "string + unit"
  pe_create_description :: "string + 'd"   \<comment> \<open>\<open>create_offer\<close> or \<open>create_answer\<close>\<close>
  pe_set_local :: "'d \<Rightarrow> string + unit"
  pe_local_sdp :: "string option"          \<comment> \<open>after ICE gathering\<close>
  pe_signaling_open :: bool
  pe_answer :: "string option"             \<comment> \<open>what the answer callback delivers\<close>
  pe_parse_remote :: "string \<Rightarrow> string + 'd"
  pe_set_remote :: "'d \<Rightarrow> string + unit"
  pe_close_channel :: "string + unit"
  pe_close :: "string + unit"
  pe_session_id :: string

datatype select_result =
    TaskReturned "string + unit"
  | TaskPanicked string
  | Disconnected

definition channel_label :: string where
  "channel_label = ''data''"

datatype peer_connection_state = New | Connecting | PcConnected | PcDisconnected | Failed | PcClosed

text \<open>The state change callback: only a disconnect signals the end.\<close>

definition signals_done :: "peer_connection_state \<Rightarrow> bool" where
  "signals_done s \<longleftrightarrow> s = PcDisconnected"

text \<open>The data channel callback of the receiver: only the channel labelled \<open>data\<close> is used.\<close>

definition accepts_channel :: "string \<Rightarrow> bool" where
  "accepts_channel label \<longleftrightarrow> \<not> label \<noteq> channel_label"

definition create_peer_connection :: "'d peer_env \<Rightarrow> unit prog" where
  "create_peer_connection C = lift (pe_new_connection C)"

definition signal :: "'d peer_env \<Rightarrow> ws_client_message \<Rightarrow> unit prog" where
  "signal C msg = (if pe_signaling_open C then emit (SignalingSent msg) else fail ''channel closed'')"

definition close_connection :: "'d peer_env \<Rightarrow> unit prog" where
  "close_connection C = thenP (lift (pe_close C)) (emit PeerConnectionClosed)"

text \<open>The local description: created, set, gathered, read back.\<close>

definition local_description :: "'d peer_env \<Rightarrow> string \<Rightarrow> string prog" where
  "local_description C err =
     bindP (lift (pe_create_description C)) (\<lambda>description.
     thenP (lift (pe_set_local C description)) (expect err (pe_local_sdp C)))"

definition sdp_exchanged :: "env \<Rightarrow> 'd peer_env \<Rightarrow> unit prog" where
  "sdp_exchanged E C =
     bindP (attempt (status_send E SdpExchanged)) (\<lambda>r. case r of
       Inl e \<Rightarrow> thenP (close_connection C) (fail e)
     | Inr _ \<Rightarrow> ret ())"

definition apply_remote :: "('z) crates_scheme \<Rightarrow> zlib \<Rightarrow> 'd peer_env \<Rightarrow> string \<Rightarrow> unit prog" where
  "apply_remote X Z C remote_desc =
     bindP (lift (decode_sdp X Z remote_desc)) (\<lambda>sdp.
     bindP (lift (pe_parse_remote C sdp)) (\<lambda>description. lift (pe_set_remote C description)))"

text \<open>A task that failed or panicked ends the function at once, without closing anything.\<close>

definition await_task :: "string \<Rightarrow> select_result \<Rightarrow> unit prog" where
  "await_task context outcome =
     (case outcome of
        TaskReturned (Inr _) \<Rightarrow> ret ()
      | TaskReturned (Inl e) \<Rightarrow> fail e
      | TaskPanicked e \<Rightarrow> fail (context @ e)
      | Disconnected \<Rightarrow> ret ())"

definition send_offer :: "env \<Rightarrow> ('z) crates_scheme \<Rightarrow> zlib \<Rightarrow> 'd peer_env \<Rightarrow> uuid \<Rightarrow> select_result
    \<Rightarrow> unit prog" where
  "send_offer E X Z C target_id outcome =
     thenP (create_peer_connection C)
    (thenP (lift (pe_new_data_channel C))
    (bindP (local_description C ''Could not generate local_description'') (\<lambda>sdp.
     thenP (signal C (COffer \<lparr>cs_session_id = pe_session_id C, cs_target = target_id,
       cs_sdp = encode_sdp X Z sdp\<rparr>))
    (thenP (emit (CallbackRegistered (pe_session_id C)))
    (bindP (expect ''channel closed'' (pe_answer C)) (\<lambda>remote_desc.
     thenP (sdp_exchanged E C)
    (thenP (apply_remote X Z C remote_desc)
    (thenP (await_task ''Sending error: '' outcome)
    (thenP (status_try E Finished)
    (thenP (bindP (attempt (thenP (lift (pe_close_channel C)) (emit DataChannelClosed))) (\<lambda>_. ret ()))
       (close_connection C)))))))))))"

definition accept_offer :: "env \<Rightarrow> ('z) crates_scheme \<Rightarrow> zlib \<Rightarrow> 'd peer_env \<Rightarrow> ws_server_sdp_message
    \<Rightarrow> select_result \<Rightarrow> unit prog" where
  "accept_offer E X Z C offer outcome =
     thenP (create_peer_connection C)
    (thenP (apply_remote X Z C (ss_sdp offer))
    (bindP (local_description C ''generate local_description failed!'') (\<lambda>sdp.
     thenP (signal C (CAnswer \<lparr>cs_session_id = ss_session_id offer, cs_target = ci_id (ss_peer offer),
       cs_sdp = encode_sdp X Z sdp\<rparr>))
    (thenP (sdp_exchanged E C)
    (thenP (await_task ''Receiving error: '' outcome)
    (thenP (status_try E Finished)
       (close_connection C)))))))"

lemma lift_Inr [simp]: "lift r s = (Inr x, s') \<longleftrightarrow> r = Inr x \<and> s' = s"
  by (cases r) (auto simp: lift_def prog_simps)

lemma expect_Inr [simp]: "expect e r s = (Inr x, s') \<longleftrightarrow> r = Some x \<and> s' = s"
  by (cases r) (auto simp: expect_def prog_simps)

lemma bind_Inr: "bindP f g s = (Inr y, s') \<longleftrightarrow> (\<exists>x t. f s = (Inr x, t) \<and> g x t = (Inr y, s'))"
  by (auto simp: bindP_def split: prod.splits sum.splits)

lemma then_Inr: "thenP f g s = (Inr y, s') \<longleftrightarrow> (\<exists>x t. f s = (Inr x, t) \<and> g t = (Inr y, s'))"
  by (simp add: thenP_def bind_Inr)

lemma emit_Inr: "emit ev s = (Inr x, s') \<longleftrightarrow> s' = s\<lparr>rs_trace := rs_trace s @ [ev]\<rparr>"
  by (auto simp: prog_simps)

lemma signal_Inr: "signal C m s = (Inr x, s') \<longleftrightarrow> pe_signaling_open C
    \<and> s' = s\<lparr>rs_trace := rs_trace s @ [SignalingSent m]\<rparr>"
  by (auto simp: signal_def prog_simps)

lemma sdp_exchanged_Inr:
  "sdp_exchanged E C s = (Inr x, s') \<longleftrightarrow> en_status_open E (rs_trace s)
    \<and> s' = s\<lparr>rs_trace := rs_trace s @ [StatusSent SdpExchanged]\<rparr>"
  by (auto simp: sdp_exchanged_def attempt_def status_send_def close_connection_def lift_def prog_simps
      split: prod.splits sum.splits)

lemma await_task_Inr: "await_task c out s = (Inr x, s') \<longleftrightarrow> (out = TaskReturned (Inr ()) \<or> out = Disconnected) \<and> s' = s"
  by (auto simp: await_task_def prog_simps split: select_result.splits sum.splits)

lemma status_try_Inr: "status_try E st s = (Inr x, s') \<Longrightarrow>
    s' = s \<or> s' = s\<lparr>rs_trace := rs_trace s @ [StatusSent st]\<rparr>"
  by (auto simp: status_try_def attempt_def status_send_def prog_simps split: if_splits)

lemma close_channel_Inr:
  "bindP (attempt (thenP (lift (pe_close_channel C)) (emit DataChannelClosed))) (\<lambda>_. ret ()) s = (Inr x, s') \<Longrightarrow>
   s' = s \<or> s' = s\<lparr>rs_trace := rs_trace s @ [DataChannelClosed]\<rparr>"
  by (auto simp: attempt_def lift_def prog_simps split: sum.splits)

lemma apply_remote_Inr:
  "apply_remote X Z C r s = (Inr x, s') \<longleftrightarrow> s' = s \<and> (\<exists>sdp d. decode_sdp X Z r = Inr sdp
     \<and> pe_parse_remote C sdp = Inr d \<and> pe_set_remote C d = Inr ())"
  by (auto simp: apply_remote_def bind_Inr)

lemma local_description_Inr:
  "local_description C e s = (Inr sdp, s') \<Longrightarrow> s' = s \<and> pe_local_sdp C = Some sdp"
  by (auto simp: local_description_def bind_Inr then_Inr)

text \<open>
  What \<open>send_offer\<close> did when it returns successfully, in this order: it sent the offer
  with the compressed local description to the target, then registered for the answer, reported
  the exchange of descriptions, applied the remote description it decoded from the answer,
  waited until the task ended well or the peer disconnected, tried to report the end, closed the
  data channel if it could, and closed the connection. Under the laws of base64 and zlib the peer
  decodes the local description from the offer.
\<close>

theorem send_offer_success:
  assumes run: "send_offer E X Z C target outcome s = (Inr u, s')"
  shows "\<exists>sdp answer remote d fin dcc. pe_local_sdp C = Some sdp \<and> pe_answer C = Some answer
    \<and> decode_sdp X Z answer = Inr remote \<and> pe_parse_remote C remote = Inr d \<and> pe_set_remote C d = Inr ()
    \<and> (outcome = TaskReturned (Inr ()) \<or> outcome = Disconnected)
    \<and> set fin \<subseteq> {StatusSent Finished} \<and> set dcc \<subseteq> {DataChannelClosed}
    \<and> rs_trace s' = rs_trace s @ [SignalingSent (COffer \<lparr>cs_session_id = pe_session_id C,
        cs_target = target, cs_sdp = encode_sdp X Z sdp\<rparr>), CallbackRegistered (pe_session_id C),
        StatusSent SdpExchanged] @ fin @ dcc @ [PeerConnectionClosed]
    \<and> (b64_law X \<longrightarrow> zlib_law Z \<longrightarrow> utf8_valid (as_bytes sdp) \<longrightarrow>
        decode_sdp X Z (encode_sdp X Z sdp) = Inr sdp)"
proof -
  obtain sdp s1 s2 s3 answer s4 s5 s6 s7 s8 where
    ld: "local_description C ''Could not generate local_description'' s = (Inr sdp, s1)"
    and sig: "signal C (COffer \<lparr>cs_session_id = pe_session_id C, cs_target = target,
      cs_sdp = encode_sdp X Z sdp\<rparr>) s1 = (Inr (), s2)"
    and reg: "emit (CallbackRegistered (pe_session_id C)) s2 = (Inr (), s3)"
    and ans: "pe_answer C = Some answer"
    and ex: "sdp_exchanged E C s3 = (Inr (), s4)" and rem: "apply_remote X Z C answer s4 = (Inr (), s5)"
    and task: "await_task ''Sending error: '' outcome s5 = (Inr (), s6)"
    and fin: "status_try E Finished s6 = (Inr (), s7)"
    and dcc: "bindP (attempt (thenP (lift (pe_close_channel C)) (emit DataChannelClosed))) (\<lambda>_. ret ()) s7 = (Inr (), s8)"
    and close: "close_connection C s8 = (Inr u, s')"
    using run unfolding send_offer_def create_peer_connection_def then_Inr bind_Inr
    by (auto simp: then_Inr bind_Inr)
  obtain fin where fin: "s7 = s6\<lparr>rs_trace := rs_trace s6 @ fin\<rparr>" "set fin \<subseteq> {StatusSent Finished}"
    using status_try_Inr [OF fin] by (auto intro: that [of "[]"] that [of "[StatusSent Finished]"])
  obtain dcc where dcc: "s8 = s7\<lparr>rs_trace := rs_trace s7 @ dcc\<rparr>" "set dcc \<subseteq> {DataChannelClosed}"
    using close_channel_Inr [OF dcc] by (auto intro: that [of "[]"] that [of "[DataChannelClosed]"])
  have close: "s' = s8\<lparr>rs_trace := rs_trace s8 @ [PeerConnectionClosed]\<rparr>"
    using close by (auto simp: close_connection_def then_Inr emit_Inr)
  obtain remote d where "decode_sdp X Z answer = Inr remote" "pe_parse_remote C remote = Inr d"
    "pe_set_remote C d = Inr ()" and s5: "s5 = s4"
    using rem by (auto simp: apply_remote_Inr)
  moreover have "outcome = TaskReturned (Inr ()) \<or> outcome = Disconnected" and s6: "s6 = s5"
    using task by (auto simp: await_task_Inr)
  moreover have "pe_local_sdp C = Some sdp" and s1: "s1 = s"
    using local_description_Inr [OF ld] by auto
  moreover have "rs_trace s' = rs_trace s @ [SignalingSent (COffer \<lparr>cs_session_id = pe_session_id C,
        cs_target = target, cs_sdp = encode_sdp X Z sdp\<rparr>), CallbackRegistered (pe_session_id C),
        StatusSent SdpExchanged] @ fin @ dcc @ [PeerConnectionClosed]"
    using sig reg ex by (simp add: close dcc(1) fin(1) s6 s5 s1 signal_Inr emit_Inr sdp_exchanged_Inr)
  moreover have "decode_sdp X Z (encode_sdp X Z sdp) = Inr sdp"
    if "b64_law X" "zlib_law Z" "utf8_valid (as_bytes sdp)"
    using that by (simp add: decode_sdp_def encode_sdp_def b64_law_def zlib_law_def from_utf8_def)
  ultimately show ?thesis
    using fin(2) dcc(2) ans by blast
qed

definition sample_peer_env :: "string peer_env" where
  "sample_peer_env = \<lparr>pe_new_connection = Inr (), pe_new_data_channel = Inr (),
     pe_create_description = Inr ''v=0'', pe_set_local = (\<lambda>_. Inr ()), pe_local_sdp = Some ''v=0'',
     pe_signaling_open = True, pe_answer = Some (encode_sdp sample_crates sample_zlib ''v=1''),
     pe_parse_remote = Inr, pe_set_remote = (\<lambda>_. Inr ()), pe_close_channel = Inr (), pe_close = Inr (),
     pe_session_id = ''s1''\<rparr>"

lemma sample_remote: "decode_sdp sample_crates sample_zlib (encode_sdp sample_crates sample_zlib ''v=1'') = Inr ''v=1''"
proof -
  have "x_b64_decode sample_crates (x_b64_encode sample_crates bs) = Some bs" for bs
    using sample_laws(3) by (simp add: b64_law_def)
  moreover have "utf8_valid (as_bytes ''v=1'')"
    by (simp add: as_bytes_def)
  then have "from_utf8 (as_bytes ''v=1'') = Some ''v=1''"
    by (simp add: from_utf8_def)
  ultimately show ?thesis
    by (simp add: decode_sdp_def encode_sdp_def sample_zlib_def)
qed

lemma send_offer_success_witness:
  "\<exists>s' fin dcc. send_offer calm_env sample_crates sample_zlib sample_peer_env 9 Disconnected
      \<lparr>rs_rx = [], rs_trace = []\<rparr> = (Inr (), s')
    \<and> rs_trace s' = [SignalingSent (COffer \<lparr>cs_session_id = ''s1'', cs_target = 9,
        cs_sdp = encode_sdp sample_crates sample_zlib ''v=0''\<rparr>), CallbackRegistered ''s1'',
        StatusSent SdpExchanged] @ fin @ dcc @ [PeerConnectionClosed]"
proof -
  have "\<exists>s'. send_offer calm_env sample_crates sample_zlib sample_peer_env 9 Disconnected
      \<lparr>rs_rx = [], rs_trace = []\<rparr> = (Inr (), s')"
    by (simp add: send_offer_def create_peer_connection_def local_description_def signal_def
        apply_remote_def sdp_exchanged_def close_connection_def await_task_def status_try_def
        status_send_def attempt_def lift_def expect_def sample_peer_env_def sample_remote calm_env_def
        prog_simps)
  then obtain s' where run: "send_offer calm_env sample_crates sample_zlib sample_peer_env 9 Disconnected
      \<lparr>rs_rx = [], rs_trace = []\<rparr> = (Inr (), s')" by blast
  from send_offer_success [OF run] show ?thesis
    using run by (auto simp: sample_peer_env_def)
qed

end
