(* ===== verification/Rtc_Call.thy ===== *)
theory Rtc_Call
  imports Rtc_Session Rtc_Connection Signaling_Client
begin

text \<open>
  A whole call: the connection set-up of \<open>Rtc_Connection\<close> around the tasks of \<open>Rtc_Session\<close>. The
  set-up waits for what the spawned task returned or for the disconnect of the peer.
\<close>

section \<open>The set-up and its task\<close>

fun task_outcome :: "rtc_error + unit \<Rightarrow> select_result" where
  "task_outcome (Inr _) = TaskReturned (Inr ())"
| "task_outcome (Inl (Anyhow e)) = TaskReturned (Inl e)"
| "task_outcome (Inl Panicked) = TaskPanicked ''panic''"
| "task_outcome (Inl Diverged) = TaskPanicked ''diverged''"

definition call_outcome :: "bool \<Rightarrow> unit prog \<Rightarrow> dc_message list \<Rightarrow> select_result" where
  "call_outcome disconnected task heard =
     (if disconnected then Disconnected else task_outcome (fst (task (hearing heard []))))"

text \<open>A peer connection that works: its own description and the one it accepts.\<close>

definition ready :: "'d peer_env \<Rightarrow> string \<Rightarrow> string \<Rightarrow> bool" where
  "ready C mine theirs \<longleftrightarrow> pe_new_connection C = Inr () \<and> pe_new_data_channel C = Inr ()
     \<and> (\<exists>d. pe_create_description C = Inr d \<and> pe_set_local C d = Inr ()) \<and> pe_local_sdp C = Some mine
     \<and> pe_signaling_open C \<and> (\<exists>d. pe_parse_remote C theirs = Inr d \<and> pe_set_remote C d = Inr ())
     \<and> pe_close C = Inr ()"

lemmas set_up_defs = create_peer_connection_def local_description_def signal_def apply_remote_def
  sdp_exchanged_def close_connection_def await_task_def status_try_def status_send_def attempt_def
  lift_def expect_def prog_simps

lemma send_offer_run:
  assumes "ready C mine theirs" and "pe_answer C = Some answer" and "decode_sdp X Z answer = Inr theirs"
    and "\<And>tr. en_status_open E tr" and "outcome \<in> {TaskReturned (Inr ()), Disconnected}"
  shows "send_offer E X Z C target outcome (hearing [] []) = (Inr (), hearing []
    ([SignalingSent (COffer \<lparr>cs_session_id = pe_session_id C, cs_target = target, cs_sdp = encode_sdp X Z mine\<rparr>),
      CallbackRegistered (pe_session_id C), StatusSent SdpExchanged, StatusSent Finished]
     @ (case pe_close_channel C of Inl _ \<Rightarrow> [] | Inr _ \<Rightarrow> [DataChannelClosed]) @ [PeerConnectionClosed]))"
  using assms by (auto simp: send_offer_def ready_def set_up_defs split: sum.split)

lemma accept_offer_run:
  assumes "ready C mine theirs" and "decode_sdp X Z (ss_sdp offer) = Inr theirs"
    and "\<And>tr. en_status_open E tr" and "outcome \<in> {TaskReturned (Inr ()), Disconnected}"
  shows "accept_offer E X Z C offer outcome (hearing [] []) = (Inr (), hearing []
    [SignalingSent (CAnswer \<lparr>cs_session_id = ss_session_id offer, cs_target = ci_id (ss_peer offer),
       cs_sdp = encode_sdp X Z mine\<rparr>),
     StatusSent SdpExchanged, StatusSent Finished, PeerConnectionClosed])"
  using assms by (auto simp: accept_offer_def ready_def set_up_defs)

text \<open>
  C25. When the spawned task fails or panics, neither side closes the data channel or the peer
  connection, nor reports that it is finished: after a set-up that worked, and as long as somebody listens to
  the status, both functions return the error of the task (of a panic, its description after a
  fixed text) at once, and the last thing they have done is to report the exchange of descriptions.
\<close>

theorem task_failure_leaves_connection_open:
  assumes "ready C mine theirs" and "\<forall>tr. en_status_open E tr"
    and "pe_answer C = Some answer" and "decode_sdp X Z answer = Inr theirs"
    and "decode_sdp X Z (ss_sdp offer) = Inr theirs"
  shows "let offered = s\<lparr>rs_trace := rs_trace s @ [SignalingSent (COffer \<lparr>cs_session_id = pe_session_id C,
           cs_target = target, cs_sdp = encode_sdp X Z mine\<rparr>), CallbackRegistered (pe_session_id C),
           StatusSent SdpExchanged]\<rparr>;
         answered = s\<lparr>rs_trace := rs_trace s @ [SignalingSent (CAnswer \<lparr>cs_session_id = ss_session_id offer,
           cs_target = ci_id (ss_peer offer), cs_sdp = encode_sdp X Z mine\<rparr>), StatusSent SdpExchanged]\<rparr>
    in send_offer E X Z C target (TaskReturned (Inl e)) s = (Inl (Anyhow e), offered)
     \<and> send_offer E X Z C target (TaskPanicked e) s = (Inl (Anyhow (''Sending error: '' @ e)), offered)
     \<and> accept_offer E X Z C offer (TaskReturned (Inl e)) s = (Inl (Anyhow e), answered)
     \<and> accept_offer E X Z C offer (TaskPanicked e) s = (Inl (Anyhow (''Receiving error: '' @ e)), answered)"
  using assms by (auto simp: send_offer_def accept_offer_def ready_def set_up_defs)

lemma task_failure_leaves_connection_open_witness:
  "let s = \<lparr>rs_rx = [], rs_trace = []\<rparr>;
       r = send_offer calm_env sample_crates sample_zlib sample_peer_env 9 (TaskPanicked ''p'') s
   in fst r = Inl (Anyhow ''Sending error: p'') \<and> PeerConnectionClosed \<notin> set (rs_trace (snd r))"
proof -
  let ?s = "\<lparr>rs_rx = [], rs_trace = []\<rparr>"
  let ?offer = "\<lparr>ss_peer = sample_peer 1, ss_session_id = ''s'',
    ss_sdp = encode_sdp sample_crates sample_zlib ''v=1''\<rparr>"
  have "ready sample_peer_env ''v=0'' ''v=1''"
    by (simp add: ready_def sample_peer_env_def)
  moreover have "\<forall>tr. en_status_open calm_env tr"
    by (simp add: calm_env_def)
  moreover have "pe_answer sample_peer_env = Some (encode_sdp sample_crates sample_zlib ''v=1'')"
    by (simp add: sample_peer_env_def)
  moreover have "decode_sdp sample_crates sample_zlib (ss_sdp ?offer) = Inr ''v=1''"
    by (simp add: sample_remote)
  ultimately have "send_offer calm_env sample_crates sample_zlib sample_peer_env 9 (TaskPanicked ''p'') ?s
    = (Inl (Anyhow ''Sending error: p''), ?s\<lparr>rs_trace := rs_trace ?s @ [SignalingSent (COffer
        \<lparr>cs_session_id = pe_session_id sample_peer_env, cs_target = 9,
          cs_sdp = encode_sdp sample_crates sample_zlib ''v=0''\<rparr>),
        CallbackRegistered (pe_session_id sample_peer_env), StatusSent SdpExchanged]\<rparr>)"
    using task_failure_leaves_connection_open [where s = ?s and target = 9 and e = "''p''" and offer = ?offer,
      OF _ _ _ sample_remote] unfolding Let_def append.simps by blast
  then show ?thesis by simp
qed

lemma plays_outcome:
  "plays me f d [] fe \<Longrightarrow> call_outcome disconnected f (says (other me) d) \<in> {TaskReturned (Inr ()), Disconnected}"
  by (auto simp: plays_def call_outcome_def)

section \<open>The call\<close>

text \<open>
  What the two sides of a call have: the offer that arrives carries the description of the sending
  side, the answer that arrives the one of the receiving side.
\<close>

definition connected :: "('z) crates_scheme \<Rightarrow> zlib \<Rightarrow> 'd peer_env \<Rightarrow> 'e peer_env \<Rightarrow> ws_server_sdp_message
    \<Rightarrow> bool" where
  "connected X Z C D offer \<longleftrightarrow> b64_law X \<and> zlib_law Z
     \<and> (\<exists>sdp sdp'. utf8_valid (as_bytes sdp) \<and> utf8_valid (as_bytes sdp') \<and> ready C sdp sdp' \<and> ready D sdp' sdp
          \<and> ss_sdp offer = encode_sdp X Z sdp \<and> pe_answer C = Some (encode_sdp X Z sdp'))"

lemma sdp_decoded:
  "b64_law X \<Longrightarrow> zlib_law Z \<Longrightarrow> utf8_valid (as_bytes sdp) \<Longrightarrow> decode_sdp X Z (encode_sdp X Z sdp) = Inr sdp"
  by (simp add: decode_sdp_def encode_sdp_def b64_law_def zlib_law_def from_utf8_def)

lemma call_runs:
  assumes "connected X Z C D offer" and "\<And>tr. en_status_open E tr" and "\<And>tr. en_status_open F tr"
    and "plays SenderSide f d [] []" and "plays ReceiverSide g d [] fe"
  shows "\<exists>s t. send_offer E X Z C target (call_outcome b f (says ReceiverSide d)) (hearing [] []) = (Inr (), s)
    \<and> accept_offer F X Z D offer (call_outcome b' g (says SenderSide d)) (hearing [] []) = (Inr (), t)
    \<and> {m. SignalingSent m \<in> set (rs_trace s)}
        = {COffer \<lparr>cs_session_id = pe_session_id C, cs_target = target, cs_sdp = ss_sdp offer\<rparr>}
    \<and> {m. SignalingSent m \<in> set (rs_trace t)} = {CAnswer \<lparr>cs_session_id = ss_session_id offer,
        cs_target = ci_id (ss_peer offer), cs_sdp = the (pe_answer C)\<rparr>}
    \<and> StatusSent Finished \<in> set (rs_trace s) \<and> StatusSent Finished \<in> set (rs_trace t)
    \<and> last (rs_trace s) = PeerConnectionClosed \<and> last (rs_trace t) = PeerConnectionClosed"
proof -
  obtain sdp sdp' where c: "b64_law X" "zlib_law Z" "utf8_valid (as_bytes sdp)" "utf8_valid (as_bytes sdp')"
    "ready C sdp sdp'" "ready D sdp' sdp" "ss_sdp offer = encode_sdp X Z sdp" "pe_answer C = Some (encode_sdp X Z sdp')"
    using assms(1) by (auto simp: connected_def)
  note dec = sdp_decoded [OF c(1,2,3)] sdp_decoded [OF c(1,2,4)]
  show ?thesis
    using send_offer_run [OF c(5,8) dec(2) assms(2), of "call_outcome b f (says ReceiverSide d)" target]
      accept_offer_run [OF c(6) _ assms(3), of X Z offer "call_outcome b' g (says SenderSide d)"]
      plays_outcome [OF assms(4), of b] plays_outcome [OF assms(5), of b'] c(7,8) dec(1)
    by (auto split: sum.splits)
qed

text \<open>
  Two honest peers complete a call: under the laws of their transfer and when the two peer connections
  work, \<open>send_offer\<close> and \<open>accept_offer\<close> both return successfully, whether or not the peer's disconnect
  is noticed first. The offer that was sent is the one that is accepted, the answer applied is
  the one the receiver gave, both report \<open>Finished\<close> and close their connection last, and on the data
  channel the two tasks play one dialogue that delivers exactly the selected files.
\<close>

theorem call_completes:
  assumes "honest X M" and "connected X Z C D offer"
    and "user_chooses (mt_receiver M) (seen_before_choice M files) (Some ids)"
    and "app_reads (mt_receiver M) files (seen_before_choice M files)"
    and "tokens = assign_tokens (en_uuid (mt_receiver M)) 0 ids hm_new"
    and "accepted tokens sending \<noteq> []"
    and "\<forall>f \<in> set (accepted tokens sending). fst f \<in> fd_id ` set files"
  shows "\<exists>d s t. plays SenderSide (sending_task X P M files sending) d [] []
    \<and> plays ReceiverSide (receiving_task X M) d [] (concat (map file_script (accepted tokens sending)))
    \<and> send_offer (mt_sender M) X Z C target
        (call_outcome b (sending_task X P M files sending) (says ReceiverSide d)) (hearing [] []) = (Inr (), s)
    \<and> accept_offer (mt_receiver M) X Z D offer
        (call_outcome b' (receiving_task X M) (says SenderSide d)) (hearing [] []) = (Inr (), t)
    \<and> {m. SignalingSent m \<in> set (rs_trace s)}
        = {COffer \<lparr>cs_session_id = pe_session_id C, cs_target = target, cs_sdp = ss_sdp offer\<rparr>}
    \<and> {m. SignalingSent m \<in> set (rs_trace t)} = {CAnswer \<lparr>cs_session_id = ss_session_id offer,
        cs_target = ci_id (ss_peer offer), cs_sdp = the (pe_answer C)\<rparr>}
    \<and> StatusSent Finished \<in> set (rs_trace s) \<and> StatusSent Finished \<in> set (rs_trace t)
    \<and> last (rs_trace s) = PeerConnectionClosed \<and> last (rs_trace t) = PeerConnectionClosed"
proof -
  have open_status: "en_status_open (mt_sender M) tr" "en_status_open (mt_receiver M) tr" for tr
    using honestD(4,5) [OF assms(1)] by (simp_all add: reliable_def)
  obtain t u where "generate_token_nonce X (mt_key M) (meeting_nonce M) = Inr t"
      "generate_token_nonce X (mt_peer_key M) (meeting_nonce M) = Inr u"
    using assms(1) by (auto simp: honest_def)
  then obtain d where d: "plays SenderSide (sending_task X P M files sending) d [] []"
    "plays ReceiverSide (receiving_task X M) d [] (concat (map file_script (accepted tokens sending)))"
    using honest_transfer [OF assms(1) _ _ assms(3-7), of t u P] unfolding Let_def by blast
  from call_runs [OF assms(2) open_status d] d show ?thesis by blast
qed

definition sample_offer :: ws_server_sdp_message where
  "sample_offer = sample_sdp\<lparr>ss_sdp := encode_sdp sample_crates sample_zlib ''v=0''\<rparr>"

lemma sample_connected:
  "connected sample_crates sample_zlib sample_peer_env (sample_peer_env\<lparr>pe_local_sdp := Some ''v=1''\<rparr>) sample_offer"
  unfolding connected_def
  by (intro conjI exI [of _ "''v=0''"] exI [of _ "''v=1''"])
    (simp_all add: sample_laws ready_def sample_peer_env_def sample_offer_def zlib_law_def sample_zlib_def as_bytes_def)

lemma call_completes_witness:
  "\<exists>d s t. plays ReceiverSide (receiving_task sample_crates (sample_meeting (Some [''f'']))) d []
      [FileOpened ''f'', FileData ''f'' [1, 2, 3], FileClosed ''f'']
    \<and> send_offer (mt_sender (sample_meeting (Some [''f'']))) sample_crates sample_zlib sample_peer_env 9
        (call_outcome False (sending_task sample_crates sample_parsers (sample_meeting (Some [''f'']))
          [sample_dto ''f''] [sample_file]) (says ReceiverSide d)) (hearing [] []) = (Inr (), s)
    \<and> accept_offer (mt_receiver (sample_meeting (Some [''f'']))) sample_crates sample_zlib
        (sample_peer_env\<lparr>pe_local_sdp := Some ''v=1''\<rparr>) sample_offer
        (call_outcome True (receiving_task sample_crates (sample_meeting (Some [''f'']))) (says SenderSide d))
        (hearing [] []) = (Inr (), t)
    \<and> last (rs_trace s) = PeerConnectionClosed \<and> last (rs_trace t) = PeerConnectionClosed"
  using call_completes [OF sample_meeting_honest sample_connected sample_chooses refl, where sending = "[sample_file]"
      and files = "[sample_dto ''f'']" and ids = "[''f'']" and P = sample_parsers and target = 9 and b = False
      and b' = True]
  unfolding sample_accepted by (simp add: file_script_def) blast

end
