(* ===== verification/Call_Exchange.thy ===== *)
theory Call_Exchange
  imports Signaling_Exchange Rtc_Call
begin

text \<open>
  A call from end to end: the offer of one client and the answer of the other one travel through
  the signaling server, and the two tasks then talk over the data channel. The safety of the
  server says that what arrives is genuine; this theory shows that it does arrive, in any reachable
  state of the server in which both clients are connected and their group has requests left.
\<close>

section \<open>Through the server\<close>

lemma message_frame_inject:
  assumes "json_law X" and "uuid_law X"
  shows "message_frame X m = message_frame X m' \<longleftrightarrow> m = m'"
proof
  assume "message_frame X m = message_frame X m'"
  then have "to_text X (enc_ws_client_message X) m = to_text X (enc_ws_client_message X) m'"
    by (simp add: message_frame_def)
  then show "m = m'" using message_frame_decodes [OF assms] by (metis option.inject)
qed simp

text \<open>A connection whose tasks run and have nothing left to send.\<close>

definition idle :: "system \<Rightarrow> chan \<Rightarrow> conn \<Rightarrow> bool" where
  "idle s c cn \<longleftrightarrow> sy_conns s c = Some cn \<and> cn_phase cn = Running [] \<and> cn_open cn"

definition emptied :: "conn \<Rightarrow> conn" where
  "emptied cn = cn\<lparr>cn_queue := [], cn_out := cn_out cn @ cn_queue cn\<rparr>"

definition given :: "ws_server_message \<Rightarrow> conn \<Rightarrow> conn" where
  "given m cn = cn\<lparr>cn_out := cn_out cn @ [m]\<rparr>"

lemma emptied_simps [simp]:
  "cn_queue (emptied cn) = []" "cn_out (emptied cn) = cn_out cn @ cn_queue cn" "cn_group (emptied cn) = cn_group cn"
  "cn_peer (emptied cn) = cn_peer cn" "cn_phase (emptied cn) = cn_phase cn" "cn_open (emptied cn) = cn_open cn"
  by (simp_all add: emptied_def)

lemma given_simps [simp]:
  "cn_queue (given m cn) = cn_queue cn" "cn_out (given m cn) = cn_out cn @ [m]" "cn_group (given m cn) = cn_group cn"
  "cn_peer (given m cn) = cn_peer cn" "cn_phase (given m cn) = cn_phase cn" "cn_open (given m cn) = cn_open cn"
  by (simp_all add: given_def)

lemma ws_run_append: "ws_run X L (as @ bs) s = Option.bind (ws_run X L as s) (ws_run X L bs)"
proof (induction as arbitrary: s)
  case (Cons a as)
  then show ?case by (cases "ws_act X L a s") (simp_all del: ws_act.simps)
qed simp

lemma ws_run_inv: "ws_run X L as s = Some t \<Longrightarrow> sys_inv L s \<Longrightarrow> sys_inv L t"
proof (induction as arbitrary: s)
  case (Cons a as)
  then obtain u where "ws_act X L a s = Some u" "ws_run X L as u = Some t"
    by (auto split: bind_splits)
  then show ?case using Cons sys_inv_step [OF _ ws_step.act] by blast
qed simp

lemma drain_run:
  "idle s d dn \<Longrightarrow> ws_run X L (replicate (length (cn_queue dn)) (ADrain d)) s
     = Some (s\<lparr>sy_conns := (sy_conns s)(d \<mapsto> emptied dn)\<rparr>)"
proof (induction "cn_queue dn" arbitrary: s dn)
  case Nil
  then have "emptied dn = dn" by (cases dn) (simp add: emptied_def)
  then show ?case using Nil by (simp add: idle_def map_upd_triv)
next
  case (Cons m q)
  let ?dn = "dn\<lparr>cn_queue := q, cn_out := cn_out dn @ [m]\<rparr>"
  note queue = Cons.hyps(2) [symmetric]
  let ?s = "s\<lparr>sy_conns := (sy_conns s)(d \<mapsto> ?dn)\<rparr>"
  have step: "ws_act X L (ADrain d) s = Some ?s"
    using Cons.prems by (simp add: idle_def queue)
  have "idle ?s d ?dn" using Cons.prems by (simp add: idle_def)
  from Cons.hyps(1) [OF _ this] have "ws_run X L (replicate (length q) (ADrain d)) ?s
      = Some (?s\<lparr>sy_conns := (sy_conns ?s)(d \<mapsto> emptied ?dn)\<rparr>)"
    by simp
  then show ?case
    using step by (simp add: queue emptied_def del: ws_act.simps)
qed

text \<open>
  One message from client to client: a frame of \<open>c\<close> that asks for \<open>w\<close> to be sent to \<open>d\<close>, with room in
  the channel of \<open>d\<close> and a request left in the budget of the group.
\<close>

lemma forward_run:
  assumes inv: "sys_inv L s" and c: "idle s c cn" and d: "idle s d dn" and cd: "c \<noteq> d"
    and group: "cn_group dn = cn_group cn" and room: "cn_queue dn = []"
    and target: "cs_target (sdp_inner w) = ci_id (cn_peer dn)"
    and laws: "json_law X" "uuid_law X"
    and budget: "used (sy_state s) (cn_group cn) < max_requests L"
  shows "\<exists>st. ws_run X L [AFrame c (message_frame X (request w)), ASend c, ADrain d] s
      = Some \<lparr>sy_state = st, sy_conns = (sy_conns s)(d \<mapsto> given (wrapper_message (cn_peer cn) w) dn)\<rparr>
    \<and> used st (cn_group cn) = used (sy_state s) (cn_group cn) + 1"
proof -
  let ?g = "cn_group cn" and ?m = "wrapper_message (cn_peer cn) w"
  have "(?g, ci_id (cn_peer dn), d) \<in> regs (sy_state s)"
    using sys_invD(2) [OF inv] d group by (auto simp: registered_iff idle_def)
  then obtain v where v: "members (sy_state s) ?g (ci_id (cn_peer dn)) = Some v" "st_tx v = d"
    by (auto simp: regs_def)
  obtain r rc where p: "protect_ddos_request_count L ?g (request_count_map (sy_state s)) = (r, rc)"
    by force
  let ?st = "(sy_state s)\<lparr>request_count_map := rc\<rparr>"
  have r: "r = Inr ()" "used ?st = (used (sy_state s))(?g := used (sy_state s) ?g + 1)"
    using protect_cases [OF p, of "sy_state s"] budget by (auto split: sum.splits)
  have "send_to_peer ?g (cn_peer cn) w ?st = [(d, ?m)]"
    using v by (simp add: send_to_peer_eq members_counted target)
  then have dispatch: "dispatch_message ?g (cn_peer cn) (request w) ?st = ([(d, ?m)], ?st)"
    by (cases w) (simp_all add: dispatch_message_def)
  have frame: "recv_frame X L ?g (cn_peer cn) c (message_frame X (request w)) (sy_state s) = (Continue, [(d, ?m)], ?st)"
    using message_frame_decodes [OF laws] p r(1) dispatch by (simp add: recv_frame_def message_frame_def)
  let ?cs = "(sy_conns s)(c \<mapsto> cn\<lparr>cn_phase := Running [(d, ?m)]\<rparr>)"
  have same: "cn\<lparr>cn_phase := Running []\<rparr> = cn"
    using c by (cases cn) (simp add: idle_def)
  have "ws_act X L (AFrame c (message_frame X (request w))) s = Some \<lparr>sy_state = ?st, sy_conns = ?cs\<rparr>"
    using c frame by (simp add: idle_def)
  moreover have "ws_act X L (ASend c) \<lparr>sy_state = ?st, sy_conns = ?cs\<rparr> = Some \<lparr>sy_state = ?st,
      sy_conns = (sy_conns s)(c \<mapsto> cn, d \<mapsto> dn\<lparr>cn_queue := [?m]\<rparr>)\<rparr>"
    using d cd room same by (simp add: idle_def deliver_def channel_capacity_def)
  moreover have "ws_act X L (ADrain d) \<lparr>sy_state = ?st, sy_conns = (sy_conns s)(c \<mapsto> cn, d \<mapsto> dn\<lparr>cn_queue := [?m]\<rparr>)\<rparr>
      = Some \<lparr>sy_state = ?st, sy_conns = (sy_conns s)(c \<mapsto> cn, d \<mapsto> given ?m dn)\<rparr>"
    using d room by (cases dn) (simp add: idle_def given_def)
  moreover have "(sy_conns s)(c \<mapsto> cn) = sy_conns s"
    using c by (simp add: idle_def map_upd_triv)
  ultimately show ?thesis
    using r(2) by (intro exI [of _ ?st]) (simp del: ws_act.simps)
qed

lemma idle_upd:
  "idle s c cn \<Longrightarrow> c \<noteq> d \<Longrightarrow> idle \<lparr>sy_state = st, sy_conns = (sy_conns s)(d \<mapsto> dn)\<rparr> c cn"
  "cn_phase dn = Running [] \<Longrightarrow> cn_open dn \<Longrightarrow> idle \<lparr>sy_state = st, sy_conns = (sy_conns s)(d \<mapsto> dn)\<rparr> d dn"
  by (simp_all add: idle_def)

text \<open>The same with whatever the channel of \<open>d\<close> still holds, which is written out first.\<close>

definition passing :: "('z) crates_scheme \<Rightarrow> chan \<Rightarrow> chan \<Rightarrow> conn \<Rightarrow> sdp_wrapper \<Rightarrow> action list" where
  "passing X c d dn w = replicate (length (cn_queue dn)) (ADrain d)
     @ [AFrame c (message_frame X (request w)), ASend c, ADrain d]"

lemma passing_run:
  assumes "sys_inv L s" and c: "idle s c cn" and d: "idle s d dn" and cd: "c \<noteq> d"
    and "cn_group dn = cn_group cn" and "cs_target (sdp_inner w) = ci_id (cn_peer dn)"
    and "json_law X" "uuid_law X" and "used (sy_state s) (cn_group cn) < max_requests L"
  shows "\<exists>st. ws_run X L (passing X c d dn w) s = Some \<lparr>sy_state = st,
      sy_conns = (sy_conns s)(d \<mapsto> given (wrapper_message (cn_peer cn) w) (emptied dn))\<rparr>
    \<and> used st (cn_group cn) = used (sy_state s) (cn_group cn) + 1"
proof -
  let ?s = "s\<lparr>sy_conns := (sy_conns s)(d \<mapsto> emptied dn)\<rparr>"
  have drained: "ws_run X L (replicate (length (cn_queue dn)) (ADrain d)) s = Some ?s"
    by (rule drain_run [OF d])
  have inv: "sys_inv L ?s" by (rule ws_run_inv [OF drained assms(1)])
  have "idle ?s c cn" "idle ?s d (emptied dn)"
    using c d cd by (simp_all add: idle_def)
  from forward_run [OF inv this cd, of w X] assms(5-9) show ?thesis
    unfolding passing_def ws_run_append drained by simp
qed

text \<open>An offer one way and the answer to it the other way.\<close>

definition offer_of :: "conn \<Rightarrow> conn \<Rightarrow> string \<Rightarrow> string \<Rightarrow> ws_client_sdp_message" where
  "offer_of cn dn session_id sdp = \<lparr>cs_session_id = session_id, cs_target = ci_id (cn_peer dn), cs_sdp = sdp\<rparr>"

lemma exchange_run:
  assumes inv: "sys_inv L s" and c: "idle s c cn" and d: "idle s d dn" and cd: "c \<noteq> d"
    and group: "cn_group dn = cn_group cn" and laws: "json_law X" "uuid_law X"
    and budget: "unat (used (sy_state s) (cn_group cn)) + 1 < unat (max_requests L)"
  shows "\<exists>s' dn'. ws_run X L (passing X c d dn (WOffer (offer_of cn dn i o1))
        @ passing X d c cn (WAnswer (offer_of dn cn i o2))) s = Some s'
    \<and> sy_conns s' d = Some dn' \<and> cn_out dn' = cn_out dn @ cn_queue dn @ [Offer \<lparr>ss_peer = cn_peer cn, ss_session_id = i, ss_sdp = o1\<rparr>]
    \<and> map_option cn_out (sy_conns s' c)
      = Some (cn_out cn @ cn_queue cn @ [Answer \<lparr>ss_peer = cn_peer dn, ss_session_id = i, ss_sdp = o2\<rparr>])"
proof -
  let ?g = "cn_group cn" and ?m = "wrapper_message (cn_peer cn) (WOffer (offer_of cn dn i o1))"
  have less: "used (sy_state s) ?g < max_requests L" "used (sy_state s) ?g + 1 < max_requests L"
    using budget by (simp_all add: word_less_nat_alt unat_word_ariths)
  obtain st where st: "ws_run X L (passing X c d dn (WOffer (offer_of cn dn i o1))) s = Some \<lparr>sy_state = st,
      sy_conns = (sy_conns s)(d \<mapsto> given ?m (emptied dn))\<rparr>" "used st ?g = used (sy_state s) ?g + 1"
    using passing_run [OF inv c d cd group _ laws less(1), of "WOffer (offer_of cn dn i o1)"]
    by (auto simp: offer_of_def)
  let ?dn = "given ?m (emptied dn)" and ?s = "\<lparr>sy_state = st, sy_conns = (sy_conns s)(d \<mapsto> given ?m (emptied dn))\<rparr>"
  have idle: "idle ?s d ?dn" "idle ?s c cn"
    using c d cd by (simp_all add: idle_def)
  have "used (sy_state ?s) (cn_group ?dn) < max_requests L"
    using less(2) st(2) group by simp
  from passing_run [OF ws_run_inv [OF st(1) inv] idle cd [symmetric] _ _ laws this, of "WAnswer (offer_of dn cn i o2)"]
  show ?thesis
    using st(1) group cd by (auto simp: ws_run_append offer_of_def to_server_sdp_def)
qed

section \<open>The call\<close>

text \<open>
  C2. A call from end to end, server included. In any reachable state of the signaling server, take
  two clients connected from the same IP group whose tasks run, with two requests left in the
  budget of the group; two peer connections that work; and two honest peers as in C1. Then the
  server has a run that contains exactly one frame of each of the two: the offer that \<open>send_offer\<close>
  signals and the answer that \<open>accept_offer\<close> signals. In this run the callee gets the offer,
  with the caller's own description of itself, and the caller the answer, after everything that
  was on its way to them; the callback registered for the session is run with this answer. With
  these two messages \<open>send_offer\<close> and \<open>accept_offer\<close> both return successfully, and their tasks
  play one dialogue on the data channel, which delivers exactly the selected files.
\<close>

theorem call_through_server:
  assumes server: "ws_reachable X L s" "idle s c cn" "idle s d dn" "c \<noteq> d" "cn_group dn = cn_group cn"
      "unat (used (sy_state s) (cn_group cn)) + 1 < unat (max_requests L)" "uuid_law X"
    and peers: "zlib_law Z" "utf8_valid (as_bytes sdp)" "utf8_valid (as_bytes sdp')" "ready C sdp sdp'" "ready D sdp' sdp"
    and users: "honest X M" "user_chooses (mt_receiver M) (seen_before_choice M files) (Some ids)"
      "app_reads (mt_receiver M) files (seen_before_choice M files)"
    and selection: "tokens = assign_tokens (en_uuid (mt_receiver M)) 0 ids hm_new" "accepted tokens sending \<noteq> []"
      "\<forall>f \<in> set (accepted tokens sending). fst f \<in> fd_id ` set files"
  shows "\<exists>as s' dn' offer answer dialogue sent received.
      ws_run X L as s = Some s' \<and> sy_conns s' d = Some dn'
    \<and> {m. AFrame c (message_frame X m) \<in> set as} = {m. SignalingSent m \<in> set (rs_trace sent)}
    \<and> {m. AFrame d (message_frame X m) \<in> set as} = {m. SignalingSent m \<in> set (rs_trace received)}
    \<and> cn_out dn' = cn_out dn @ cn_queue dn @ [Offer offer] \<and> ss_peer offer = cn_peer cn
    \<and> map_option cn_out (sy_conns s' c) = Some (cn_out cn @ cn_queue cn @ [Answer answer])
    \<and> map_option fst (listen True (Answer answer) (on_answer (pe_session_id C) callback client))
        = Some [(callback, answer)]
    \<and> send_offer (mt_sender M) X Z (C\<lparr>pe_answer := Some (ss_sdp answer)\<rparr>) (ci_id (cn_peer dn))
        (call_outcome b (sending_task X P M files sending) (says ReceiverSide dialogue)) (hearing [] []) = (Inr (), sent)
    \<and> accept_offer (mt_receiver M) X Z D offer
        (call_outcome b' (receiving_task X M) (says SenderSide dialogue)) (hearing [] []) = (Inr (), received)
    \<and> plays SenderSide (sending_task X P M files sending) dialogue [] []
    \<and> plays ReceiverSide (receiving_task X M) dialogue [] (concat (map file_script (accepted tokens sending)))"
proof -
  note laws = honestD(1) [OF users(1)] server(7)
  let ?i = "pe_session_id C"
  let ?o = "encode_sdp X Z sdp" and ?a = "encode_sdp X Z sdp'"
  let ?offer = "\<lparr>ss_peer = cn_peer cn, ss_session_id = ?i, ss_sdp = ?o\<rparr>"
  let ?answer = "\<lparr>ss_peer = cn_peer dn, ss_session_id = ?i, ss_sdp = ?a\<rparr>"
  let ?C = "C\<lparr>pe_answer := Some ?a\<rparr>"
  let ?as = "passing X c d dn (WOffer (offer_of cn dn ?i ?o)) @ passing X d c cn (WAnswer (offer_of dn cn ?i ?a))"
  obtain s' dn' where run: "ws_run X L ?as s = Some s'" "sy_conns s' d = Some dn'"
      "cn_out dn' = cn_out dn @ cn_queue dn @ [Offer ?offer]"
      "map_option cn_out (sy_conns s' c) = Some (cn_out cn @ cn_queue cn @ [Answer ?answer])"
    using exchange_run [OF signaling.inv_reachable [OF server(1)] server(2-5) laws server(6)] by blast
  have frames: "{m. AFrame c (message_frame X m) \<in> set ?as} = {COffer (offer_of cn dn ?i ?o)}"
    "{m. AFrame d (message_frame X m) \<in> set ?as} = {CAnswer (offer_of dn cn ?i ?a)}"
    using server(4) message_frame_inject [OF laws] by (auto simp: passing_def)
  have "connected X Z ?C D ?offer"
    using peers honestD(2) [OF users(1)] by (auto simp: connected_def ready_def)
  from call_completes [OF users(1) this users(2,3) selection, of P "ci_id (cn_peer dn)" b b']
  obtain dlg st rt where call: "plays SenderSide (sending_task X P M files sending) dlg [] []"
      "plays ReceiverSide (receiving_task X M) dlg [] (concat (map file_script (accepted tokens sending)))"
      "send_offer (mt_sender M) X Z ?C (ci_id (cn_peer dn))
        (call_outcome b (sending_task X P M files sending) (says ReceiverSide dlg)) (hearing [] []) = (Inr (), st)"
      "accept_offer (mt_receiver M) X Z D ?offer
        (call_outcome b' (receiving_task X M) (says SenderSide dlg)) (hearing [] []) = (Inr (), rt)"
      "{m. SignalingSent m \<in> set (rs_trace st)} = {COffer (offer_of cn dn ?i ?o)}"
      "{m. SignalingSent m \<in> set (rs_trace rt)} = {CAnswer (offer_of dn cn ?i ?a)}"
    by (auto simp: offer_of_def)
  have called: "map_option fst (listen True (Answer ?answer) (on_answer ?i callback client)) = Some [(callback, ?answer)]"
    by (simp add: listen_True on_answer_def map_simps)
  show ?thesis
    using run frames call called
    by (intro exI [of _ ?as] exI [of _ s'] exI [of _ dn'] exI [of _ ?offer] exI [of _ ?answer] exI [of _ dlg]
        exI [of _ st] exI [of _ rt]) simp
qed

text \<open>Two clients that have just connected.\<close>

definition meeting_schedule :: "action list" where
  "meeting_schedule =
     [AConnect 0 ''10.0.0.1'' (sample_peer 7), ASend 0, ASpawn 0, ADrain 0,
      AConnect 1 ''10.0.0.1'' (sample_peer 8), ASend 1, ASend 1, ASpawn 1]"

lemma meeting_schedule_runs:
  "case ws_run sample_crates default_limits meeting_schedule system_new of
     None \<Rightarrow> False
   | Some s \<Rightarrow> sy_conns s 0 = Some \<lparr>cn_group = ''10.0.0.1'', cn_peer = sample_peer 7, cn_phase = Running [],
         cn_queue = [Join (sample_peer 8)], cn_open = True, cn_out = [Hello (sample_peer 7) []]\<rparr>
     \<and> sy_conns s 1 = Some \<lparr>cn_group = ''10.0.0.1'', cn_peer = sample_peer 8, cn_phase = Running [],
         cn_queue = [Hello (sample_peer 8) [sample_peer 7]], cn_open = True, cn_out = []\<rparr>
     \<and> unat (used (sy_state s) ''10.0.0.1'') + 1 < unat (max_requests default_limits)"
  by code_simp

lemma call_through_server_witness:
  "\<exists>s as s' dn' offer dialogue.
      ws_run sample_crates default_limits meeting_schedule system_new = Some s
    \<and> ws_run sample_crates default_limits as s = Some s' \<and> sy_conns s' 1 = Some dn'
    \<and> cn_out dn' = [Hello (sample_peer 8) [sample_peer 7], Offer offer] \<and> ss_peer offer = sample_peer 7
    \<and> plays ReceiverSide (receiving_task sample_crates (sample_meeting (Some [''f'']))) dialogue []
        [FileOpened ''f'', FileData ''f'' [1, 2, 3], FileClosed ''f'']"
proof -
  let ?M = "sample_meeting (Some [''f''])" and ?D = "sample_peer_env\<lparr>pe_local_sdp := Some ''v=1''\<rparr>"
  obtain s where run: "ws_run sample_crates default_limits meeting_schedule system_new = Some s"
    and s: "sy_conns s 0 = Some \<lparr>cn_group = ''10.0.0.1'', cn_peer = sample_peer 7, cn_phase = Running [],
         cn_queue = [Join (sample_peer 8)], cn_open = True, cn_out = [Hello (sample_peer 7) []]\<rparr>"
      "sy_conns s 1 = Some \<lparr>cn_group = ''10.0.0.1'', cn_peer = sample_peer 8, cn_phase = Running [],
         cn_queue = [Hello (sample_peer 8) [sample_peer 7]], cn_open = True, cn_out = []\<rparr>"
      "unat (used (sy_state s) ''10.0.0.1'') + 1 < unat (max_requests default_limits)"
    using meeting_schedule_runs by (auto split: option.splits)
  have reach: "ws_reachable sample_crates default_limits s"
    by (rule ws_run_reachable [OF reach_init run]) simp
  have idle: "idle s 0 (the (sy_conns s 0))" "idle s 1 (the (sy_conns s 1))"
    using s by (simp_all add: idle_def)
  have ready: "ready sample_peer_env ''v=0'' ''v=1''" "ready ?D ''v=1'' ''v=0''"
    by (simp_all add: ready_def sample_peer_env_def)
  have sdps: "zlib_law sample_zlib" "utf8_valid (as_bytes ''v=0'')" "utf8_valid (as_bytes ''v=1'')"
    by (simp_all add: zlib_law_def sample_zlib_def as_bytes_def)
  note call = call_through_server [OF reach idle _ _ _ sample_laws(1) sdps ready sample_meeting_honest
      sample_chooses refl, where sending = "[sample_file]" and files = "[sample_dto ''f'']" and ids = "[''f'']"
      and P = sample_parsers and b = False and b' = False and callback = "0 :: nat"
      and client = "start_listener sample_connection"]
  obtain as s' dn' offer dialogue where "ws_run sample_crates default_limits as s = Some s'" "sy_conns s' (Suc 0) = Some dn'"
      "cn_out dn' = [Hello (sample_peer 8) [sample_peer 7], Offer offer]" "ss_peer offer = sample_peer 7"
      "plays ReceiverSide (receiving_task sample_crates ?M) dialogue []
        [FileOpened ''f'', FileData ''f'' [1, 2, 3], FileClosed ''f'']"
    using call s unfolding sample_accepted by (simp add: file_script_def) (elim exE conjE, rule that, assumption+)
  with run show ?thesis by (simp only: One_nat_def) blast
qed

end
