(* ===== verification/Rtc_Lockout.thy ===== *)
theory Rtc_Lockout
  imports Rtc_Session
begin

text \<open>
  The dialogue in which a user guesses the PIN and runs out of attempts: both tasks take part in it
  to its end, and both fail with the error the code has for that case.
\<close>

section \<open>Tasks that fail\<close>

text \<open>
  Like \<open>converses\<close>, for a program that ends with the error for too many attempts, after telling the app.
\<close>

definition locked_out :: "rtc_error" where
  "locked_out = Anyhow ''Too many requests''"

definition fails_well :: "party \<Rightarrow> 'a prog \<Rightarrow> dialogue \<Rightarrow> event list \<Rightarrow> event list \<Rightarrow> bool" where
  "fails_well me f d tr es \<longleftrightarrow> sent_messages es = says me d \<and> filter is_file_event es = []
     \<and> (\<exists>fs. es = fs @ [StatusSent TooManyAttempts])
     \<and> (\<forall>rest. f (hearing (says (other me) d @ rest) tr) = (Inl locked_out, hearing rest (tr @ es)))"

definition breaks_off :: "party \<Rightarrow> event list \<Rightarrow> 'a prog \<Rightarrow> dialogue \<Rightarrow> event list \<Rightarrow> bool" where
  "breaks_off me u f d w \<longleftrightarrow> (\<forall>tr. user_events tr = u \<longrightarrow>
     in_turn me f d tr \<and> (\<exists>es. fails_well me f d tr es \<and> user_events (tr @ es) = w))"

lemma breaks_bind:
  assumes f: "converses me u f d v w" and g: "breaks_off me w (g v) d' w'"
    and grows: "\<And>x tr. keeps (grown tr) (g x)"
  shows "breaks_off me u (bindP f g) (d @ d') w'"
  unfolding breaks_off_def
proof (intro allI impI)
  fix tr
  assume "user_events tr = u"
  with f obtain es where f': "in_turn me f d tr" "ends_well me f d v tr es" "user_events (tr @ es) = w"
    by (auto simp: converses_def)
  with g obtain fs where g': "in_turn me (g v) d' (tr @ es)" "fails_well me (g v) d' (tr @ es) fs"
    "user_events ((tr @ es) @ fs) = w'"
    unfolding breaks_off_def by blast
  have "fails_well me (bindP f g) (d @ d') tr (es @ fs)"
    using f'(2) g'(2) by (auto simp: fails_well_def ends_well_def bindP_def)
  with in_turn_bind [where g = g, OF f'(1,2) g'(1) grows] g'(3)
  show "in_turn me (bindP f g) (d @ d') tr
      \<and> (\<exists>es. fails_well me (bindP f g) (d @ d') tr es \<and> user_events (tr @ es) = w')"
    by (metis append.assoc)
qed

lemma breaks_then:
  "converses me u f d v w \<Longrightarrow> breaks_off me w g d' w' \<Longrightarrow> (\<And>tr. keeps (grown tr) g) \<Longrightarrow>
   breaks_off me u (thenP f g) (d @ d') w'"
  unfolding thenP_def by (rule breaks_bind)

lemma breaks_first:
  assumes f: "breaks_off me u f d w" and grows: "\<And>x tr. keeps (grown tr) (g x)"
  shows "breaks_off me u (bindP f g) d w"
  unfolding breaks_off_def
proof (intro allI impI)
  fix tr
  assume "user_events tr = u"
  with f obtain es where f': "in_turn me f d tr" "fails_well me f d tr es" "user_events (tr @ es) = w"
    by (auto simp: breaks_off_def)
  have "in_turn me (bindP f g) d tr"
    using f'(1) says_more [where g = g, OF _ grows] by (auto simp: in_turn_def)
  moreover have "fails_well me (bindP f g) d tr es"
    using f'(2) by (simp add: fails_well_def bindP_def)
  ultimately show "in_turn me (bindP f g) d tr
      \<and> (\<exists>es. fails_well me (bindP f g) d tr es \<and> user_events (tr @ es) = w)"
    using f'(3) by blast
qed

lemma breaks_first_then:
  "breaks_off me u f d w \<Longrightarrow> (\<And>tr. keeps (grown tr) g) \<Longrightarrow> breaks_off me u (thenP f g) d w"
  unfolding thenP_def by (rule breaks_first)

lemma breaks_too_many:
  assumes "reliable E"
  shows "breaks_off me u (thenP (status_send E TooManyAttempts) (fail ''Too many requests'')) [] u"
  using assms by (auto simp: breaks_off_def fails_well_def in_turn_def status_send_def reliable_def
      locked_out_def prog_simps)

lemma converse_timeout:
  assumes "converses me u f d v w" and "\<And>tr. en_cut E tr = None"
  shows "converses me u (timeout E f) d () w"
  using assms(1) by (rule converse_handled) (simp_all add: timeout_def assms(2) split: prod.split)

section \<open>The side that asks\<close>

lemma reject_breaks:
  assumes "reliable E" and "\<And>tr. en_cut E tr = None"
    and final: "\<And>u. converses me u (send_result VpTooManyAttempts) final () u"
  shows "breaks_off me u (reject_pin E send_result) final u"
proof -
  have "converses me u (thenP (attempt (send_result VpTooManyAttempts)) wait_buffer_empty) (final @ []) () u"
    by (rule converse_then converse_attempt final converse_wait | intro triple_intro)+
  from breaks_then [OF converse_timeout [OF this assms(2)] breaks_too_many [OF assms(1)]]
  show ?thesis by (simp add: reject_pin_def triple_intro)
qed

lemma verify_loop_breaks:
  assumes X: "json_law X" and E: "reliable E" "\<And>tr. en_cut E tr = None"
    and retry: "\<And>u. converses me u (send_result VpPinRequired) retry () u"
    and final: "\<And>u. converses me u (send_result VpTooManyAttempts) final () u"
    and grows: "\<And>tr r. keeps (grown tr) (send_result r)"
  shows "pin \<noteq> pc_pin cfg \<Longrightarrow> pc_pin cfg \<notin> set (ws @ [w]) \<Longrightarrow> unat k + Suc (length ws) = unat (pc_max_tries cfg) \<Longrightarrow>
    breaks_off me u (verify_pin_loop E X cfg send_result notice pin k)
      ((if notice \<or> 0 < k then retry else []) @ pin_tries X (other me) retry ws w @ final) u"
proof (induction ws arbitrary: notice pin k)
  have step: "verify_pin_loop E X cfg send_result notice pin k
      = thenP (if notice \<or> 0 < k then send_result VpPinRequired else ret ())
          (bindP (receive_pin X) (\<lambda>q. verify_pin_loop E X cfg send_result False q (k + 1)))"
    if "pin \<noteq> pc_pin cfg" "unat k < unat (pc_max_tries cfg)" for notice pin k
    using that by (subst verify_pin_loop.simps) (auto simp: word_le_nat_alt)
  have said: "converses me u (if notice \<or> 0 < k then send_result VpPinRequired else ret ())
      (if notice \<or> 0 < k then retry else []) () u" for notice k
    using retry by (simp add: converse_ret)
  have grows': "keeps (grown tr) (verify_pin_loop E X cfg send_result b q k)" for tr b q k
    by (rule grown_verify_loop) (rule grows)
  have next_k: "unat (k + 1) = Suc (unat k)" if "unat k < unat (pc_max_tries cfg)" for k :: u8
    by (rule unat_try_Suc [of "pc_max_tries cfg"]) (use that in \<open>simp add: word_le_nat_alt\<close>)
  {
    case Nil
    then have k: "unat k < unat (pc_max_tries cfg)" by simp
    have "verify_pin_loop E X cfg send_result False w (k + 1) = reject_pin E send_result"
      using Nil next_k [OF k] by (subst verify_pin_loop.simps) (auto simp: word_le_nat_alt)
    then have last: "breaks_off me u (verify_pin_loop E X cfg send_result False w (k + 1)) final u"
      using reject_breaks [where E = E and send_result = send_result and final = final, OF E final] by simp
    have "breaks_off me u (verify_pin_loop E X cfg send_result notice pin k)
        ((if notice \<or> 0 < k then retry else []) @ [(other me, pin_text X w)] @ final) u"
      unfolding step [OF Nil(1) k]
      by (rule breaks_then [OF said] breaks_bind [OF hear_pin [OF X]] last | intro triple_intro grows')+
    then show ?case by (simp add: pin_tries_simps)
  next
    case (Cons q qs)
    then have k: "unat k < unat (pc_max_tries cfg)" by simp
    then have pos: "0 < k + 1" using next_k by (simp add: word_less_nat_alt)
    have "breaks_off me u (verify_pin_loop E X cfg send_result False q (k + 1))
        ((if False \<or> 0 < k + 1 then retry else []) @ pin_tries X (other me) retry qs w @ final) u"
      using Cons.prems next_k [OF k] by (intro Cons.IH) auto
    then have more: "breaks_off me u (verify_pin_loop E X cfg send_result False q (k + 1))
        (retry @ pin_tries X (other me) retry qs w @ final) u"
      using pos by simp
    have "breaks_off me u (verify_pin_loop E X cfg send_result notice pin k)
        ((if notice \<or> 0 < k then retry else []) @ [(other me, pin_text X q)]
         @ retry @ pin_tries X (other me) retry qs w @ final) u"
      unfolding step [OF Cons.prems(1) k]
      by (rule breaks_then [OF said] breaks_bind [OF hear_pin [OF X]] more | intro triple_intro grows')+
    then show ?case by (simp add: pin_tries_simps)
  }
qed

text \<open>
  A user who guesses: asked for the \<open>i\<close>-th time, enters the \<open>i\<close>-th of the PINs \<open>ws @ [w]\<close>, all wrong and
  as many as the other side allows.
\<close>

definition guesses :: "env \<Rightarrow> pin_config \<Rightarrow> event list \<Rightarrow> string list \<Rightarrow> string \<Rightarrow> bool" where
  "guesses E cfg u ws w \<longleftrightarrow> pc_pin cfg \<noteq> [] \<and> pc_pin cfg \<notin> set (ws @ [w])
     \<and> Suc (length ws) = unat (pc_max_tries cfg) \<and> user_enters E u (ws @ [w])"

lemma verify_pin_breaks:
  assumes "json_law X" and "reliable E" and "\<And>tr. en_cut E tr = None" and "guesses F cfg u' ws w"
    and "\<And>u. converses me u (send_result VpPinRequired) retry () u"
    and "\<And>u. converses me u (send_result VpTooManyAttempts) final () u"
    and "\<And>tr r. keeps (grown tr) (send_result r)"
  shows "breaks_off me u (verify_pin E X cfg notice send_result)
    ((if notice then retry else []) @ pin_tries X (other me) retry ws w @ final) u"
proof -
  have "breaks_off me u (verify_pin_loop E X cfg send_result notice [] 0)
      ((if notice \<or> 0 < (0 :: u8) then retry else []) @ pin_tries X (other me) retry ws w @ final) u"
    using assms(4) by (intro verify_loop_breaks assms) (auto simp: guesses_def)
  from breaks_then [OF converse_status(1) [OF assms(2)] this grown_verify_loop [OF assms(7)]]
  show ?thesis by (simp add: verify_pin_def)
qed

section \<open>The side that answers\<close>

lemma handle_pin_breaks:
  assumes E: "reliable E" and enters: "user_enters E u (ws @ [w])"
    and retry: "hears in_chunks ms bs" "parse bs = CpPinRequired" "retry = map (Pair (other me)) ms"
    and last: "hears in_chunks ms' bs'" "parse bs' = CpTooManyAttempts" "final = map (Pair (other me)) ms'"
  shows "breaks_off me u (handle_pin E X in_chunks parse) (pin_tries X me retry ws w @ final)
    (u @ replicate (Suc (length ws)) PinAsked)"
  unfolding breaks_off_def
proof (intro allI impI)
  fix tr
  assume u: "user_events tr = u"
  let ?d = "pin_tries X me retry ws w @ final"
    and ?fs = "concat (map (pin_shown_events X) ws)" and ?gs = "pin_shown_events X w @ [StatusSent TooManyAttempts]"
  have turns: "in_turn me (handle_pin E X in_chunks parse) ?d tr"
    using handle_pin_loop_turns [where ms' = ms' and parse = parse and ps = ws and p = w and u = u,
        OF E retry enters u, folded last(3)]
    unfolding in_turn_def in_turn_upto_def says_at_least_def handle_pin_def by fastforce
  have len: "length ws \<le> length (concat (map (\<lambda>_. ms) ws))"
    using retry(1) by (induction ws) (auto simp: hears_def neq_Nil_conv)
  have "handle_pin E X in_chunks parse (hearing (says (other me) ?d @ rest) tr)
      = (Inl locked_out, hearing rest (tr @ ?fs @ ?gs))" for rest
  proof -
    let ?n = "length (concat (map (\<lambda>_. ms) ws) @ ms' @ rest)"
    obtain k where k: "Suc ?n - length ws = Suc k"
      using len by (cases "Suc ?n - length ws") auto
    have "handle_pin E X in_chunks parse (hearing (says (other me) ?d @ rest) tr)
        = handle_pin_loop (Suc k) E X in_chunks parse (hearing (ms' @ rest) (tr @ ?fs))"
      using handle_pin_loop_wrong [where ps = ws and qs = "[w]" and u = u and tr = tr and n = "Suc ?n"
          and rest = "ms' @ rest" and parse = parse, OF E retry(1,2) enters _ u] len k
      by (simp add: handle_pin_def says_pin_tries [OF retry(3)] last(3) del: handle_pin_loop.simps)
    then show ?thesis
      unfolding handle_pin_loop_Suc using E
      by (simp add: pin_round_run [OF E user_enters_last [OF enters u] last(1)] last(2) status_send_def reliable_def locked_out_def prog_simps)
  qed
  then have "fails_well me (handle_pin E X in_chunks parse) ?d tr (?fs @ ?gs)"
    unfolding fails_well_def
    by (simp add: shown_events_all says_pin_tries [OF retry(3)] last(3))
  moreover have "user_events (tr @ ?fs @ ?gs) = u @ replicate (Suc (length ws)) PinAsked"
    using u by (simp add: shown_events_all replicate_append_same)
  ultimately show "in_turn me (handle_pin E X in_chunks parse) ?d tr
      \<and> (\<exists>es. fails_well me (handle_pin E X in_chunks parse) ?d tr es
        \<and> user_events (tr @ es) = u @ replicate (Suc (length ws)) PinAsked)"
    using turns by blast
qed

section \<open>The sender's user guesses\<close>

text \<open>
  Two peers that are honest but for the PINs; the receiver asks for one that the sender's user does not know.
\<close>

definition acquainted :: "('z) crates_scheme \<Rightarrow> meeting \<Rightarrow> bool" where
  "acquainted X M \<longleftrightarrow> honest X (M\<lparr>mt_sender_pin := None, mt_receiver_pin := None,
     mt_sender_wrong := [], mt_receiver_wrong := []\<rparr>)"

lemma acquaintedD:
  assumes "acquainted X M"
  shows "json_law X" "b64_law X" "reliable (mt_sender M)" "reliable (mt_receiver M)"
    "sign_law (mt_key M)" "sign_law (mt_peer_key M)"
    "key_expected (mt_peer_key M) (mt_expecting M)" "key_expected (mt_key M) (mt_peer_expecting M)"
    "validate_nonce (generate_nonce (en_nonce (mt_sender M)))"
    "validate_nonce (generate_nonce (en_nonce (mt_receiver M)))"
    "\<exists>t u. generate_token_nonce X (mt_key M) (generate_nonce (en_nonce (mt_sender M)) @ generate_nonce (en_nonce (mt_receiver M))) = Inr t
       \<and> generate_token_nonce X (mt_peer_key M) (generate_nonce (en_nonce (mt_sender M)) @ generate_nonce (en_nonce (mt_receiver M))) = Inr u"
  using assms by (simp_all add: acquainted_def honest_def meeting_nonce_def)

definition guessing_receiver_pin :: "('z) crates_scheme \<Rightarrow> bytes \<Rightarrow> bytes \<Rightarrow> string \<Rightarrow> string
    \<Rightarrow> string list \<Rightarrow> string \<Rightarrow> dialogue" where
  "guessing_receiver_pin X n m t u ws w =
     nonces X n m @ tokens_shown X t (TokPinRequired u)
     @ pin_tries X SenderSide (receiving_text X PrPinRequired) ws w @ receiving_text X PrTooManyAttempts"

lemma sender_gives_up:
  assumes X: "json_law X" "b64_law X" and E: "reliable E"
    and keys: "sign_law peer_key" "key_expected peer_key expecting"
    and nonce: "validate_nonce m"
    and made: "generate_token_nonce X key (generate_nonce (en_nonce E) @ m) = Inr t"
      "generate_token_nonce X peer_key (generate_nonce (en_nonce E) @ m) = Inr u"
    and guesses: "guesses E cfg [] ws w"
  shows "breaks_off SenderSide [] (send_task E X P True key expecting pin files sending)
    (guessing_receiver_pin X (generate_nonce (en_nonce E)) m t u ws w) (replicate (unat (pc_max_tries cfg)) PinAsked)"
proof -
  let ?n = "generate_nonce (en_nonce E)" and ?gave_up = "replicate (unat (pc_max_tries cfg)) PinAsked"
  have response: "converses SenderSide v (receive_token_response X)
      [(ReceiverSide, text_msg (to_text X enc_token_response (TokPinRequired u)))] (TokPinRequired u) v" for v
    using hear_token_response [OF X(1), of SenderSide v] by simp
  have check: "check_receiver_token X expecting (TokPinRequired u) (?n @ m) = ret u"
    using token_passes(2) [OF X(2) keys made(2), of "Some cfg"] by (simp add: token_answer_def)
  have guess: "breaks_off SenderSide [] (answer_challenge E X (TokPinRequired u))
      (pin_tries X SenderSide (receiving_text X PrPinRequired) ws w @ receiving_text X PrTooManyAttempts) ?gave_up"
  proof -
    have enters: "user_enters E [] (ws @ [w])" and len: "Suc (length ws) = unat (pc_max_tries cfg)"
      using guesses by (simp_all add: guesses_def)
    have "breaks_off SenderSide [] (handle_pin E X False (parse_pin_receiving X))
        (pin_tries X SenderSide (receiving_text X PrPinRequired) ws w @ receiving_text X PrTooManyAttempts)
        ([] @ replicate (Suc (length ws)) PinAsked)"
      by (rule handle_pin_breaks [OF E enters hears_text _ _ hears_text])
        (simp_all add: parse_receiving_text [OF X(1)] receiving_text_def)
    then show ?thesis
      unfolding len by (simp add: answer_challenge_def)
  qed
  have "breaks_off SenderSide [] (sender_handshake E X key expecting pin)
      (nonces X ?n m @ [(SenderSide, text_msg (to_text X enc_token_request \<lparr>tq_token = t\<rparr>))]
       @ [(ReceiverSide, text_msg (to_text X enc_token_response (TokPinRequired u)))] @ []
       @ pin_tries X SenderSide (receiving_text X PrPinRequired) ws w @ receiving_text X PrTooManyAttempts) ?gave_up"
    unfolding sender_handshake_def
    by (rule breaks_then breaks_bind sender_nonce_converses send_token_converses response X E nonce made
          breaks_first_then guess | simp only: check | rule converse_ret | intro triple_intro)+
  then have "breaks_off SenderSide [] (send_task E X P True key expecting pin files sending)
      ([] @ guessing_receiver_pin X ?n m t u ws w) ?gave_up"
    unfolding send_task_def if_False not_True_eq_False
    by (intro breaks_then [OF converse_wait] breaks_first) (simp_all add: guessing_receiver_pin_def tokens_shown_def,
        (intro triple_intro)+)
  then show ?thesis by simp
qed

lemma receiver_locks_out:
  assumes X: "json_law X" "b64_law X" and F: "reliable F" "\<And>tr. en_cut F tr = None"
    and keys: "sign_law peer_key" "key_expected peer_key expecting"
    and nonce: "validate_nonce n"
    and made: "generate_token_nonce X peer_key (n @ generate_nonce (en_nonce F)) = Inr t"
      "generate_token_nonce X key (n @ generate_nonce (en_nonce F)) = Inr u"
    and guesses: "guesses E cfg v ws w"
  shows "breaks_off ReceiverSide [] (receive_task F X key expecting (Some cfg))
    (guessing_receiver_pin X n (generate_nonce (en_nonce F)) t u ws w) []"
proof -
  let ?m = "generate_nonce (en_nonce F)"
  have token: "converses ReceiverSide v (receive_token X)
      [(SenderSide, text_msg (to_text X enc_token_request \<lparr>tq_token = t\<rparr>))] t v" for v
    using hear_token [OF X(1), of ReceiverSide v] by simp
  have answer: "converses ReceiverSide v (answer_token F X key (Some cfg) (n @ ?m))
      [(ReceiverSide, text_msg (to_text X enc_token_response (TokPinRequired u)))] () v" for v
    using answer_token_converses [OF F(1) made(2), of ReceiverSide v "Some cfg"] by (simp add: token_answer_def)
  have check: "check_sender_token F X expecting t (n @ ?m) = ret ()"
    by (rule token_passes(1) [OF X(2) keys made(1)])
  have "breaks_off ReceiverSide [] (verify_pin F X cfg False (receiving_notice F X))
      ((if False then receiving_text X PrPinRequired else [])
       @ pin_tries X (other ReceiverSide) (receiving_text X PrPinRequired) ws w
       @ receiving_text X PrTooManyAttempts) []"
    using F(1) by (intro verify_pin_breaks [OF X(1) F guesses] triple_intro)
      (simp_all add: converse receiving_text_def)
  then have challenge: "breaks_off ReceiverSide [] (challenge_sender F X (Some cfg))
      (pin_tries X SenderSide (receiving_text X PrPinRequired) ws w @ receiving_text X PrTooManyAttempts) []"
    unfolding challenge_sender_def option.case by (intro breaks_first_then) (simp_all, intro triple_intro)
  have "breaks_off ReceiverSide [] (receiver_handshake F X key expecting (Some cfg))
      (nonces X n ?m @ [(SenderSide, text_msg (to_text X enc_token_request \<lparr>tq_token = t\<rparr>))] @ []
       @ [(ReceiverSide, text_msg (to_text X enc_token_response (TokPinRequired u)))]
       @ pin_tries X SenderSide (receiving_text X PrPinRequired) ws w @ receiving_text X PrTooManyAttempts) []"
    unfolding receiver_handshake_def
    by (rule breaks_then breaks_bind receiver_nonce_converses token answer X F(1) nonce
          breaks_first_then challenge | simp only: check | rule converse_ret | intro triple_intro)+
  then show ?thesis
    unfolding receive_task_def
    by (intro breaks_first) (simp_all add: guessing_receiver_pin_def tokens_shown_def, (intro triple_intro)+)
qed

section \<open>The receiver's user guesses\<close>

text \<open>The sender asks for a PIN after its own user has shown the receiver's.\<close>

definition guessing_sender_pin :: "('z) crates_scheme \<Rightarrow> bytes \<Rightarrow> bytes \<Rightarrow> string \<Rightarrow> string
    \<Rightarrow> pin_config option \<Rightarrow> string list \<Rightarrow> string list \<Rightarrow> string \<Rightarrow> dialogue" where
  "guessing_sender_pin X n m t u receiver_pin sender_wrong ws w =
     nonces X n m @ tokens_shown X t (token_answer receiver_pin u) @ sender_shows_pin X receiver_pin sender_wrong
     @ sender_frame X PsPinRequired @ pin_tries X ReceiverSide (sender_frame X PsPinRequired) ws w
     @ sender_frame X PsTooManyAttempts"

lemma sender_locks_out:
  assumes X: "json_law X" "b64_law X" and E: "reliable E" "\<And>tr. en_cut E tr = None"
    and keys: "sign_law peer_key" "key_expected peer_key expecting"
    and nonce: "validate_nonce m"
    and made: "generate_token_nonce X key (generate_nonce (en_nonce E) @ m) = Inr t"
      "generate_token_nonce X peer_key (generate_nonce (en_nonce E) @ m) = Inr u"
    and pin: "knows_pin E receiver_pin sender_wrong" and guesses: "guesses F cfg v ws w"
  shows "breaks_off SenderSide [] (send_task E X P True key expecting (Some cfg) files sending)
    (guessing_sender_pin X (generate_nonce (en_nonce E)) m t u receiver_pin sender_wrong ws w)
    (asked receiver_pin sender_wrong)"
proof -
  let ?n = "generate_nonce (en_nonce E)" and ?seen = "asked receiver_pin sender_wrong"
  let ?d = "sender_frame X PsPinRequired @ pin_tries X ReceiverSide (sender_frame X PsPinRequired) ws w
     @ sender_frame X PsTooManyAttempts"
  have response: "converses SenderSide v (receive_token_response X)
      [(ReceiverSide, text_msg (to_text X enc_token_response (token_answer receiver_pin u)))]
      (token_answer receiver_pin u) v" for v
    using hear_token_response [OF X(1), of SenderSide v] by simp
  have "breaks_off SenderSide ?seen (verify_pin E X cfg True (sending_notice E X))
      ((if True then sender_frame X PsPinRequired else [])
       @ pin_tries X (other SenderSide) (sender_frame X PsPinRequired) ws w @ sender_frame X PsTooManyAttempts) ?seen"
    using E(1) by (intro verify_pin_breaks [OF X(1) E guesses] triple_intro)
      (simp_all add: converse sender_frame_def)
  then have challenge: "breaks_off SenderSide ?seen (thenP (challenge_receiver E X (Some cfg)) (ret q)) ?d ?seen" for q
    by (intro breaks_first_then keeps_ret) (simp add: challenge_receiver_def)
  have "breaks_off SenderSide [] (sender_handshake E X key expecting (Some cfg))
      (nonces X ?n m @ [(SenderSide, text_msg (to_text X enc_token_request \<lparr>tq_token = t\<rparr>))]
       @ [(ReceiverSide, text_msg (to_text X enc_token_response (token_answer receiver_pin u)))]
       @ [] @ sender_shows_pin X receiver_pin sender_wrong @ ?d) ?seen"
    unfolding sender_handshake_def
    by (rule challenge breaks_then breaks_bind sender_nonce_converses send_token_converses response
          answer_challenge_converses X E(1) nonce made pin
        | simp only: token_passes(2) [OF X(2) keys made(2)] | rule converse_ret | intro triple_intro)+
  then have "breaks_off SenderSide [] (send_task E X P True key expecting (Some cfg) files sending)
      ([] @ guessing_sender_pin X ?n m t u receiver_pin sender_wrong ws w) ?seen"
    unfolding send_task_def if_False not_True_eq_False
    by (intro breaks_then [OF converse_wait] breaks_first) (simp_all add: guessing_sender_pin_def tokens_shown_def,
        (intro triple_intro)+)
  then show ?thesis by simp
qed

lemma receiver_gives_up:
  assumes X: "json_law X" "b64_law X" and F: "reliable F"
    and keys: "sign_law peer_key" "key_expected peer_key expecting"
    and nonce: "validate_nonce n"
    and made: "generate_token_nonce X peer_key (n @ generate_nonce (en_nonce F)) = Inr t"
      "generate_token_nonce X key (n @ generate_nonce (en_nonce F)) = Inr u"
    and pin: "knows_pin E receiver_pin sender_wrong" and guesses: "guesses F cfg [] ws w"
  shows "breaks_off ReceiverSide [] (receive_task F X key expecting receiver_pin)
    (guessing_sender_pin X n (generate_nonce (en_nonce F)) t u receiver_pin sender_wrong ws w)
    (replicate (unat (pc_max_tries cfg)) PinAsked)"
proof -
  let ?m = "generate_nonce (en_nonce F)" and ?gave_up = "replicate (unat (pc_max_tries cfg)) PinAsked"
  let ?str = "\<lambda>r. as_bytes (to_text X enc_pin_sending r)"
  let ?tries = "pin_tries X ReceiverSide (sender_frame X PsPinRequired) ws w @ sender_frame X PsTooManyAttempts"
  have token: "converses ReceiverSide v (receive_token X)
      [(SenderSide, text_msg (to_text X enc_token_request \<lparr>tq_token = t\<rparr>))] t v" for v
    using hear_token [OF X(1), of ReceiverSide v] by simp
  have parse: "from_slice X dec_pin_sending (?str r) = Some r" for r
    by (rule from_slice_to_text [OF X(1) pin_sending_codec.json_codec_axioms])
  have hear: "converses ReceiverSide v receive_string_from_chunks (sender_frame X r) (?str r) v" for r v
    using converse_receive_string [of ReceiverSide v "?str r"] by (simp add: sender_frame_def)
  have enters: "user_enters F [] (ws @ [w])" and len: "Suc (length ws) = unat (pc_max_tries cfg)"
    using guesses by (simp_all add: guesses_def)
  have "breaks_off ReceiverSide [] (handle_pin F X True (parse_pin_sending X)) ?tries
      ([] @ replicate (Suc (length ws)) PinAsked)"
    by (rule handle_pin_breaks [OF F enters hears_frame _ _ hears_frame])
      (simp_all add: parse_pin_sending_def parse sender_frame_def)
  then have guess: "breaks_off ReceiverSide [] (handle_pin F X True (parse_pin_sending X)) ?tries ?gave_up"
    unfolding len by simp
  have asks: "breaks_off ReceiverSide [] (receive_file_list F X) (sender_frame X PsPinRequired @ ?tries) ?gave_up"
    unfolding receive_file_list_def
    by (rule breaks_bind [OF hear]) (simp add: parse expect_def guess, intro triple_intro)
  have "breaks_off ReceiverSide [] (receiver_handshake F X key expecting receiver_pin)
      (nonces X n ?m @ [(SenderSide, text_msg (to_text X enc_token_request \<lparr>tq_token = t\<rparr>))] @ []
       @ [(ReceiverSide, text_msg (to_text X enc_token_response (token_answer receiver_pin u)))]
       @ sender_shows_pin X receiver_pin sender_wrong @ sender_frame X PsPinRequired @ ?tries) ?gave_up"
    unfolding receiver_handshake_def
    by (rule breaks_then breaks_bind receiver_nonce_converses token answer_token_converses
          challenge_sender_converses [where E = E] asks X F nonce made pin
        | simp only: token_passes(1) [OF X(2) keys made(1)] | rule converse_ret | intro triple_intro)+
  then show ?thesis
    unfolding receive_task_def
    by (intro breaks_first) (simp_all add: guessing_sender_pin_def tokens_shown_def, (intro triple_intro)+)
qed

section \<open>Both tasks\<close>

text \<open>
  C10. Guessing the receiver's PIN ends the transfer: if the user of the sending side enters as many
  wrong PINs as the receiver allows, there is a dialogue of the two tasks in which the user is asked
  exactly that often, both tasks tell their app \<open>TooManyAttempts\<close> as the last thing they do and fail with the
  error for it, and up to then the receiver's user has not been shown anything: no file list is
  published and no file opened.
\<close>

theorem guessing_receiver_pin_fails:
  assumes "acquainted X M" and "mt_receiver_pin M = Some cfg" and "guesses (mt_sender M) cfg [] ws w"
    and "\<And>tr. en_cut (mt_receiver M) tr = None"
  shows "\<exists>d. breaks_off SenderSide [] (sending_task X P M files sending) d (replicate (unat (pc_max_tries cfg)) PinAsked)
    \<and> breaks_off ReceiverSide [] (receiving_task X M) d []"
proof -
  note h = acquaintedD [OF assms(1)]
  from h(11) obtain t u where made:
      "generate_token_nonce X (mt_key M) (generate_nonce (en_nonce (mt_sender M)) @ generate_nonce (en_nonce (mt_receiver M))) = Inr t"
      "generate_token_nonce X (mt_peer_key M) (generate_nonce (en_nonce (mt_sender M)) @ generate_nonce (en_nonce (mt_receiver M))) = Inr u"
    by blast
  show ?thesis
    unfolding sending_task_def receiving_task_def assms(2)
    using sender_gives_up [OF h(1-3,6,7,10) made assms(3)]
      receiver_locks_out [OF h(1,2,4) assms(4) h(5,8,9) made assms(3)] by blast
qed

text \<open>
  The same for the sender's PIN: after the sender's user has shown the receiver's PIN, if there is one,
  a user of the receiving side who enters as many wrong PINs as the sender allows makes both tasks fail
  in one dialogue; that user has been asked exactly that often and shown no file list.
\<close>

theorem guessing_sender_pin_fails:
  assumes "acquainted X M" and "knows_pin (mt_sender M) (mt_receiver_pin M) (mt_sender_wrong M)"
    and "mt_sender_pin M = Some cfg" and "guesses (mt_receiver M) cfg [] ws w"
    and "\<And>tr. en_cut (mt_sender M) tr = None"
  shows "\<exists>d. breaks_off SenderSide [] (sending_task X P M files sending) d (asked (mt_receiver_pin M) (mt_sender_wrong M))
    \<and> breaks_off ReceiverSide [] (receiving_task X M) d (replicate (unat (pc_max_tries cfg)) PinAsked)"
proof -
  note h = acquaintedD [OF assms(1)]
  from h(11) obtain t u where made:
      "generate_token_nonce X (mt_key M) (generate_nonce (en_nonce (mt_sender M)) @ generate_nonce (en_nonce (mt_receiver M))) = Inr t"
      "generate_token_nonce X (mt_peer_key M) (generate_nonce (en_nonce (mt_sender M)) @ generate_nonce (en_nonce (mt_receiver M))) = Inr u"
    by blast
  show ?thesis
    unfolding sending_task_def receiving_task_def assms(3)
    using sender_locks_out [OF h(1-3) assms(5) h(6,7,10) made assms(2,4)]
      receiver_gives_up [OF h(1,2,4,5,8,9) made assms(2,4)] by blast
qed

text \<open>Both sides ask for a PIN and allow three attempts; the users only guess.\<close>

definition guessing_meeting :: meeting where
  "guessing_meeting = (sample_meeting None)\<lparr>mt_sender := calm_env\<lparr>en_pin := enters [''1'', ''2'', ''3'']\<rparr>,
     mt_receiver := calm_env\<lparr>en_pin := enters [''1'', ''2'', ''3'']\<rparr>\<rparr>"

lemma guessing_meeting_acquainted:
  "acquainted sample_crates guessing_meeting"
  "acquainted sample_crates (guessing_meeting\<lparr>mt_receiver_pin := None, mt_sender_wrong := []\<rparr>)"
  using sample_meeting_honest [of None] calm_reliable
  by (simp_all add: acquainted_def honest_def guessing_meeting_def sample_meeting_def meeting_nonce_def
      knows_pin_def reliable_def)

lemma three_tries: "replicate (unat (pc_max_tries \<lparr>pc_pin = p, pc_max_tries = 3\<rparr>)) PinAsked = [PinAsked, PinAsked, PinAsked]"
  by code_simp

lemma sample_guesses:
  "mt_receiver_pin guessing_meeting = Some \<lparr>pc_pin = ''123'', pc_max_tries = 3\<rparr>"
  "mt_sender_pin guessing_meeting = Some \<lparr>pc_pin = ''456'', pc_max_tries = 3\<rparr>"
  "guesses (mt_sender guessing_meeting) \<lparr>pc_pin = ''123'', pc_max_tries = 3\<rparr> [] [''1'', ''2''] ''3''"
  "guesses (mt_receiver guessing_meeting) \<lparr>pc_pin = ''456'', pc_max_tries = 3\<rparr> [] [''1'', ''2''] ''3''"
  "en_cut (mt_sender guessing_meeting) tr = None" "en_cut (mt_receiver guessing_meeting) tr = None"
  by (simp_all add: guesses_def user_enters_def enters_user guessing_meeting_def sample_meeting_def calm_env_def)

lemma guessing_receiver_pin_fails_witness:
  "\<exists>d. breaks_off SenderSide [] (sending_task sample_crates sample_parsers guessing_meeting [] []) d
      [PinAsked, PinAsked, PinAsked]
    \<and> breaks_off ReceiverSide [] (receiving_task sample_crates guessing_meeting) d []"
  using guessing_receiver_pin_fails [OF guessing_meeting_acquainted(1) sample_guesses(1,3,6), of sample_parsers "[]" "[]"]
  unfolding three_tries .

lemma guessing_sender_pin_fails_witness:
  "\<exists>d. breaks_off SenderSide [] (sending_task sample_crates sample_parsers
        (guessing_meeting\<lparr>mt_receiver_pin := None, mt_sender_wrong := []\<rparr>) [] []) d []
    \<and> breaks_off ReceiverSide [] (receiving_task sample_crates
        (guessing_meeting\<lparr>mt_receiver_pin := None, mt_sender_wrong := []\<rparr>)) d [PinAsked, PinAsked, PinAsked]"
  using guessing_sender_pin_fails [OF guessing_meeting_acquainted(2), of "\<lparr>pc_pin = ''456'', pc_max_tries = 3\<rparr>"
      "[''1'', ''2'']" "''3''" sample_parsers "[]" "[]"]
  by (simp add: sample_guesses knows_pin_def asked_def three_tries del: pin_config.select_convs)

end
