(* ===== verification/Http_Dto.thy ===== *)
theory Http_Dto
  imports Core_Model
begin

text \<open>
  The JSON bodies of the HTTP protocol, \<open>core/src/http/dto.rs\<close> (version 3) and
  \<open>core/src/http/dto_v2.rs\<close> (version 2), each with its codec contract, and the conversions
  between the versions. Fields marked \<open>default\<close> may be missing; \<open>skip_serializing_if =
  "is_default"\<close> leaves a \<open>false\<close> out.
\<close>

definition skip_default :: "string \<Rightarrow> bool \<Rightarrow> (string \<times> json) list" where
  "skip_default n b = (if b then [(n, JBool b)] else [])"

section \<open>Protocols\<close>

datatype protocol_type = Http | Https

datatype protocol_type_v2 = HttpV2 | HttpsV2

fun protocol_as_str :: "protocol_type \<Rightarrow> string" where
  "protocol_as_str Http = ''http''"
| "protocol_as_str Https = ''https''"

fun protocol_v2_as_str :: "protocol_type_v2 \<Rightarrow> string" where
  "protocol_v2_as_str HttpV2 = ''http''"
| "protocol_v2_as_str HttpsV2 = ''https''"

fun protocol_to_v2 :: "protocol_type \<Rightarrow> protocol_type_v2" where
  "protocol_to_v2 Http = HttpV2"
| "protocol_to_v2 Https = HttpsV2"

fun enc_protocol :: "protocol_type \<Rightarrow> json" where
  "enc_protocol Http = JStr ''HTTP''"
| "enc_protocol Https = JStr ''HTTPS''"

definition dec_protocol :: "json \<Rightarrow> protocol_type option" where
  "dec_protocol j = (case unit_variant j of None \<Rightarrow> None | Some s \<Rightarrow>
     if s = ''HTTP'' then Some Http else if s = ''HTTPS'' then Some Https else None)"

fun enc_protocol_v2 :: "protocol_type_v2 \<Rightarrow> json" where
  "enc_protocol_v2 HttpV2 = JStr ''http''"
| "enc_protocol_v2 HttpsV2 = JStr ''https''"

definition dec_protocol_v2 :: "json \<Rightarrow> protocol_type_v2 option" where
  "dec_protocol_v2 j = (case unit_variant j of None \<Rightarrow> None | Some s \<Rightarrow>
     if s = ''http'' then Some HttpV2 else if s = ''https'' then Some HttpsV2 else None)"

interpretation protocol_codec: json_codec enc_protocol dec_protocol
proof unfold_locales
  show "dec_protocol (enc_protocol p) = Some p" and "enc_protocol p \<noteq> JNull"
    and "json_plain (enc_protocol p)" for p
    by (cases p; simp add: dec_protocol_def)+
qed

interpretation protocol_v2_codec: json_codec enc_protocol_v2 dec_protocol_v2
proof unfold_locales
  show "dec_protocol_v2 (enc_protocol_v2 p) = Some p" and "enc_protocol_v2 p \<noteq> JNull"
    and "json_plain (enc_protocol_v2 p)" for p
    by (cases p; simp add: dec_protocol_v2_def)+
qed

section \<open>Version 3\<close>

record nonce_request =
  nq_nonce :: string

definition enc_nonce_request :: "nonce_request \<Rightarrow> json" where
  "enc_nonce_request r = JObj (
     [(''nonce'', JStr (nq_nonce r))])"

definition dec_nonce_request :: "json \<Rightarrow> nonce_request option" where
  "dec_nonce_request j =
     (case get_fields [(''nonce'', False)] j of
        Some [a] \<Rightarrow>
          (case (req_field dec_str a) of
             (Some a') \<Rightarrow> Some \<lparr>nq_nonce = a'\<rparr>
           | _ \<Rightarrow> None)
      | _ \<Rightarrow> None)"

interpretation nonce_request_codec: json_codec enc_nonce_request dec_nonce_request
proof unfold_locales
  show "dec_nonce_request (enc_nonce_request r) = Some r" for r
    by (simp_all add: enc_nonce_request_def dec_nonce_request_def skip_default_def codec_simps )
  show "enc_nonce_request r \<noteq> JNull" and "json_plain (enc_nonce_request r)" for r
    by (simp_all add: enc_nonce_request_def skip_default_def codec_simps  split: option.split)
qed

record nonce_response =
  np_nonce :: string

definition enc_nonce_response :: "nonce_response \<Rightarrow> json" where
  "enc_nonce_response r = JObj (
     [(''nonce'', JStr (np_nonce r))])"

definition dec_nonce_response :: "json \<Rightarrow> nonce_response option" where
  "dec_nonce_response j =
     (case get_fields [(''nonce'', False)] j of
        Some [a] \<Rightarrow>
          (case (req_field dec_str a) of
             (Some a') \<Rightarrow> Some \<lparr>np_nonce = a'\<rparr>
           | _ \<Rightarrow> None)
      | _ \<Rightarrow> None)"

interpretation nonce_response_codec: json_codec enc_nonce_response dec_nonce_response
proof unfold_locales
  show "dec_nonce_response (enc_nonce_response r) = Some r" for r
    by (simp_all add: enc_nonce_response_def dec_nonce_response_def skip_default_def codec_simps )
  show "enc_nonce_response r \<noteq> JNull" and "json_plain (enc_nonce_response r)" for r
    by (simp_all add: enc_nonce_response_def skip_default_def codec_simps  split: option.split)
qed

record error_response =
  er_message :: string

definition enc_error_response :: "error_response \<Rightarrow> json" where
  "enc_error_response r = JObj (
     [(''message'', JStr (er_message r))])"

definition dec_error_response :: "json \<Rightarrow> error_response option" where
  "dec_error_response j =
     (case get_fields [(''message'', False)] j of
        Some [a] \<Rightarrow>
          (case (req_field dec_str a) of
             (Some a') \<Rightarrow> Some \<lparr>er_message = a'\<rparr>
           | _ \<Rightarrow> None)
      | _ \<Rightarrow> None)"

interpretation error_response_codec: json_codec enc_error_response dec_error_response
proof unfold_locales
  show "dec_error_response (enc_error_response r) = Some r" for r
    by (simp_all add: enc_error_response_def dec_error_response_def skip_default_def codec_simps )
  show "enc_error_response r \<noteq> JNull" and "json_plain (enc_error_response r)" for r
    by (simp_all add: enc_error_response_def skip_default_def codec_simps  split: option.split)
qed

record register_dto =
  rd_alias :: string
  rd_version :: string
  rd_device_model :: "string option"
  rd_device_type :: "device_type option"
  rd_token :: string
  rd_port :: u16
  rd_protocol :: protocol_type
  rd_has_web_interface :: bool

definition enc_register_dto :: "register_dto \<Rightarrow> json" where
  "enc_register_dto r = JObj (
     [(''alias'', JStr (rd_alias r)), (''version'', JStr (rd_version r))] @
     opt_entry ''deviceModel'' JStr (rd_device_model r) @
     opt_entry ''deviceType'' enc_device_type (rd_device_type r) @
     [(''token'', JStr (rd_token r)), (''port'', enc_word (rd_port r)), (''protocol'', enc_protocol (rd_protocol r))] @
     skip_default ''hasWebInterface'' (rd_has_web_interface r))"

definition dec_register_dto :: "json \<Rightarrow> register_dto option" where
  "dec_register_dto j =
     (case get_fields [(''alias'', False), (''version'', False), (''deviceModel'', False), (''deviceType'',
         False), (''token'', False), (''port'', False), (''protocol'', False),
         (''hasWebInterface'', True)] j of
        Some [a, b, c, d, e, f, g, h] \<Rightarrow>
          (case (req_field dec_str a, req_field dec_str b, opt_field dec_str c, opt_field
                 dec_device_type d, req_field dec_str e, req_field dec_word f, req_field
                 dec_protocol g, def_field False dec_bool h) of
             (Some a', Some b', Some c', Some d', Some e', Some f', Some g', Some h') \<Rightarrow> Some \<lparr>rd_alias = a', rd_version = b', rd_device_model = c', rd_device_type = d',
                 rd_token = e', rd_port = f', rd_protocol = g', rd_has_web_interface = h'\<rparr>
           | _ \<Rightarrow> None)
      | _ \<Rightarrow> None)"

interpretation register_dto_codec: json_codec enc_register_dto dec_register_dto
proof unfold_locales
  show "dec_register_dto (enc_register_dto r) = Some r" for r
    by (cases "rd_device_model r"; cases "rd_device_type r") (simp_all add: enc_register_dto_def dec_register_dto_def skip_default_def codec_simps device_type_codec.roundtrip device_type_codec.not_null device_type_codec.plain
        protocol_codec.roundtrip protocol_codec.plain)
  show "enc_register_dto r \<noteq> JNull" and "json_plain (enc_register_dto r)" for r
    by (simp_all add: enc_register_dto_def skip_default_def codec_simps device_type_codec.roundtrip device_type_codec.not_null device_type_codec.plain
        protocol_codec.roundtrip protocol_codec.plain split: option.split)
qed

record register_response_dto =
  rr_alias :: string
  rr_version :: string
  rr_device_model :: "string option"
  rr_device_type :: "device_type option"
  rr_token :: string
  rr_has_web_interface :: bool

definition enc_register_response_dto :: "register_response_dto \<Rightarrow> json" where
  "enc_register_response_dto r = JObj (
     [(''alias'', JStr (rr_alias r)), (''version'', JStr (rr_version r))] @
     opt_entry ''deviceModel'' JStr (rr_device_model r) @
     opt_entry ''deviceType'' enc_device_type (rr_device_type r) @
     [(''token'', JStr (rr_token r))] @
     skip_default ''hasWebInterface'' (rr_has_web_interface r))"

definition dec_register_response_dto :: "json \<Rightarrow> register_response_dto option" where
  "dec_register_response_dto j =
     (case get_fields [(''alias'', False), (''version'', False), (''deviceModel'', False), (''deviceType'',
         False), (''token'', False), (''hasWebInterface'', True)] j of
        Some [a, b, c, d, e, f] \<Rightarrow>
          (case (req_field dec_str a, req_field dec_str b, opt_field dec_str c, opt_field
                 dec_device_type d, req_field dec_str e, def_field False dec_bool f) of
             (Some a', Some b', Some c', Some d', Some e', Some f') \<Rightarrow> Some \<lparr>rr_alias = a', rr_version = b', rr_device_model = c', rr_device_type = d',
                 rr_token = e', rr_has_web_interface = f'\<rparr>
           | _ \<Rightarrow> None)
      | _ \<Rightarrow> None)"

interpretation register_response_dto_codec: json_codec enc_register_response_dto dec_register_response_dto
proof unfold_locales
  show "dec_register_response_dto (enc_register_response_dto r) = Some r" for r
    by (cases "rr_device_model r"; cases "rr_device_type r") (simp_all add: enc_register_response_dto_def dec_register_response_dto_def skip_default_def codec_simps device_type_codec.roundtrip device_type_codec.not_null device_type_codec.plain)
  show "enc_register_response_dto r \<noteq> JNull" and "json_plain (enc_register_response_dto r)" for r
    by (simp_all add: enc_register_response_dto_def skip_default_def codec_simps device_type_codec.roundtrip device_type_codec.not_null device_type_codec.plain split: option.split)
qed

section \<open>Version 2\<close>

record multicast_message_v2 =
  mm_alias :: string
  mm_version :: string
  mm_device_model :: "string option"
  mm_device_type :: "device_type option"
  mm_fingerprint :: string
  mm_port :: u16
  mm_protocol :: protocol_type_v2
  mm_download :: bool
  mm_announce :: bool

definition enc_multicast_message_v2 :: "multicast_message_v2 \<Rightarrow> json" where
  "enc_multicast_message_v2 r = JObj (
     [(''alias'', JStr (mm_alias r)), (''version'', JStr (mm_version r))] @
     opt_entry ''deviceModel'' JStr (mm_device_model r) @
     opt_entry ''deviceType'' enc_device_type (mm_device_type r) @
     [(''fingerprint'', JStr (mm_fingerprint r)), (''port'', enc_word (mm_port r)), (''protocol'', enc_protocol_v2 (mm_protocol r)), (''download'', JBool (mm_download r)), (''announce'', JBool (mm_announce r))])"

definition dec_multicast_message_v2 :: "json \<Rightarrow> multicast_message_v2 option" where
  "dec_multicast_message_v2 j =
     (case get_fields [(''alias'', False), (''version'', False), (''deviceModel'', False), (''deviceType'',
         False), (''fingerprint'', False), (''port'', False), (''protocol'', False),
         (''download'', True), (''announce'', False)] j of
        Some [a, b, c, d, e, f, g, h, i] \<Rightarrow>
          (case (req_field dec_str a, req_field dec_str b, opt_field dec_str c, opt_field
                 dec_device_type d, req_field dec_str e, req_field dec_word f, req_field
                 dec_protocol_v2 g, def_field False dec_bool h, req_field dec_bool i) of
             (Some a', Some b', Some c', Some d', Some e', Some f', Some g', Some h', Some i') \<Rightarrow> Some \<lparr>mm_alias = a', mm_version = b', mm_device_model = c', mm_device_type = d',
                 mm_fingerprint = e', mm_port = f', mm_protocol = g', mm_download = h',
                 mm_announce = i'\<rparr>
           | _ \<Rightarrow> None)
      | _ \<Rightarrow> None)"

interpretation multicast_message_v2_codec: json_codec enc_multicast_message_v2 dec_multicast_message_v2
proof unfold_locales
  show "dec_multicast_message_v2 (enc_multicast_message_v2 r) = Some r" for r
    by (cases "mm_device_model r"; cases "mm_device_type r") (simp_all add: enc_multicast_message_v2_def dec_multicast_message_v2_def skip_default_def codec_simps device_type_codec.roundtrip device_type_codec.not_null device_type_codec.plain
        protocol_v2_codec.roundtrip protocol_v2_codec.plain)
  show "enc_multicast_message_v2 r \<noteq> JNull" and "json_plain (enc_multicast_message_v2 r)" for r
    by (simp_all add: enc_multicast_message_v2_def skip_default_def codec_simps device_type_codec.roundtrip device_type_codec.not_null device_type_codec.plain
        protocol_v2_codec.roundtrip protocol_v2_codec.plain split: option.split)
qed

record register_dto_v2 =
  rd2_alias :: string
  rd2_version :: string
  rd2_device_model :: "string option"
  rd2_device_type :: "device_type option"
  rd2_fingerprint :: string
  rd2_port :: u16
  rd2_protocol :: protocol_type_v2
  rd2_download :: bool

definition enc_register_dto_v2 :: "register_dto_v2 \<Rightarrow> json" where
  "enc_register_dto_v2 r = JObj (
     [(''alias'', JStr (rd2_alias r)), (''version'', JStr (rd2_version r))] @
     opt_entry ''deviceModel'' JStr (rd2_device_model r) @
     opt_entry ''deviceType'' enc_device_type (rd2_device_type r) @
     [(''fingerprint'', JStr (rd2_fingerprint r)), (''port'', enc_word (rd2_port r)), (''protocol'', enc_protocol_v2 (rd2_protocol r)), (''download'', JBool (rd2_download r))])"

definition dec_register_dto_v2 :: "json \<Rightarrow> register_dto_v2 option" where
  "dec_register_dto_v2 j =
     (case get_fields [(''alias'', False), (''version'', False), (''deviceModel'', False), (''deviceType'',
         False), (''fingerprint'', False), (''port'', False), (''protocol'', False),
         (''download'', True)] j of
        Some [a, b, c, d, e, f, g, h] \<Rightarrow>
          (case (req_field dec_str a, req_field dec_str b, opt_field dec_str c, opt_field
                 dec_device_type d, req_field dec_str e, req_field dec_word f, req_field
                 dec_protocol_v2 g, def_field False dec_bool h) of
             (Some a', Some b', Some c', Some d', Some e', Some f', Some g', Some h') \<Rightarrow> Some \<lparr>rd2_alias = a', rd2_version = b', rd2_device_model = c', rd2_device_type = d',
                 rd2_fingerprint = e', rd2_port = f', rd2_protocol = g', rd2_download = h'\<rparr>
           | _ \<Rightarrow> None)
      | _ \<Rightarrow> None)"

interpretation register_dto_v2_codec: json_codec enc_register_dto_v2 dec_register_dto_v2
proof unfold_locales
  show "dec_register_dto_v2 (enc_register_dto_v2 r) = Some r" for r
    by (cases "rd2_device_model r"; cases "rd2_device_type r") (simp_all add: enc_register_dto_v2_def dec_register_dto_v2_def skip_default_def codec_simps device_type_codec.roundtrip device_type_codec.not_null device_type_codec.plain
        protocol_v2_codec.roundtrip protocol_v2_codec.plain)
  show "enc_register_dto_v2 r \<noteq> JNull" and "json_plain (enc_register_dto_v2 r)" for r
    by (simp_all add: enc_register_dto_v2_def skip_default_def codec_simps device_type_codec.roundtrip device_type_codec.not_null device_type_codec.plain
        protocol_v2_codec.roundtrip protocol_v2_codec.plain split: option.split)
qed

record register_response_dto_v2 =
  rr2_alias :: string
  rr2_version :: string
  rr2_device_model :: "string option"
  rr2_device_type :: "device_type option"
  rr2_fingerprint :: string
  rr2_download :: bool

definition enc_register_response_dto_v2 :: "register_response_dto_v2 \<Rightarrow> json" where
  "enc_register_response_dto_v2 r = JObj (
     [(''alias'', JStr (rr2_alias r)), (''version'', JStr (rr2_version r))] @
     opt_entry ''deviceModel'' JStr (rr2_device_model r) @
     opt_entry ''deviceType'' enc_device_type (rr2_device_type r) @
     [(''fingerprint'', JStr (rr2_fingerprint r)), (''download'', JBool (rr2_download r))])"

definition dec_register_response_dto_v2 :: "json \<Rightarrow> register_response_dto_v2 option" where
  "dec_register_response_dto_v2 j =
     (case get_fields [(''alias'', False), (''version'', False), (''deviceModel'', False), (''deviceType'',
         False), (''fingerprint'', True), (''download'', True)] j of
        Some [a, b, c, d, e, f] \<Rightarrow>
          (case (req_field dec_str a, req_field dec_str b, opt_field dec_str c, opt_field
                 dec_device_type d, def_field [] dec_str e, def_field False dec_bool f) of
             (Some a', Some b', Some c', Some d', Some e', Some f') \<Rightarrow> Some \<lparr>rr2_alias = a', rr2_version = b', rr2_device_model = c', rr2_device_type = d',
                 rr2_fingerprint = e', rr2_download = f'\<rparr>
           | _ \<Rightarrow> None)
      | _ \<Rightarrow> None)"

interpretation register_response_dto_v2_codec: json_codec enc_register_response_dto_v2 dec_register_response_dto_v2
proof unfold_locales
  show "dec_register_response_dto_v2 (enc_register_response_dto_v2 r) = Some r" for r
    by (cases "rr2_device_model r"; cases "rr2_device_type r") (simp_all add: enc_register_response_dto_v2_def dec_register_response_dto_v2_def skip_default_def codec_simps device_type_codec.roundtrip device_type_codec.not_null device_type_codec.plain)
  show "enc_register_response_dto_v2 r \<noteq> JNull" and "json_plain (enc_register_response_dto_v2 r)" for r
    by (simp_all add: enc_register_response_dto_v2_def skip_default_def codec_simps device_type_codec.roundtrip device_type_codec.not_null device_type_codec.plain split: option.split)
qed

record info_response_dto_v2 =
  ir2_alias :: string
  ir2_version :: string
  ir2_device_model :: "string option"
  ir2_device_type :: "device_type option"
  ir2_fingerprint :: string
  ir2_download :: bool

definition enc_info_response_dto_v2 :: "info_response_dto_v2 \<Rightarrow> json" where
  "enc_info_response_dto_v2 r = JObj (
     [(''alias'', JStr (ir2_alias r)), (''version'', JStr (ir2_version r))] @
     opt_entry ''deviceModel'' JStr (ir2_device_model r) @
     opt_entry ''deviceType'' enc_device_type (ir2_device_type r) @
     [(''fingerprint'', JStr (ir2_fingerprint r)), (''download'', JBool (ir2_download r))])"

definition dec_info_response_dto_v2 :: "json \<Rightarrow> info_response_dto_v2 option" where
  "dec_info_response_dto_v2 j =
     (case get_fields [(''alias'', False), (''version'', False), (''deviceModel'', False), (''deviceType'',
         False), (''fingerprint'', False), (''download'', True)] j of
        Some [a, b, c, d, e, f] \<Rightarrow>
          (case (req_field dec_str a, req_field dec_str b, opt_field dec_str c, opt_field
                 dec_device_type d, req_field dec_str e, def_field False dec_bool f) of
             (Some a', Some b', Some c', Some d', Some e', Some f') \<Rightarrow> Some \<lparr>ir2_alias = a', ir2_version = b', ir2_device_model = c', ir2_device_type = d',
                 ir2_fingerprint = e', ir2_download = f'\<rparr>
           | _ \<Rightarrow> None)
      | _ \<Rightarrow> None)"

interpretation info_response_dto_v2_codec: json_codec enc_info_response_dto_v2 dec_info_response_dto_v2
proof unfold_locales
  show "dec_info_response_dto_v2 (enc_info_response_dto_v2 r) = Some r" for r
    by (cases "ir2_device_model r"; cases "ir2_device_type r") (simp_all add: enc_info_response_dto_v2_def dec_info_response_dto_v2_def skip_default_def codec_simps device_type_codec.roundtrip device_type_codec.not_null device_type_codec.plain)
  show "enc_info_response_dto_v2 r \<noteq> JNull" and "json_plain (enc_info_response_dto_v2 r)" for r
    by (simp_all add: enc_info_response_dto_v2_def skip_default_def codec_simps device_type_codec.roundtrip device_type_codec.not_null device_type_codec.plain split: option.split)
qed

section \<open>Transfers\<close>

text \<open>A \<open>HashMap\<close> has no duplicate keys, so these round trips are stated for well-formed maps.\<close>

record prepare_upload_request_dto =
  pu_info :: register_dto
  pu_files :: "(string, file_dto) hmap"

definition enc_prepare_upload_request_dto :: "prepare_upload_request_dto \<Rightarrow> json" where
  "enc_prepare_upload_request_dto r = JObj (
     [(''info'', enc_register_dto (pu_info r)), (''files'', enc_map enc_file_dto (pu_files r))])"

definition dec_prepare_upload_request_dto :: "json \<Rightarrow> prepare_upload_request_dto option" where
  "dec_prepare_upload_request_dto j =
     (case get_fields [(''info'', False), (''files'', False)] j of
        Some [a, b] \<Rightarrow>
          (case (req_field dec_register_dto a, req_field (dec_map dec_file_dto) b) of
             (Some a', Some b') \<Rightarrow> Some \<lparr>pu_info = a', pu_files = b'\<rparr>
           | _ \<Rightarrow> None)
      | _ \<Rightarrow> None)"

lemma prepare_upload_request_dto_roundtrip: "hm_wf (pu_files r) \<Longrightarrow> dec_prepare_upload_request_dto (enc_prepare_upload_request_dto r) = Some r"
  by (simp add: enc_prepare_upload_request_dto_def dec_prepare_upload_request_dto_def file_dto_codec.dec_map_enc file_dto_codec.plain_map
      register_dto_codec.roundtrip register_dto_codec.plain)

lemma prepare_upload_request_dto_plain: "json_plain (enc_prepare_upload_request_dto r)"
  by (simp add: enc_prepare_upload_request_dto_def file_dto_codec.dec_map_enc file_dto_codec.plain_map
      register_dto_codec.roundtrip register_dto_codec.plain)

record prepare_upload_response_dto =
  ps_session_id :: string
  ps_files :: "(string, string) hmap"

definition enc_prepare_upload_response_dto :: "prepare_upload_response_dto \<Rightarrow> json" where
  "enc_prepare_upload_response_dto r = JObj (
     [(''sessionId'', JStr (ps_session_id r)), (''files'', enc_map JStr (ps_files r))])"

definition dec_prepare_upload_response_dto :: "json \<Rightarrow> prepare_upload_response_dto option" where
  "dec_prepare_upload_response_dto j =
     (case get_fields [(''sessionId'', False), (''files'', False)] j of
        Some [a, b] \<Rightarrow>
          (case (req_field dec_str a, req_field (dec_map dec_str) b) of
             (Some a', Some b') \<Rightarrow> Some \<lparr>ps_session_id = a', ps_files = b'\<rparr>
           | _ \<Rightarrow> None)
      | _ \<Rightarrow> None)"

lemma prepare_upload_response_dto_roundtrip: "hm_wf (ps_files r) \<Longrightarrow> dec_prepare_upload_response_dto (enc_prepare_upload_response_dto r) = Some r"
  by (simp add: enc_prepare_upload_response_dto_def dec_prepare_upload_response_dto_def str_codec.dec_map_enc str_codec.plain_map)

lemma prepare_upload_response_dto_plain: "json_plain (enc_prepare_upload_response_dto r)"
  by (simp add: enc_prepare_upload_response_dto_def str_codec.dec_map_enc str_codec.plain_map)

record prepare_upload_request_dto_v2 =
  pu2_info :: register_dto_v2
  pu2_files :: "(string, file_dto) hmap"

definition enc_prepare_upload_request_dto_v2 :: "prepare_upload_request_dto_v2 \<Rightarrow> json" where
  "enc_prepare_upload_request_dto_v2 r = JObj (
     [(''info'', enc_register_dto_v2 (pu2_info r)), (''files'', enc_map enc_file_dto (pu2_files r))])"

definition dec_prepare_upload_request_dto_v2 :: "json \<Rightarrow> prepare_upload_request_dto_v2 option" where
  "dec_prepare_upload_request_dto_v2 j =
     (case get_fields [(''info'', False), (''files'', False)] j of
        Some [a, b] \<Rightarrow>
          (case (req_field dec_register_dto_v2 a, req_field (dec_map dec_file_dto) b) of
             (Some a', Some b') \<Rightarrow> Some \<lparr>pu2_info = a', pu2_files = b'\<rparr>
           | _ \<Rightarrow> None)
      | _ \<Rightarrow> None)"

lemma prepare_upload_request_dto_v2_roundtrip: "hm_wf (pu2_files r) \<Longrightarrow> dec_prepare_upload_request_dto_v2 (enc_prepare_upload_request_dto_v2 r) = Some r"
  by (simp add: enc_prepare_upload_request_dto_v2_def dec_prepare_upload_request_dto_v2_def file_dto_codec.dec_map_enc file_dto_codec.plain_map
      register_dto_v2_codec.roundtrip register_dto_v2_codec.plain)

lemma prepare_upload_request_dto_v2_plain: "json_plain (enc_prepare_upload_request_dto_v2 r)"
  by (simp add: enc_prepare_upload_request_dto_v2_def file_dto_codec.dec_map_enc file_dto_codec.plain_map
      register_dto_v2_codec.roundtrip register_dto_v2_codec.plain)

record prepare_upload_response_dto_v2 =
  ps2_session_id :: string
  ps2_files :: "(string, string) hmap"

definition enc_prepare_upload_response_dto_v2 :: "prepare_upload_response_dto_v2 \<Rightarrow> json" where
  "enc_prepare_upload_response_dto_v2 r = JObj (
     [(''sessionId'', JStr (ps2_session_id r)), (''files'', enc_map JStr (ps2_files r))])"

definition dec_prepare_upload_response_dto_v2 :: "json \<Rightarrow> prepare_upload_response_dto_v2 option" where
  "dec_prepare_upload_response_dto_v2 j =
     (case get_fields [(''sessionId'', False), (''files'', False)] j of
        Some [a, b] \<Rightarrow>
          (case (req_field dec_str a, req_field (dec_map dec_str) b) of
             (Some a', Some b') \<Rightarrow> Some \<lparr>ps2_session_id = a', ps2_files = b'\<rparr>
           | _ \<Rightarrow> None)
      | _ \<Rightarrow> None)"

lemma prepare_upload_response_dto_v2_roundtrip: "hm_wf (ps2_files r) \<Longrightarrow> dec_prepare_upload_response_dto_v2 (enc_prepare_upload_response_dto_v2 r) = Some r"
  by (simp add: enc_prepare_upload_response_dto_v2_def dec_prepare_upload_response_dto_v2_def str_codec.dec_map_enc str_codec.plain_map)

lemma prepare_upload_response_dto_v2_plain: "json_plain (enc_prepare_upload_response_dto_v2 r)"
  by (simp add: enc_prepare_upload_response_dto_v2_def str_codec.dec_map_enc str_codec.plain_map)

record prepare_download_response_dto_v2 =
  pd2_info :: info_response_dto_v2
  pd2_session_id :: string
  pd2_files :: "(string, file_dto) hmap"

definition enc_prepare_download_response_dto_v2 :: "prepare_download_response_dto_v2 \<Rightarrow> json" where
  "enc_prepare_download_response_dto_v2 r = JObj (
     [(''info'', enc_info_response_dto_v2 (pd2_info r)), (''sessionId'', JStr (pd2_session_id r)), (''files'', enc_map enc_file_dto (pd2_files r))])"

definition dec_prepare_download_response_dto_v2 :: "json \<Rightarrow> prepare_download_response_dto_v2 option" where
  "dec_prepare_download_response_dto_v2 j =
     (case get_fields [(''info'', False), (''sessionId'', False), (''files'', False)] j of
        Some [a, b, c] \<Rightarrow>
          (case (req_field dec_info_response_dto_v2 a, req_field dec_str b, req_field (dec_map
                 dec_file_dto) c) of
             (Some a', Some b', Some c') \<Rightarrow> Some \<lparr>pd2_info = a', pd2_session_id = b', pd2_files = c'\<rparr>
           | _ \<Rightarrow> None)
      | _ \<Rightarrow> None)"

lemma prepare_download_response_dto_v2_roundtrip: "hm_wf (pd2_files r) \<Longrightarrow> dec_prepare_download_response_dto_v2 (enc_prepare_download_response_dto_v2 r) = Some r"
  by (simp add: enc_prepare_download_response_dto_v2_def dec_prepare_download_response_dto_v2_def file_dto_codec.dec_map_enc file_dto_codec.plain_map
      info_response_dto_v2_codec.roundtrip info_response_dto_v2_codec.plain)

lemma prepare_download_response_dto_v2_plain: "json_plain (enc_prepare_download_response_dto_v2 r)"
  by (simp add: enc_prepare_download_response_dto_v2_def file_dto_codec.dec_map_enc file_dto_codec.plain_map
      info_response_dto_v2_codec.roundtrip info_response_dto_v2_codec.plain)

record prepare_upload_result =
  pr_status_code :: u16
  pr_response :: "prepare_upload_response_dto option"

record prepare_upload_result_v2 =
  pr2_status_code :: u16
  pr2_response :: "prepare_upload_response_dto_v2 option"

section \<open>Conversions\<close>

definition register_to_v2 :: "register_dto \<Rightarrow> register_dto_v2" where
  "register_to_v2 r = \<lparr>rd2_alias = rd_alias r, rd2_version = rd_version r,
     rd2_device_model = rd_device_model r, rd2_device_type = rd_device_type r,
     rd2_fingerprint = rd_token r, rd2_port = rd_port r,
     rd2_protocol = protocol_to_v2 (rd_protocol r), rd2_download = rd_has_web_interface r\<rparr>"

definition prepare_upload_request_to_v2 ::
    "prepare_upload_request_dto \<Rightarrow> prepare_upload_request_dto_v2" where
  "prepare_upload_request_to_v2 r = \<lparr>pu2_info = register_to_v2 (pu_info r), pu2_files = pu_files r\<rparr>"

definition prepare_upload_response_from_v2 ::
    "prepare_upload_response_dto_v2 \<Rightarrow> prepare_upload_response_dto" where
  "prepare_upload_response_from_v2 r = \<lparr>ps_session_id = ps2_session_id r, ps_files = ps2_files r\<rparr>"

definition prepare_upload_result_from_v2 :: "prepare_upload_result_v2 \<Rightarrow> prepare_upload_result" where
  "prepare_upload_result_from_v2 r = \<lparr>pr_status_code = pr2_status_code r,
     pr_response = map_option prepare_upload_response_from_v2 (pr2_response r)\<rparr>"

definition register_response_from_v2 :: "register_response_dto_v2 \<Rightarrow> register_response_dto" where
  "register_response_from_v2 r = \<lparr>rr_alias = rr2_alias r, rr_version = rr2_version r,
     rr_device_model = rr2_device_model r, rr_device_type = rr2_device_type r,
     rr_token = rr2_fingerprint r, rr_has_web_interface = rr2_download r\<rparr>"

lemma register_v2_rejected: "dec_register_dto (enc_register_dto_v2 r) = None"
  by (cases "rd2_device_model r"; cases "rd2_device_type r")
    (simp_all add: enc_register_dto_v2_def dec_register_dto_def split: option.split)

lemma upload_v2_not_registration: "dec_register_dto (enc_prepare_upload_request_dto_v2 r) = None"
  by (simp add: enc_prepare_upload_request_dto_v2_def dec_register_dto_def split: option.split)

text \<open>
  The two protocol versions do not understand each other's registration: no version 2
  registration is accepted by the version 3 decoder (its key \<open>token\<close> is called \<open>fingerprint\<close>
  there), nor the other way round, although the conversion keeps every piece of information:
  the version 2 form of a registration determines it.
\<close>

theorem register_versions:
  "dec_register_dto (enc_register_dto_v2 r) = None \<and> dec_register_dto_v2 (enc_register_dto q) = None
   \<and> (register_to_v2 p = register_to_v2 q \<longleftrightarrow> p = q)"
proof (intro conjI)
  show "dec_register_dto (enc_register_dto_v2 r) = None"
    by (rule register_v2_rejected)
  show "dec_register_dto_v2 (enc_register_dto q) = None"
    by (cases "rd_device_model q"; cases "rd_device_type q")
      (simp_all add: enc_register_dto_def dec_register_dto_v2_def skip_default_def split: option.split)
  have "protocol_to_v2 x = protocol_to_v2 y \<longleftrightarrow> x = y" for x y
    by (cases x; cases y) simp_all
  then show "register_to_v2 p = register_to_v2 q \<longleftrightarrow> p = q"
    by (cases p; cases q) (auto simp: register_to_v2_def)
qed

text \<open>
  The upload bodies survive their transport: for maps without duplicate keys (every hash
  map) each of the four bodies is decoded from its encoding unchanged, and so is what the
  version 3 side makes of a version 2 answer.
\<close>

theorem upload_bodies_roundtrip:
  assumes "hm_wf (pu_files q)" and "hm_wf (ps2_files a)"
  shows "dec_prepare_upload_request_dto (enc_prepare_upload_request_dto q) = Some q
    \<and> dec_prepare_upload_request_dto_v2
        (enc_prepare_upload_request_dto_v2 (prepare_upload_request_to_v2 q))
      = Some (prepare_upload_request_to_v2 q)
    \<and> dec_prepare_upload_response_dto_v2 (enc_prepare_upload_response_dto_v2 a) = Some a
    \<and> dec_prepare_upload_response_dto
        (enc_prepare_upload_response_dto (prepare_upload_response_from_v2 a))
      = Some (prepare_upload_response_from_v2 a)"
  using assms
  by (simp add: prepare_upload_request_dto_roundtrip prepare_upload_request_dto_v2_roundtrip
      prepare_upload_response_dto_v2_roundtrip prepare_upload_response_dto_roundtrip
      prepare_upload_request_to_v2_def prepare_upload_response_from_v2_def)

definition sample_register :: register_dto where
  "sample_register = \<lparr>rd_alias = ''a'', rd_version = ''2.1'', rd_device_model = None,
     rd_device_type = Some Desktop, rd_token = ''t'', rd_port = 53317, rd_protocol = Https,
     rd_has_web_interface = False\<rparr>"

lemma upload_bodies_roundtrip_witness:
  "dec_prepare_upload_request_dto (enc_prepare_upload_request_dto
     \<lparr>pu_info = sample_register, pu_files = []\<rparr>) = Some \<lparr>pu_info = sample_register, pu_files = []\<rparr>"
  using upload_bodies_roundtrip [of "\<lparr>pu_info = sample_register, pu_files = []\<rparr>"
    "\<lparr>ps2_session_id = ''s'', ps2_files = [(''f'', ''t'')]\<rparr>"]
  by (simp add: hm_wf_def)

end
