(* ===== verification/Http_Url.thy ===== *)
theory Http_Url
  imports Http_Dto
begin

text \<open>
  The request targets of the HTTP clients, \<open>core/src/http/client/url.rs\<close>, with the conditions
  under which the printed URL determines the target it was printed from.
\<close>

datatype api_version = ApiV2 | ApiV3

fun api_version_str :: "api_version \<Rightarrow> string" where
  "api_version_str ApiV2 = ''v2''"
| "api_version_str ApiV3 = ''v3''"

record target_url =
  tu_version :: api_version
  tu_protocol :: string
  tu_host :: string
  tu_port :: u16
  tu_path :: string
  tu_params :: "(string \<times> string) list"

definition host_part :: "string \<Rightarrow> string" where
  "host_part host = (if CHR '':'' \<in> set host then ''['' @ host @ '']'' else host)"

definition query_part :: "(string \<times> string) list \<Rightarrow> string" where
  "query_part params =
     (if params = [] then []
      else ''?'' @ join_with ''&'' (map (\<lambda>(k, v). k @ ''='' @ v) params))"

definition api_path :: "target_url \<Rightarrow> string" where
  "api_path u = ''/api/localsend/'' @ api_version_str (tu_version u) @ tu_path u"

definition url_to_string :: "target_url \<Rightarrow> string" where
  "url_to_string u =
     tu_protocol u @ ''://'' @ host_part (tu_host u) @ '':'' @ show_dec (unat (tu_port u))
       @ api_path u @ query_part (tu_params u)"

section \<open>Reading a URL back\<close>

text \<open>
  Encoded parameters: no separator in a value, no separator in a key. The host has none of the
  characters that end it, and a path has no query.
\<close>

definition encoded_params :: "(string \<times> string) list \<Rightarrow> bool" where
  "encoded_params ps \<longleftrightarrow> (\<forall>(k, v) \<in> set ps.
     CHR ''='' \<notin> set k \<and> CHR ''&'' \<notin> set k \<and> CHR ''&'' \<notin> set v)"

definition url_wf :: "target_url \<Rightarrow> bool" where
  "url_wf u \<longleftrightarrow> CHR '':'' \<notin> set (tu_protocol u)
     \<and> CHR ''/'' \<notin> set (tu_host u) \<and> CHR ''['' \<notin> set (tu_host u) \<and> CHR '']'' \<notin> set (tu_host u)
     \<and> CHR ''?'' \<notin> set (tu_path u) \<and> encoded_params (tu_params u)"

definition before :: "char \<Rightarrow> string \<Rightarrow> string" where
  "before c s = takeWhile (\<lambda>x. x \<noteq> c) s"

definition after :: "char \<Rightarrow> string \<Rightarrow> string" where
  "after c s = tl (dropWhile (\<lambda>x. x \<noteq> c) s)"

lemma before_after [simp]:
  "c \<notin> set a \<Longrightarrow> before c (a @ c # b) = a"
  "c \<notin> set a \<Longrightarrow> after c (a @ c # b) = b"
  "c \<notin> set a \<Longrightarrow> before c a = a"
  by (induction a) (auto simp: before_def after_def)

lemma same_split:
  fixes c :: char
  assumes "a @ c # b = a' @ c # b'" and "c \<notin> set a" and "c \<notin> set a'"
  shows "a = a' \<and> b = b'"
proof -
  have "before c (a @ c # b) = a" and "after c (a @ c # b) = b"
    using assms(2) by simp_all
  moreover have "before c (a @ c # b) = a'" and "after c (a @ c # b) = b'"
    using assms(1,3) by simp_all
  ultimately show ?thesis by simp
qed

lemma radix_char_no_url_sep: "is_radix_char c \<Longrightarrow> c \<noteq> CHR ''/'' \<and> c \<noteq> CHR '']''"
proof -
  have "\<forall>d \<in> set [0..<16]. digit_char d \<noteq> CHR ''/'' \<and> digit_char d \<noteq> CHR '']''"
    by code_simp
  then show "is_radix_char c \<Longrightarrow> ?thesis"
    by (auto simp: is_radix_char_def)
qed

lemma show_dec_no_slash [simp]: "CHR ''/'' \<notin> set (show_dec n)"
  by (auto dest!: set_show_radix [rotated 2] dest: radix_char_no_url_sep)

lemma authority_inject:
  assumes eq: "host_part h @ '':'' @ p = host_part h' @ '':'' @ p'"
    and brackets: "CHR ''['' \<notin> set h" "CHR '']'' \<notin> set h" "CHR ''['' \<notin> set h'" "CHR '']'' \<notin> set h'"
  shows "h = h' \<and> p = p'"
proof -
  consider (v6) "CHR '':'' \<in> set h" "CHR '':'' \<in> set h'"
    | (name) "CHR '':'' \<notin> set h" "CHR '':'' \<notin> set h'"
    | (mixed) "(CHR '':'' \<in> set h) = (CHR '':'' \<notin> set h')"
    by blast
  then show ?thesis
  proof cases
    case v6
    with eq have "h @ CHR '']'' # '':'' @ p = h' @ CHR '']'' # '':'' @ p'"
      by (simp add: host_part_def)
    with brackets show ?thesis by (auto dest: same_split)
  next
    case name
    with eq have "h @ CHR '':'' # p = h' @ CHR '':'' # p'"
      by (simp add: host_part_def)
    with name show ?thesis by (auto dest: same_split)
  next
    case mixed
    then have "hd (host_part h @ '':'' @ p) \<noteq> hd (host_part h' @ '':'' @ p')"
      using brackets by (cases h; cases h') (auto simp: host_part_def split: if_splits)
    with eq show ?thesis by simp
  qed
qed

lemma pairs_inject:
  assumes "map (\<lambda>(k, v). k @ ''='' @ v) ps = map (\<lambda>(k, v). k @ ''='' @ v) qs"
    and "encoded_params ps" and "encoded_params qs"
  shows "ps = qs"
  using assms
proof (induction ps qs rule: list_induct2')
  case (4 p ps q qs)
  obtain k v k' v' where "p = (k, v)" "q = (k', v')" by fastforce
  with 4 show ?case
    by (auto simp: encoded_params_def dest: same_split)
qed simp_all

lemma query_inject:
  assumes "query_part ps = query_part qs" and "encoded_params ps" and "encoded_params qs"
  shows "ps = qs"
proof (cases "ps = [] \<or> qs = []")
  case True
  with assms(1) show ?thesis by (auto simp: query_part_def split: if_splits)
next
  case False
  let ?f = "\<lambda>ps. map (\<lambda>(k, v). k @ ''='' @ v) (ps :: (string \<times> string) list)"
  have pieces: "split_on CHR ''&'' (join_with ''&'' (?f xs)) = ?f xs"
    if "xs \<noteq> []" "encoded_params xs" for xs
    using that by (intro split_on_join) (auto simp: encoded_params_def)
  from False assms(1) have "join_with ''&'' (?f ps) = join_with ''&'' (?f qs)"
    by (simp add: query_part_def)
  with False assms pieces have "?f ps = ?f qs" by metis
  with assms show ?thesis by (simp add: pairs_inject)
qed

lemma path_query_inject:
  assumes "p @ query_part ps = q @ query_part qs" and "CHR ''?'' \<notin> set p" "CHR ''?'' \<notin> set q"
  shows "p = q \<and> query_part ps = query_part qs"
proof -
  have "before CHR ''?'' (r @ query_part rs) = r" if "CHR ''?'' \<notin> set r" for r rs
    using that by (simp add: query_part_def)
  with assms have "p = q" by metis
  with assms show ?thesis by simp
qed

lemma url_shape:
  "url_to_string u = tu_protocol u @ CHR '':'' # ''//'' @
     (host_part (tu_host u) @ '':'' @ show_dec (unat (tu_port u))) @ CHR ''/'' #
     ''api/localsend/'' @ api_version_str (tu_version u) @ tu_path u @ query_part (tu_params u)"
  by (simp add: url_to_string_def api_path_def)

lemma url_inject:
  assumes eq: "url_to_string u = url_to_string w" and "url_wf u" and "url_wf w"
  shows "u = w"
proof -
  let ?a = "\<lambda>u. host_part (tu_host u) @ '':'' @ show_dec (unat (tu_port u))"
  let ?r = "\<lambda>u. tu_path u @ query_part (tu_params u)"
  let ?v = "\<lambda>u. api_version_str (tu_version u)"
  have proto: "tu_protocol u = tu_protocol w" and
    rest: "?a u @ CHR ''/'' # ''api/localsend/'' @ ?v u @ ?r u
         = ?a w @ CHR ''/'' # ''api/localsend/'' @ ?v w @ ?r w"
    using same_split [OF eq [unfolded url_shape]] assms(2,3) by (simp_all add: url_wf_def)
  have no_slash: "CHR ''/'' \<notin> set (?a x)" if "url_wf x" for x
    using that by (simp add: url_wf_def host_part_def)
  have authority: "?a u = ?a w" and tail: "?v u @ ?r u = ?v w @ ?r w"
    using same_split [OF rest no_slash no_slash] assms(2,3) by simp_all
  have host: "tu_host u = tu_host w" and "show_dec (unat (tu_port u)) = show_dec (unat (tu_port w))"
    using authority_inject [OF authority] assms(2,3) by (simp_all add: url_wf_def)
  then have port: "tu_port u = tu_port w" by (simp add: show_radix_inject word_unat_eq_iff)
  from tail have version: "tu_version u = tu_version w" and "?r u = ?r w"
    by (cases "tu_version u"; cases "tu_version w"; simp)+
  with assms(2,3) have path: "tu_path u = tu_path w" and "tu_params u = tu_params w"
    by (auto simp: url_wf_def dest: path_query_inject query_inject)
  with proto host port version show ?thesis by simp
qed

section \<open>What a URL says\<close>

text \<open>
  A request URL determines its target: two targets whose parts hold no separator print alike
  only when protocol, host, port, version, path and every parameter agree (an IPv6 host, being
  bracketed, cannot be confused with a port). The condition on the parameters is needed and is
  left to the caller: a value that holds an unencoded ampersand prints as two parameters.
\<close>

lemma url_determines_target:
  assumes "url_wf u" and "url_wf w"
  shows "(url_to_string u = url_to_string w \<longleftrightarrow> u = w)
    \<and> url_to_string (u\<lparr>tu_params := [(''pin'', v @ ''&'' @ k @ ''='' @ v')]\<rparr>)
      = url_to_string (u\<lparr>tu_params := [(''pin'', v), (k, v')]\<rparr>)"
  using url_inject [OF _ assms] by (auto simp: url_to_string_def query_part_def api_path_def)

end
