(* ===== verification/Unit_Tests.thy ===== *)
theory Unit_Tests
  imports Ip_Group Signaling_Messages Http_Url Rtc_Chunks
begin

text \<open>
  The unit tests the repository has for the code modelled here, stated over the model: each test is
  a definition of what the test asserts, and a lemma that it holds. A JSON text that a test compares
  with is the JSON value it denotes, with its entries in the order of the text; a text the test
  looks for (\<open>contains\<close>) is an entry of the value. The tests on fixed certificates are left out:
  what they test is the X.509 parser.
\<close>

section \<open>server/src/util/ip.rs\<close>

definition test_get_ip_group :: bool where
  "test_get_ip_group \<longleftrightarrow>
     map_option get_ip_group (ip_from_str ''1.2.3.4'') = Some ''1.2.3.4''
   \<and> map_option get_ip_group (ip_from_str ''1:2:3:4:5:6:7:8'') = Some ''1:2:3:4''
   \<and> map_option get_ip_group (ip_from_str ''a:b:c:d:e:f:0:1'') = Some ''a:b:c:d''"

lemma test_get_ip_group_passes: "test_get_ip_group"
  by code_simp

section \<open>core/src/http/client/url.rs\<close>

definition test_url :: "string \<Rightarrow> string \<Rightarrow> string \<Rightarrow> target_url" where
  "test_url protocol host path = \<lparr>tu_version = ApiV2, tu_protocol = protocol, tu_host = host,
     tu_port = 53317, tu_path = path, tu_params = []\<rparr>"

definition test_build_url_ipv4 :: bool where
  "test_build_url_ipv4 \<longleftrightarrow> url_to_string (test_url ''https'' ''192.168.1.1'' ''/register'')
     = ''https://192.168.1.1:53317/api/localsend/v2/register''"

definition test_build_url_ipv6 :: bool where
  "test_build_url_ipv6 \<longleftrightarrow> url_to_string (test_url ''https'' ''::1'' ''/register'')
     = ''https://[::1]:53317/api/localsend/v2/register''"

definition test_build_url_http :: bool where
  "test_build_url_http \<longleftrightarrow> url_to_string (test_url ''http'' ''192.168.1.1'' ''/info'')
     = ''http://192.168.1.1:53317/api/localsend/v2/info''"

lemma show_test_port: "show_dec 53317 = ''53317''"
proof -
  have "map digit_char [5, 3, 3, 1, 7] = ''53317''"
    by code_simp
  then show ?thesis
    by (simp add: show_radix.simps [of 10])
qed

lemma test_build_url_passes: "test_build_url_ipv4" "test_build_url_ipv6" "test_build_url_http"
  by (simp_all add: test_build_url_ipv4_def test_build_url_ipv6_def test_build_url_http_def test_url_def
      url_to_string_def host_part_def api_path_def query_part_def show_test_port)

section \<open>core/src/webrtc/signaling.rs\<close>

text \<open>The description of the peer in the tests; \<open>nil\<close> is the text of the UUID zero.\<close>

definition test_client :: "string option \<Rightarrow> client_info" where
  "test_client model = \<lparr>ci_id = 0, ci_alias = ''Cute Apple'', ci_version = ''2.3'',
     ci_device_model = model, ci_device_type = Some Desktop, ci_token = ''123''\<rparr>"

definition test_uuid_nil :: string where
  "test_uuid_nil = ''00000000-0000-0000-0000-000000000000''"

definition encodes_as :: "('a \<Rightarrow> json) \<Rightarrow> (json \<Rightarrow> 'a option) \<Rightarrow> 'a \<Rightarrow> json \<Rightarrow> bool" where
  "encodes_as enc dec message j \<longleftrightarrow> enc message = j \<and> dec j = Some message"

definition ws_server_hello_message_encoding :: "('z) crates_scheme \<Rightarrow> bool" where
  "ws_server_hello_message_encoding X \<longleftrightarrow>
     encodes_as (enc_ws_server_message X) (dec_ws_server_message X) (Hello (test_client (Some ''Dell'')) [])
       (JObj [(''type'', JStr ''HELLO''),
          (''client'', JObj [(''id'', JStr test_uuid_nil), (''alias'', JStr ''Cute Apple''),
             (''version'', JStr ''2.3''), (''deviceModel'', JStr ''Dell''),
             (''deviceType'', JStr ''DESKTOP''), (''token'', JStr ''123'')]),
          (''peers'', JArr [])])"

definition ws_server_offer_message_encoding :: "('z) crates_scheme \<Rightarrow> bool" where
  "ws_server_offer_message_encoding X \<longleftrightarrow>
     encodes_as (enc_ws_server_message X) (dec_ws_server_message X)
       (Offer \<lparr>ss_peer = test_client None, ss_session_id = ''456'', ss_sdp = ''my-sdp''\<rparr>)
       (JObj [(''type'', JStr ''OFFER''),
          (''peer'', JObj [(''id'', JStr test_uuid_nil), (''alias'', JStr ''Cute Apple''),
             (''version'', JStr ''2.3''), (''deviceType'', JStr ''DESKTOP''), (''token'', JStr ''123'')]),
          (''sessionId'', JStr ''456''), (''sdp'', JStr ''my-sdp'')])"

definition ws_client_update_message_encoding :: "('z) crates_scheme \<Rightarrow> bool" where
  "ws_client_update_message_encoding X \<longleftrightarrow>
     encodes_as (enc_ws_client_message X) (dec_ws_client_message X)
       (CUpdate (without_id (test_client (Some ''Dell''))))
       (JObj [(''type'', JStr ''UPDATE''),
          (''info'', JObj [(''alias'', JStr ''Cute Apple''), (''version'', JStr ''2.3''),
             (''deviceModel'', JStr ''Dell''), (''deviceType'', JStr ''DESKTOP''), (''token'', JStr ''123'')])])"

lemma encodes_as_codec: "json_codec enc dec \<Longrightarrow> encodes_as enc dec m j \<longleftrightarrow> enc m = j"
  by (auto simp: encodes_as_def json_codec.roundtrip)

text \<open>What the tests need of the \<open>uuid\<close> crate, beyond its law, is how it prints the nil UUID.\<close>

lemma signaling_tests_pass:
  assumes "uuid_law X" and "x_uuid_print X 0 = test_uuid_nil"
  shows "ws_server_hello_message_encoding X" "ws_server_offer_message_encoding X"
    "ws_client_update_message_encoding X"
  unfolding ws_server_hello_message_encoding_def ws_server_offer_message_encoding_def
    ws_client_update_message_encoding_def
    encodes_as_codec [OF ws_server_message_codec [OF assms(1)]]
    encodes_as_codec [OF ws_client_message_codec [OF assms(1)]]
  by (simp_all add: enc_client_info_def enc_client_info_without_id_def without_id_def test_client_def enc_uuid_def
      ws_server_sdp_entries_def enc_list_def assms(2))

section \<open>core/src/webrtc/webrtc.rs\<close>

text \<open>The callback that keeps its chunks; the kept ones are the trace of what it does.\<close>

definition test_vec :: bytes where
  "test_vec = replicate chunk_size 0 @ replicate chunk_size 1 @ replicate 5 2"

definition test_process_in_chunks :: bool where
  "test_process_in_chunks \<longleftrightarrow>
     process_in_chunks (0 :: nat) [test_vec] (\<lambda>_ chunk. thenP (emit (SentBinary chunk)) (ret 0))
       \<lparr>rs_rx = [], rs_trace = []\<rparr>
     = (Inr (), \<lparr>rs_rx = [], rs_trace = map SentBinary
         [replicate chunk_size 0, replicate chunk_size 1, replicate 5 2]\<rparr>)"

lemma chunks_of_join: "0 < n \<Longrightarrow> length bs = n \<Longrightarrow> chunks_of n (bs @ cs) = bs # chunks_of n cs"
  by (simp add: chunks_of_full)

lemma test_process_in_chunks_passes: "test_process_in_chunks"
proof -
  have "chunks_of chunk_size test_vec = [replicate chunk_size 0, replicate chunk_size 1, replicate 5 2]"
    by (simp add: test_vec_def chunks_of_join chunks_of_short chunk_size_def)
  then show ?thesis
    by (simp add: test_process_in_chunks_def process_in_chunks_eq prog_simps emit_def)
qed

definition rtc_file_list_response_encoding :: bool where
  "rtc_file_list_response_encoding \<longleftrightarrow>
     encodes_as enc_file_list_response dec_file_list_response (FlPair ''123'')
       (JObj [(''status'', JStr ''PAIR''), (''publicKey'', JStr ''123'')])"

lemma rtc_file_list_response_encoding_passes: "rtc_file_list_response_encoding"
  by code_simp

section \<open>core/src/http/dto_v2.rs\<close>

fun has_entries :: "(string \<times> json) list \<Rightarrow> json \<Rightarrow> bool" where
  "has_entries es (JObj kvs) = list_all (\<lambda>e. e \<in> set kvs) es"
| "has_entries es _ = False"

definition test_multicast_message_serialization :: bool where
  "test_multicast_message_serialization \<longleftrightarrow>
     has_entries [(''alias'', JStr ''Nice Orange''), (''version'', JStr ''2.1''),
         (''fingerprint'', JStr ''random string''), (''announce'', JBool True), (''download'', JBool True),
         (''protocol'', JStr ''https'')]
       (enc_multicast_message_v2 \<lparr>mm_alias = ''Nice Orange'', mm_version = ''2.1'',
          mm_device_model = Some ''Samsung'', mm_device_type = Some Mobile,
          mm_fingerprint = ''random string'', mm_port = 53317, mm_protocol = HttpsV2,
          mm_download = True, mm_announce = True\<rparr>)"

definition test_register_dto_v2_deserialization :: bool where
  "test_register_dto_v2_deserialization \<longleftrightarrow>
     dec_register_dto_v2 (JObj [(''alias'', JStr ''Secret Banana''), (''version'', JStr ''2.0''),
         (''deviceModel'', JStr ''Windows''), (''deviceType'', JStr ''DESKTOP''),
         (''fingerprint'', JStr ''random string''), (''port'', JNum 53317),
         (''protocol'', JStr ''https''), (''download'', JBool True)])
     = Some \<lparr>rd2_alias = ''Secret Banana'', rd2_version = ''2.0'', rd2_device_model = Some ''Windows'',
         rd2_device_type = Some Desktop, rd2_fingerprint = ''random string'', rd2_port = 53317,
         rd2_protocol = HttpsV2, rd2_download = True\<rparr>"

definition test_register_response_without_download_field :: bool where
  "test_register_response_without_download_field \<longleftrightarrow>
     (case dec_register_response_dto_v2 (JObj [(''alias'', JStr ''Test Device''), (''version'', JStr ''2.0''),
         (''fingerprint'', JStr ''abc123'')]) of
        None \<Rightarrow> False
      | Some dto \<Rightarrow> rr2_alias dto = ''Test Device'' \<and> \<not> rr2_download dto)"

text \<open>The fingerprint the test looks for is inside the \<open>info\<close> object.\<close>

fun entry :: "string \<Rightarrow> json \<Rightarrow> json option" where
  "entry k (JObj kvs) = map_of kvs k"
| "entry k _ = None"

definition test_prepare_upload_request_v2 :: bool where
  "test_prepare_upload_request_v2 \<longleftrightarrow>
     (let j = enc_prepare_upload_request_dto_v2
        \<lparr>pu2_info = \<lparr>rd2_alias = ''Sender'', rd2_version = ''2.1'', rd2_device_model = None,
            rd2_device_type = None, rd2_fingerprint = ''sender-fingerprint'', rd2_port = 53317,
            rd2_protocol = HttpsV2, rd2_download = False\<rparr>,
         pu2_files = [(''file1'', \<lparr>fd_id = ''file1'', fd_file_name = ''test.png'', fd_size = 1024,
            fd_file_type = ''image/png'', fd_sha256 = None, fd_preview = None, fd_metadata = None\<rparr>)]\<rparr>
      in entry ''files'' j \<noteq> None
       \<and> Option.bind (entry ''info'' j) (entry ''fingerprint'') = Some (JStr ''sender-fingerprint''))"

lemma dto_v2_tests_pass:
  "test_multicast_message_serialization" "test_register_dto_v2_deserialization"
  "test_register_response_without_download_field" "test_prepare_upload_request_v2"
  by (simp_all add: test_multicast_message_serialization_def enc_multicast_message_v2_def
      test_register_dto_v2_deserialization_def dec_register_dto_v2_def
      test_register_response_without_download_field_def dec_register_response_dto_v2_def
      test_prepare_upload_request_v2_def enc_prepare_upload_request_dto_v2_def enc_register_dto_v2_def
      dec_device_type_def dec_protocol_v2_def)

section \<open>core/src/crypto/token.rs\<close>

definition test_sign_verify :: "signing_token_key \<Rightarrow> bool" where
  "test_sign_verify key \<longleftrightarrow>
     (let data = as_bytes ''hello world''; signature = sk_sign key data
      in vk_verify (to_verifying_key key) data signature = Inr ())"

text \<open>\<open>now\<close> and \<open>later\<close>: what the clock says when the token is made and when it is checked.\<close>

definition test_fingerprint :: "bool \<Rightarrow> ('z) crates_scheme \<Rightarrow> u64 \<Rightarrow> u64 \<Rightarrow> signing_token_key \<Rightarrow> bool" where
  "test_fingerprint overflow_checks X now later key \<longleftrightarrow>
     (case generate_token_timestamp X (Inr now) key of
        Inl _ \<Rightarrow> False
      | Inr fingerprint \<Rightarrow>
          verify_token_timestamp overflow_checks X (Inr later) (to_verifying_key key) fingerprint = Some True)"

lemma token_tests_pass:
  assumes "b64_law X" and "sign_law key" and "ed_to_public_key_der (sk_verifying_key key) = Inr der"
    and "now \<le> later" and "later - now \<le> 60 * 60"
  shows "test_sign_verify key" "test_fingerprint overflow_checks X now later key"
proof -
  show "test_sign_verify key"
    using assms(2) by (simp add: test_sign_verify_def sign_law_def to_verifying_key_def ed25519_as_token_key_def)
  have "\<exists>fingerprint. generate_token_timestamp X (Inr now) key = Inr fingerprint"
    using assms(3) by (simp add: generate_token_timestamp_def generate_token_nonce_def Let_def)
  then show "test_fingerprint overflow_checks X now later key"
    using assms(4,5) timestamp_token_check [OF assms(1,2), of now _ overflow_checks later]
    by (auto simp: test_fingerprint_def not_less)
qed

end
