(* ===== verification/Http_Client.thy ===== *)
theory Http_Client
  imports Http_Url Crypto
begin

text \<open>
  The HTTP clients, \<open>core/src/http/client\<close>: the version 2 and version 3 clients and the
  \<open>LsHttpClient\<close> that chooses between them. \<open>reqwest\<close> is a parameter: a client is the function
  from requests to what \<open>send().await\<close> returns. An operation returns the requests it has sent,
  in order, beside its result, so that what was disclosed before a check can be stated.
\<close>

section \<open>Requests and responses\<close>

datatype http_method = Get | Post | OtherMethod string

text \<open>A streamed body is the sequence of chunks the channel delivers until it is closed.\<close>

datatype http_body = NoBody | TextBody string | StreamBody "bytes list"

record http_request =
  hq_method :: http_method
  hq_url :: string
  hq_headers :: "(string \<times> string) list"
  hq_body :: http_body

text \<open>
  A response as \<open>reqwest\<close> gives it: the TLS information is an extension that may be missing and
  a certificate in it that may be missing; the body is a stream that may fail; \<open>hp_charset\<close> is
  the decoder its headers select.
\<close>

record http_response =
  hp_status :: u16
  hp_tls_info :: "bytes option option"
  hp_remote_ip :: "string option"
  hp_chunks :: "(string + bytes) list"
  hp_charset :: "bytes \<Rightarrow> string"

fun collect_body :: "(string + bytes) list \<Rightarrow> string + bytes" where
  "collect_body [] = Inr []"
| "collect_body (Inl e # cs) = Inl e"
| "collect_body (Inr b # cs) = bind_ok (collect_body cs) (\<lambda>bs. Inr (b @ bs))"

record status_code_error =
  sc_status :: u16
  sc_message :: "string option"

datatype client_error =
    StatusCode status_code_error
  | Reqwest string
  | JsonError string
  | IoError string
  | Other anyhow

type_synonym transport = "http_request \<Rightarrow> string + http_response"

type_synonym 'a call = "http_request list \<times> (client_error + 'a)"

definition send_request :: "transport \<Rightarrow> http_request \<Rightarrow> (http_response \<Rightarrow> client_error + 'a) \<Rightarrow> 'a call" where
  "send_request T q k = ([q], bind_ok (map_err Reqwest (T q)) k)"

section \<open>The shared helpers (client/mod.rs)\<close>

text \<open>\<open>reqwest::Identity::from_pem\<close> and the client builder.\<close>

record 'i reqwest =
  rq_identity_from_pem :: "bytes \<Rightarrow> string + 'i"
  rq_build :: "'i option \<Rightarrow> string + transport"

definition create_reqwest_client :: "'i reqwest \<Rightarrow> string \<Rightarrow> string \<Rightarrow> client_error + transport" where
  "create_reqwest_client R private_key cert =
     (let pem = as_bytes (cert @ [CHR 0x0A] @ private_key) in
      bind_ok (map_err Reqwest (rq_identity_from_pem R pem)) (\<lambda>identity.
        map_err Reqwest (rq_build R (Some identity))))"

definition verify_cert_from_res ::
    "('cert, 'key) x509 \<Rightarrow> http_response \<Rightarrow> string option \<Rightarrow> anyhow + string" where
  "verify_cert_from_res V response public_key =
     bind_ok (ok_or ''TLS info not found'' (hp_tls_info response)) (\<lambda>tls_info_ext.
     bind_ok (ok_or ''Certificate not found'' tls_info_ext) (\<lambda>cert.
     bind_ok (verify_cert_from_der V cert public_key) (\<lambda>_.
       case public_key of
         Some pk \<Rightarrow> Inr pk
       | None \<Rightarrow> public_key_from_cert_der V cert)))"

record 'a result_with_public_key =
  wk_public_key :: "string option"
  wk_body :: 'a

text \<open>\<open>text().await.unwrap_or_default()\<close>, then the message of an error body or the body itself.\<close>

definition into_error :: "('z) crates_scheme \<Rightarrow> http_response \<Rightarrow> client_error + 'a" where
  "into_error X response =
     (let body = (case collect_body (hp_chunks response) of
                    Inl _ \<Rightarrow> [] | Inr bs \<Rightarrow> hp_charset response bs);
          message = (case from_text X dec_error_response body of
                       Some error \<Rightarrow> er_message error | None \<Rightarrow> body)
      in Inl (StatusCode \<lparr>sc_status = hp_status response,
           sc_message = (if message = [] then None else Some message)\<rparr>))"

text \<open>\<open>res.json::<T>().await\<close>: reading and decoding failures are both \<open>reqwest\<close> errors.\<close>

definition response_json ::
    "('z) crates_scheme \<Rightarrow> (json \<Rightarrow> 'a option) \<Rightarrow> http_response \<Rightarrow> client_error + 'a" where
  "response_json X dec response =
     bind_ok (map_err Reqwest (collect_body (hp_chunks response))) (\<lambda>bs.
       ok_or (Reqwest ''error decoding response body'') (from_slice X dec bs))"

definition verify_if_https ::
    "('cert, 'key) x509 \<Rightarrow> protocol_type \<Rightarrow> string option \<Rightarrow> http_response \<Rightarrow> client_error + unit" where
  "verify_if_https V protocol public_key res =
     (if protocol = Https
      then bind_ok (map_err Other (verify_cert_from_res V res public_key)) (\<lambda>_. Inr ())
      else Inr ())"

definition peer_key_if_https ::
    "('cert, 'key) x509 \<Rightarrow> protocol_type \<Rightarrow> http_response \<Rightarrow> client_error + string option" where
  "peer_key_if_https V protocol res =
     (case protocol of
        Https \<Rightarrow> bind_ok (map_err Other (verify_cert_from_res V res None)) (\<lambda>k. Inr (Some k))
      | _ \<Rightarrow> Inr None)"

definition target ::
    "api_version \<Rightarrow> protocol_type \<Rightarrow> string \<Rightarrow> u16 \<Rightarrow> string \<Rightarrow> (string \<times> string) list \<Rightarrow> target_url" where
  "target version protocol ip port path params =
     \<lparr>tu_version = version, tu_protocol = protocol_as_str protocol, tu_host = ip, tu_port = port,
      tu_path = path, tu_params = params\<rparr>"

abbreviation json_header :: "(string \<times> string) list" where
  "json_header \<equiv> [(''Content-Type'', ''application/json'')]"

section \<open>Version 2 (client/v2.rs)\<close>

definition try_new_v2 :: "'i reqwest \<Rightarrow> string \<Rightarrow> string \<Rightarrow> client_error + transport" where
  "try_new_v2 R private_key cert = create_reqwest_client R private_key cert"

definition try_new_without_cert :: "'i reqwest \<Rightarrow> client_error + transport" where
  "try_new_without_cert R = map_err Reqwest (rq_build R None)"

definition register_v2 ::
    "('z) crates_scheme \<Rightarrow> ('cert, 'key) x509 \<Rightarrow> transport \<Rightarrow> protocol_type \<Rightarrow> string \<Rightarrow> u16
      \<Rightarrow> register_dto_v2 \<Rightarrow> register_response_dto_v2 result_with_public_key call" where
  "register_v2 X V T protocol ip port payload =
     (let url = url_to_string (target ApiV2 protocol ip port ''/register'' []) in
      send_request T \<lparr>hq_method = Post, hq_url = url, hq_headers = json_header,
          hq_body = TextBody (to_text X enc_register_dto_v2 payload)\<rparr>
        (\<lambda>res.
           if hp_status res \<noteq> 200 then into_error X res
           else bind_ok (peer_key_if_https V protocol res) (\<lambda>public_key.
                bind_ok (response_json X dec_register_response_dto_v2 res) (\<lambda>body.
                  Inr \<lparr>wk_public_key = public_key, wk_body = body\<rparr>))))"

definition prepare_upload_v2 ::
    "('z) crates_scheme \<Rightarrow> ('cert, 'key) x509 \<Rightarrow> transport \<Rightarrow> protocol_type \<Rightarrow> string \<Rightarrow> u16
      \<Rightarrow> string option \<Rightarrow> prepare_upload_request_dto_v2 \<Rightarrow> string option
      \<Rightarrow> prepare_upload_result_v2 call" where
  "prepare_upload_v2 X V T protocol ip port public_key payload pin =
     (let pin_params = (case pin of Some p \<Rightarrow> [(''pin'', p)] | None \<Rightarrow> []);
          url = url_to_string (target ApiV2 protocol ip port ''/prepare-upload'' pin_params) in
      send_request T \<lparr>hq_method = Post, hq_url = url, hq_headers = json_header,
          hq_body = TextBody (to_text X enc_prepare_upload_request_dto_v2 payload)\<rparr>
        (\<lambda>res.
           bind_ok (verify_if_https V protocol public_key res) (\<lambda>_.
             if 400 \<le> hp_status res then into_error X res
             else if hp_status res = 204
             then Inr \<lparr>pr2_status_code = hp_status res, pr2_response = None\<rparr>
             else bind_ok (response_json X dec_prepare_upload_response_dto_v2 res) (\<lambda>body.
               Inr \<lparr>pr2_status_code = hp_status res, pr2_response = Some body\<rparr>))))"

definition upload_request ::
    "api_version \<Rightarrow> protocol_type \<Rightarrow> string \<Rightarrow> u16 \<Rightarrow> string \<Rightarrow> string \<Rightarrow> string \<Rightarrow> bytes list
      \<Rightarrow> http_request" where
  "upload_request version protocol ip port session_id file_id token binary =
     \<lparr>hq_method = Post,
      hq_url = url_to_string (target version protocol ip port ''/upload''
        [(''sessionId'', session_id), (''fileId'', file_id), (''token'', token)]),
      hq_headers = [], hq_body = StreamBody binary\<rparr>"

definition upload_v2 ::
    "('z) crates_scheme \<Rightarrow> ('cert, 'key) x509 \<Rightarrow> transport \<Rightarrow> protocol_type \<Rightarrow> string \<Rightarrow> u16
      \<Rightarrow> string option \<Rightarrow> string \<Rightarrow> string \<Rightarrow> string \<Rightarrow> bytes list \<Rightarrow> unit call" where
  "upload_v2 X V T protocol ip port public_key session_id file_id token binary =
     send_request T (upload_request ApiV2 protocol ip port session_id file_id token binary)
       (\<lambda>res.
          bind_ok (verify_if_https V protocol public_key res) (\<lambda>_.
            if hp_status res \<noteq> 200 then into_error X res else Inr ()))"

definition cancel_v2 ::
    "transport \<Rightarrow> protocol_type \<Rightarrow> string \<Rightarrow> u16 \<Rightarrow> string \<Rightarrow> unit call" where
  "cancel_v2 T protocol ip port session_id =
     send_request T \<lparr>hq_method = Post,
         hq_url = url_to_string (target ApiV2 protocol ip port ''/cancel'' [(''sessionId'', session_id)]),
         hq_headers = [], hq_body = NoBody\<rparr>
       (\<lambda>_. Inr ())"

definition info_v2 ::
    "('z) crates_scheme \<Rightarrow> transport \<Rightarrow> protocol_type \<Rightarrow> string \<Rightarrow> u16 \<Rightarrow> info_response_dto_v2 call" where
  "info_v2 X T protocol ip port =
     send_request T \<lparr>hq_method = Get,
         hq_url = url_to_string (target ApiV2 protocol ip port ''/info'' []),
         hq_headers = [], hq_body = NoBody\<rparr>
       (\<lambda>res. if hp_status res \<noteq> 200 then into_error X res
              else response_json X dec_info_response_dto_v2 res)"

definition prepare_download_v2 ::
    "('z) crates_scheme \<Rightarrow> transport \<Rightarrow> protocol_type \<Rightarrow> string \<Rightarrow> u16 \<Rightarrow> string option
      \<Rightarrow> string option \<Rightarrow> prepare_download_response_dto_v2 call" where
  "prepare_download_v2 X T protocol ip port session_id pin =
     (let params = (case session_id of Some s \<Rightarrow> [(''sessionId'', s)] | None \<Rightarrow> [])
                 @ (case pin of Some p \<Rightarrow> [(''pin'', p)] | None \<Rightarrow> []) in
      send_request T \<lparr>hq_method = Post,
          hq_url = url_to_string (target ApiV2 protocol ip port ''/prepare-download'' params),
          hq_headers = [], hq_body = NoBody\<rparr>
        (\<lambda>res. if hp_status res \<noteq> 200 then into_error X res
               else response_json X dec_prepare_download_response_dto_v2 res))"

definition download_v2 ::
    "('z) crates_scheme \<Rightarrow> transport \<Rightarrow> protocol_type \<Rightarrow> string \<Rightarrow> u16 \<Rightarrow> string \<Rightarrow> string
      \<Rightarrow> http_response call" where
  "download_v2 X T protocol ip port session_id file_id =
     send_request T \<lparr>hq_method = Get,
         hq_url = url_to_string (target ApiV2 protocol ip port ''/download''
           [(''sessionId'', session_id), (''fileId'', file_id)]),
         hq_headers = [], hq_body = NoBody\<rparr>
       (\<lambda>res. if hp_status res \<noteq> 200 then into_error X res else Inr res)"

text \<open>
  \<open>AsyncWrite\<close> is a parameter; writing may leave a part of the data behind when it fails, so the
  new state of the writer is returned in both cases. The loop of \<open>download_to_writer\<close> runs over
  the chunks of the body; the total is a \<open>u64\<close>.
\<close>

record 'w async_write =
  aw_write_all :: "'w \<Rightarrow> bytes \<Rightarrow> 'w \<times> (string + unit)"
  aw_flush :: "'w \<Rightarrow> 'w \<times> (string + unit)"

fun write_chunks ::
    "('w, 'z) async_write_scheme \<Rightarrow> (string + bytes) list \<Rightarrow> 'w \<Rightarrow> u64 \<Rightarrow> 'w \<times> (client_error + u64)" where
  "write_chunks A [] w total_bytes =
     (case aw_flush A w of
        (w', Inl e) \<Rightarrow> (w', Inl (IoError e))
      | (w', Inr _) \<Rightarrow> (w', Inr total_bytes))"
| "write_chunks A (Inl e # cs) w total_bytes = (w, Inl (Reqwest e))"
| "write_chunks A (Inr chunk # cs) w total_bytes =
     (case aw_write_all A w chunk of
        (w', Inl e) \<Rightarrow> (w', Inl (IoError e))
      | (w', Inr _) \<Rightarrow> write_chunks A cs w' (total_bytes + of_nat (length chunk)))"

definition download_to_writer_v2 ::
    "('z) crates_scheme \<Rightarrow> ('w, 'y) async_write_scheme \<Rightarrow> transport \<Rightarrow> protocol_type \<Rightarrow> string \<Rightarrow> u16
      \<Rightarrow> string \<Rightarrow> string \<Rightarrow> 'w \<Rightarrow> http_request list \<times> 'w \<times> (client_error + u64)" where
  "download_to_writer_v2 X A T protocol ip port session_id file_id writer =
     (case download_v2 X T protocol ip port session_id file_id of
        (sent, Inl e) \<Rightarrow> (sent, writer, Inl e)
      | (sent, Inr response) \<Rightarrow> (sent, write_chunks A (hp_chunks response) writer 0))"

section \<open>Version 3 (client/v3.rs)\<close>

text \<open>
  The crate \<open>lru\<close>: a cache with a bounded number of entries, as the functions of a record. The
  law is what its documentation says of \<open>put\<close>: the key then maps to the new value.
\<close>

record 'c lru_cache =
  lru_new :: "nat \<Rightarrow> 'c"
  lru_put :: "string \<Rightarrow> bytes \<Rightarrow> 'c \<Rightarrow> 'c"
  lru_peek :: "string \<Rightarrow> 'c \<Rightarrow> bytes option"

definition lru_law :: "'c lru_cache \<Rightarrow> bool" where
  "lru_law L \<longleftrightarrow> (\<forall>k v c. lru_peek L k (lru_put L k v c) = Some v)"

record 'c client_v3 =
  c3_client :: transport
  c3_received_nonce_map :: 'c
  c3_generated_nonce_map :: 'c

definition try_new_v3 :: "'i reqwest \<Rightarrow> 'c lru_cache \<Rightarrow> string \<Rightarrow> string \<Rightarrow> client_error + 'c client_v3" where
  "try_new_v3 R L private_key cert =
     bind_ok (create_reqwest_client R private_key cert) (\<lambda>client.
       Inr \<lparr>c3_client = client, c3_received_nonce_map = lru_new L 200,
            c3_generated_nonce_map = lru_new L 200\<rparr>)"

definition to_identifier ::
    "('cert, 'key) x509 \<Rightarrow> http_response \<Rightarrow> bool \<Rightarrow> string option \<Rightarrow> client_error + string" where
  "to_identifier V response require_cert public_key =
     (if require_cert then map_err Other (verify_cert_from_res V response public_key)
      else map_err Other
        (ok_or ''Remote address not found in response'' (hp_remote_ip response)))"

text \<open>
  Both maps are locked from the first \<open>put\<close> to the end of the function, so the two updates are one
  step for every other task. The debug output that reads the two entries back is left out.
\<close>

definition nonce_v3 ::
    "('z) crates_scheme \<Rightarrow> ('cert, 'key) x509 \<Rightarrow> 'c lru_cache \<Rightarrow> (nat \<Rightarrow> bytes) \<Rightarrow> 'c client_v3
      \<Rightarrow> protocol_type \<Rightarrow> string \<Rightarrow> u16 \<Rightarrow> string call \<times> 'c client_v3" where
  "nonce_v3 X V L fill self protocol ip port =
     (let generated_nonce = generate_nonce fill;
          request_body = \<lparr>nq_nonce = x_b64_encode X generated_nonce\<rparr>;
          (sent, r) = send_request (c3_client self) \<lparr>hq_method = Post,
              hq_url = url_to_string (target ApiV3 protocol ip port ''/nonce'' []),
              hq_headers = [], hq_body = TextBody (to_text X enc_nonce_request request_body)\<rparr>
            (\<lambda>res.
               if hp_status res \<noteq> 200 then into_error X res
               else bind_ok (to_identifier V res (protocol = Https) None) (\<lambda>remote_key.
                    bind_ok (response_json X dec_nonce_response res) (\<lambda>body.
                    bind_ok (ok_or (Other ''base64'') (x_b64_decode X (np_nonce body)))
                      (\<lambda>response_nonce. Inr (remote_key, response_nonce, np_nonce body)))))
      in case r of
           Inl e \<Rightarrow> ((sent, Inl e), self)
         | Inr (remote_key, response_nonce, nonce) \<Rightarrow> ((sent, Inr nonce),
             self\<lparr>c3_received_nonce_map := lru_put L remote_key response_nonce (c3_received_nonce_map self),
                  c3_generated_nonce_map := lru_put L remote_key generated_nonce (c3_generated_nonce_map self)\<rparr>))"

text \<open>The status code is not looked at here.\<close>

definition register_v3 ::
    "('z) crates_scheme \<Rightarrow> ('cert, 'key) x509 \<Rightarrow> 'c client_v3 \<Rightarrow> protocol_type \<Rightarrow> string \<Rightarrow> u16
      \<Rightarrow> register_dto \<Rightarrow> register_response_dto result_with_public_key call" where
  "register_v3 X V self protocol ip port payload =
     send_request (c3_client self) \<lparr>hq_method = Post,
         hq_url = url_to_string (target ApiV3 protocol ip port ''/register'' []),
         hq_headers = [], hq_body = TextBody (to_text X enc_register_dto payload)\<rparr>
       (\<lambda>res.
          bind_ok (peer_key_if_https V protocol res) (\<lambda>public_key.
          bind_ok (response_json X dec_register_response_dto res) (\<lambda>body.
            Inr \<lparr>wk_public_key = public_key, wk_body = body\<rparr>)))"

definition prepare_upload_v3 ::
    "('z) crates_scheme \<Rightarrow> ('cert, 'key) x509 \<Rightarrow> 'c client_v3 \<Rightarrow> protocol_type \<Rightarrow> string \<Rightarrow> u16
      \<Rightarrow> string option \<Rightarrow> prepare_upload_request_dto \<Rightarrow> prepare_upload_result call" where
  "prepare_upload_v3 X V self protocol ip port public_key payload =
     send_request (c3_client self) \<lparr>hq_method = Post,
         hq_url = url_to_string (target ApiV3 protocol ip port ''/prepare-upload'' []),
         hq_headers = [], hq_body = TextBody (to_text X enc_prepare_upload_request_dto payload)\<rparr>
       (\<lambda>res.
          bind_ok (verify_if_https V protocol public_key res) (\<lambda>_.
            if 400 \<le> hp_status res then into_error X res
            else if hp_status res = 204
            then Inr \<lparr>pr_status_code = hp_status res, pr_response = None\<rparr>
            else bind_ok (response_json X dec_prepare_upload_response_dto res) (\<lambda>body.
              Inr \<lparr>pr_status_code = hp_status res, pr_response = Some body\<rparr>)))"

definition upload_v3 ::
    "('z) crates_scheme \<Rightarrow> ('cert, 'key) x509 \<Rightarrow> 'c client_v3 \<Rightarrow> protocol_type \<Rightarrow> string \<Rightarrow> u16
      \<Rightarrow> string option \<Rightarrow> string \<Rightarrow> string \<Rightarrow> string \<Rightarrow> bytes list \<Rightarrow> unit call" where
  "upload_v3 X V self protocol ip port public_key session_id file_id token binary =
     send_request (c3_client self)
       (upload_request ApiV3 protocol ip port session_id file_id token binary)
       (\<lambda>res.
          bind_ok (verify_if_https V protocol public_key res) (\<lambda>_.
            if hp_status res \<noteq> 200 then into_error X res else Inr ()))"

definition cancel_v3 ::
    "'c client_v3 \<Rightarrow> protocol_type \<Rightarrow> string \<Rightarrow> u16 \<Rightarrow> string \<Rightarrow> unit call" where
  "cancel_v3 self protocol ip port session_id =
     send_request (c3_client self) \<lparr>hq_method = Post,
         hq_url = url_to_string (target ApiV3 protocol ip port ''/cancel'' [(''sessionId'', session_id)]),
         hq_headers = [], hq_body = NoBody\<rparr>
       (\<lambda>_. Inr ())"

section \<open>The client of either version (client/mod.rs)\<close>

datatype 'c ls_http_client = V2Client transport | V3Client "'c client_v3"

datatype ls_http_client_version = ClientV2 | ClientV3

definition ls_new ::
    "'i reqwest \<Rightarrow> 'c lru_cache \<Rightarrow> string \<Rightarrow> string \<Rightarrow> ls_http_client_version
      \<Rightarrow> client_error + 'c ls_http_client" where
  "ls_new R L private_key cert version =
     (case version of
        ClientV2 \<Rightarrow> bind_ok (try_new_v2 R private_key cert) (\<lambda>c. Inr (V2Client c))
      | ClientV3 \<Rightarrow> bind_ok (try_new_v3 R L private_key cert) (\<lambda>c. Inr (V3Client c)))"

text \<open>A call whose result is converted.\<close>

definition map_call :: "('a \<Rightarrow> 'b) \<Rightarrow> 'a call \<Rightarrow> 'b call" where
  "map_call f c = (fst c, bind_ok (snd c) (\<lambda>x. Inr (f x)))"

definition ls_register ::
    "('z) crates_scheme \<Rightarrow> ('cert, 'key) x509 \<Rightarrow> 'c ls_http_client \<Rightarrow> protocol_type \<Rightarrow> string \<Rightarrow> u16
      \<Rightarrow> register_dto \<Rightarrow> register_response_dto result_with_public_key call" where
  "ls_register X V self protocol ip port payload =
     (case self of
        V2Client client \<Rightarrow> map_call
          (\<lambda>r. \<lparr>wk_public_key = wk_public_key r, wk_body = register_response_from_v2 (wk_body r)\<rparr>)
          (register_v2 X V client protocol ip port (register_to_v2 payload))
      | V3Client client \<Rightarrow> register_v3 X V client protocol ip port payload)"

definition ls_prepare_upload ::
    "('z) crates_scheme \<Rightarrow> ('cert, 'key) x509 \<Rightarrow> 'c ls_http_client \<Rightarrow> protocol_type \<Rightarrow> string \<Rightarrow> u16
      \<Rightarrow> string option \<Rightarrow> prepare_upload_request_dto \<Rightarrow> string option \<Rightarrow> prepare_upload_result call" where
  "ls_prepare_upload X V self protocol ip port public_key payload pin =
     (case self of
        V2Client client \<Rightarrow> map_call prepare_upload_result_from_v2
          (prepare_upload_v2 X V client protocol ip port public_key
             (prepare_upload_request_to_v2 payload) pin)
      | V3Client client \<Rightarrow> prepare_upload_v3 X V client protocol ip port public_key payload)"

definition ls_upload ::
    "('z) crates_scheme \<Rightarrow> ('cert, 'key) x509 \<Rightarrow> 'c ls_http_client \<Rightarrow> protocol_type \<Rightarrow> string \<Rightarrow> u16
      \<Rightarrow> string option \<Rightarrow> string \<Rightarrow> string \<Rightarrow> string \<Rightarrow> bytes list \<Rightarrow> unit call" where
  "ls_upload X V self protocol ip port public_key session_id file_id token binary =
     (case self of
        V2Client client \<Rightarrow>
          upload_v2 X V client protocol ip port public_key session_id file_id token binary
      | V3Client client \<Rightarrow>
          upload_v3 X V client protocol ip port public_key session_id file_id token binary)"

definition ls_cancel :: "'c ls_http_client \<Rightarrow> protocol_type \<Rightarrow> string \<Rightarrow> u16 \<Rightarrow> string \<Rightarrow> unit call" where
  "ls_cancel self protocol ip port session_id =
     (case self of
        V2Client client \<Rightarrow> cancel_v2 client protocol ip port session_id
      | V3Client client \<Rightarrow> cancel_v3 client protocol ip port session_id)"

end
