(* ===== verification/Http_Server.thy ===== *)
theory Http_Server
  imports Http_Client Ip_Group
begin

text \<open>
  The HTTP server, \<open>core/src/http/server\<close>: its state, the identity of a client, the version 2 and
  version 3 controllers, the router, and the checks on client certificates. \<open>hyper\<close> (reading the
  body), \<open>rustls\<close> (the handshake), \<open>lru\<close> and the names of status codes are parameters. A handler
  takes the state and returns the new one beside its result; both nonce maps are locked together
  (from the first \<open>put\<close> to the end of the handler), so a request is one step on the state.
\<close>

section \<open>Printing an address\<close>

text \<open>
  \<open>IpAddr::to_string\<close> of the standard library: an IPv4-mapped address prints its last four octets
  in decimal; otherwise the first longest run of two or more zero segments is left out.
\<close>

fun zero_span :: "nat \<Rightarrow> u16 list \<Rightarrow> nat \<times> nat \<Rightarrow> nat \<times> nat \<Rightarrow> nat \<times> nat" where
  "zero_span i [] current longest = longest"
| "zero_span i (s # ss) (start, len) longest =
     (if s = 0 then
        (let current = (if len = 0 then i else start, len + 1)
         in zero_span (i + 1) ss current (if snd longest < snd current then current else longest))
      else zero_span (i + 1) ss (0, 0) longest)"

definition hex_segments :: "u16 list \<Rightarrow> string" where
  "hex_segments ss = join_with '':'' (map (\<lambda>s. show_hex (unat s)) ss)"

definition v6_to_string :: "u16 list \<Rightarrow> string" where
  "v6_to_string ss =
     (if take 6 ss = [0, 0, 0, 0, 0, 0xFFFF]
      then ''::ffff:'' @ v4_to_string (ucast (drop_bit 8 (ss ! 6))) (ucast (ss ! 6))
             (ucast (drop_bit 8 (ss ! 7))) (ucast (ss ! 7))
      else (let (start, len) = zero_span 0 ss (0, 0) (0, 0) in
        if 1 < len
        then hex_segments (take start ss) @ ''::'' @ hex_segments (drop (start + len) ss)
        else hex_segments ss))"

fun ip_to_string :: "ip_addr \<Rightarrow> string" where
  "ip_to_string (V4 a b c d) = v4_to_string a b c d"
| "ip_to_string (V6 a b c d e f g h) = v6_to_string [a, b, c, d, e, f, g, h]"

section \<open>State (state.rs, server/mod.rs)\<close>

record http_client_info =
  hc_alias :: string
  hc_version :: string
  hc_device_model :: "string option"
  hc_device_type :: "device_type option"
  hc_token :: string

datatype web_page_state = WebPageState

record 'c http_app_state =
  has_info :: http_client_info
  has_web :: "web_page_state option"
  has_received_nonce_map :: 'c
  has_generated_nonce_map :: 'c

definition http_app_state_new :: "'c lru_cache \<Rightarrow> http_client_info \<Rightarrow> 'c http_app_state" where
  "http_app_state_new L info = \<lparr>has_info = info, has_web = None,
     has_received_nonce_map = lru_new L 200, has_generated_nonce_map = lru_new L 200\<rparr>"

record request_client_info =
  rc_ip :: ip_addr
  rc_cert :: "bytes option"

definition extract_public_key :: "('cert, 'key) x509 \<Rightarrow> request_client_info \<Rightarrow> string option" where
  "extract_public_key V self =
     (case rc_cert self of
        Some cert \<Rightarrow> ok (public_key_from_cert_der V cert)
      | None \<Rightarrow> None)"

definition client_identifier :: "('cert, 'key) x509 \<Rightarrow> request_client_info \<Rightarrow> string" where
  "client_identifier V self =
     (case extract_public_key V self of Some k \<Rightarrow> k | None \<Rightarrow> ip_to_string (rc_ip self))"

section \<open>Responses and errors (response.rs, error.rs, collect_to_json.rs)\<close>

record server_response =
  sr_status :: u16
  sr_headers :: "(string \<times> string) list"
  sr_body :: string

record 'a json_response =
  jr_status :: u16
  jr_body :: 'a

definition into_response ::
    "('z) crates_scheme \<Rightarrow> ('a \<Rightarrow> json) \<Rightarrow> 'a json_response \<Rightarrow> server_response" where
  "into_response X enc self = \<lparr>sr_status = jr_status self,
     sr_headers = [(''content-type'', ''application/json'')], sr_body = to_text X enc (jr_body self)\<rparr>"

datatype http_app_error = HyperError string | StatusError u16 | BadRequest string

text \<open>\<open>show_status\<close> is \<open>Display\<close> of the crate's status code.\<close>

definition to_response ::
    "('z) crates_scheme \<Rightarrow> (u16 \<Rightarrow> string) \<Rightarrow> http_app_error \<Rightarrow> server_response" where
  "to_response X show_status err =
     into_response X enc_error_response (case err of
        HyperError _ \<Rightarrow> \<lparr>jr_status = 500, jr_body = \<lparr>er_message = ''Internal server error''\<rparr>\<rparr>
      | StatusError code \<Rightarrow>
          \<lparr>jr_status = code, jr_body = \<lparr>er_message = ''Status code: '' @ show_status code\<rparr>\<rparr>
      | BadRequest message \<Rightarrow> \<lparr>jr_status = 400, jr_body = \<lparr>er_message = message\<rparr>\<rparr>)"

text \<open>A body is what \<open>collect\<close> returns: an error of \<open>hyper\<close> or all its bytes.\<close>

definition collect_to_json ::
    "('z) crates_scheme \<Rightarrow> (json \<Rightarrow> 'a option) \<Rightarrow> string + bytes \<Rightarrow> http_app_error + 'a" where
  "collect_to_json X dec body =
     bind_ok (map_err HyperError body) (\<lambda>bytes.
       ok_or (BadRequest ''Invalid JSON body'') (from_slice X dec bytes))"

section \<open>Controllers (controller/v2.rs, controller/v3.rs)\<close>

definition register_body :: "http_client_info \<Rightarrow> bool \<Rightarrow> register_response_dto" where
  "register_body info has_web_interface =
     \<lparr>rr_alias = hc_alias info, rr_version = hc_version info,
      rr_device_model = hc_device_model info, rr_device_type = hc_device_type info,
      rr_token = hc_token info, rr_has_web_interface = has_web_interface\<rparr>"

definition server_register_v2 ::
    "('z) crates_scheme \<Rightarrow> string + bytes \<Rightarrow> 'c http_app_state \<Rightarrow> request_client_info
      \<Rightarrow> http_app_error + register_response_dto json_response" where
  "server_register_v2 X body state client =
     bind_ok (collect_to_json X dec_register_dto body) (\<lambda>payload.
       (let has_web_interface = (has_web state \<noteq> None)
        in Inr \<lparr>jr_status = 200, jr_body = register_body (has_info state) has_web_interface\<rparr>))"

definition server_register_v3 ::
    "('z) crates_scheme \<Rightarrow> string + bytes \<Rightarrow> 'c http_app_state \<Rightarrow> request_client_info
      \<Rightarrow> http_app_error + register_response_dto json_response" where
  "server_register_v3 X body state client =
     bind_ok (collect_to_json X dec_register_dto body) (\<lambda>payload.
       (let has_web_interface = (has_web state \<noteq> None)
        in Inr \<lparr>jr_status = 200, jr_body = register_body (has_info state) has_web_interface\<rparr>))"

text \<open>The decoded nonce of a request, checked; nothing has been stored when this fails.\<close>

definition request_nonce :: "('z) crates_scheme \<Rightarrow> string + bytes \<Rightarrow> http_app_error + bytes" where
  "request_nonce X body =
     bind_ok (collect_to_json X dec_nonce_request body) (\<lambda>payload.
     bind_ok (ok_or (BadRequest ''Invalid nonce format'') (x_b64_decode X (nq_nonce payload))) (\<lambda>nonce.
       if \<not> validate_nonce nonce then Inl (BadRequest ''Invalid nonce'') else Inr nonce))"

definition nonce_exchange ::
    "('z) crates_scheme \<Rightarrow> ('cert, 'key) x509 \<Rightarrow> 'c lru_cache \<Rightarrow> (nat \<Rightarrow> bytes) \<Rightarrow> string + bytes
      \<Rightarrow> 'c http_app_state \<Rightarrow> request_client_info
      \<Rightarrow> (http_app_error + nonce_response json_response) \<times> 'c http_app_state" where
  "nonce_exchange X V L fill body state client =
     (case request_nonce X body of
        Inl e \<Rightarrow> (Inl e, state)
      | Inr nonce \<Rightarrow>
          (let remote_key = client_identifier V client;
               state1 = state\<lparr>has_received_nonce_map :=
                 lru_put L remote_key nonce (has_received_nonce_map state)\<rparr>;
               new_nonce = generate_nonce fill;
               new_nonce_base64 = x_b64_encode X new_nonce;
               state2 = state1\<lparr>has_generated_nonce_map :=
                 lru_put L remote_key new_nonce (has_generated_nonce_map state1)\<rparr>
           in (Inr \<lparr>jr_status = 200, jr_body = \<lparr>np_nonce = new_nonce_base64\<rparr>\<rparr>, state2)))"

section \<open>The router (server/mod.rs)\<close>

record server_request =
  sq_method :: http_method
  sq_path :: string
  sq_body :: "string + bytes"

text \<open>A handler's result on an unchanged state, as a response.\<close>

definition respond ::
    "('z) crates_scheme \<Rightarrow> ('a \<Rightarrow> json) \<Rightarrow> http_app_error + 'a json_response
      \<Rightarrow> http_app_error + server_response" where
  "respond X enc r = bind_ok r (\<lambda>x. Inr (into_response X enc x))"

definition legacy_register ::
    "('z) crates_scheme \<Rightarrow> bool \<Rightarrow> server_request \<Rightarrow> 'c http_app_state \<Rightarrow> request_client_info
      \<Rightarrow> http_app_error + server_response" where
  "legacy_register X legacy_enabled req state client =
     (if \<not> legacy_enabled then Inl (StatusError 404)
      else respond X enc_register_response_dto (server_register_v2 X (sq_body req) state client))"

text \<open>
  The two request extensions hold the state and the client; the server inserts them before every
  request, and a request without one is answered with status 500.
\<close>

definition handle_request_inner ::
    "('z) crates_scheme \<Rightarrow> ('cert, 'key) x509 \<Rightarrow> 'c lru_cache \<Rightarrow> (nat \<Rightarrow> bytes) \<Rightarrow> bool
      \<Rightarrow> server_request \<Rightarrow> 'c http_app_state option \<Rightarrow> request_client_info option
      \<Rightarrow> (http_app_error + server_response) \<times> 'c http_app_state option" where
  "handle_request_inner X V L fill legacy_enabled req state_ext client_ext =
     (case state_ext of None \<Rightarrow> (Inl (StatusError 500), state_ext) | Some state \<Rightarrow>
     (case client_ext of None \<Rightarrow> (Inl (StatusError 500), state_ext) | Some client \<Rightarrow>
        if sq_method req = Post \<and> sq_path req = ''/api/localsend/v2/register''
        then (legacy_register X legacy_enabled req state client, state_ext)
        else if sq_method req = Post \<and> sq_path req = ''/api/localsend/v2/prepare-upload''
        then (legacy_register X legacy_enabled req state client, state_ext)
        else if sq_method req = Post \<and> sq_path req = ''/api/localsend/v2/upload''
        then (legacy_register X legacy_enabled req state client, state_ext)
        else if sq_method req = Post \<and> sq_path req = ''/api/localsend/v2/cancel''
        then (legacy_register X legacy_enabled req state client, state_ext)
        else if sq_method req = Post \<and> sq_path req = ''/api/localsend/v3/nonce''
        then (let (r, state') = nonce_exchange X V L fill (sq_body req) state client
              in (respond X enc_nonce_response r, Some state'))
        else if sq_method req = Post \<and> sq_path req = ''/api/localsend/v3/register''
        then (respond X enc_register_response_dto (server_register_v3 X (sq_body req) state client),
              state_ext)
        else (Inr \<lparr>sr_status = 404, sr_headers = [], sr_body = []\<rparr>, state_ext)))"

definition handle_request ::
    "('z) crates_scheme \<Rightarrow> ('cert, 'key) x509 \<Rightarrow> 'c lru_cache \<Rightarrow> (u16 \<Rightarrow> string) \<Rightarrow> (nat \<Rightarrow> bytes)
      \<Rightarrow> bool \<Rightarrow> server_request \<Rightarrow> 'c http_app_state option \<Rightarrow> request_client_info option
      \<Rightarrow> server_response \<times> 'c http_app_state option" where
  "handle_request X V L show_status fill legacy_enabled req state_ext client_ext =
     (case handle_request_inner X V L fill legacy_enabled req state_ext client_ext of
        (Inl err, state') \<Rightarrow> (to_response X show_status err, state')
      | (Inr response, state') \<Rightarrow> (response, state'))"

section \<open>Connections\<close>

text \<open>
  What \<open>start_server_with_addr\<close> knows of a connection when it starts to serve it. With TLS the
  handshake fails or yields the client's certificate chain (\<open>None\<close> when it sent none); the first
  certificate is taken, and an empty chain would panic.
\<close>

datatype accept_outcome = HandshakeFailed | AcceptPanicked | Serving request_client_info

definition accept_connection ::
    "ip_addr \<Rightarrow> (string + bytes list option) option \<Rightarrow> accept_outcome" where
  "accept_connection remote_ip tls =
     (case tls of
        None \<Rightarrow> Serving \<lparr>rc_ip = remote_ip, rc_cert = None\<rparr>
      | Some (Inl err) \<Rightarrow> HandshakeFailed
      | Some (Inr None) \<Rightarrow> Serving \<lparr>rc_ip = remote_ip, rc_cert = None\<rparr>
      | Some (Inr (Some chain)) \<Rightarrow>
         (case chain of
            [] \<Rightarrow> AcceptPanicked
          | cert # _ \<Rightarrow> Serving \<lparr>rc_ip = remote_ip, rc_cert = Some cert\<rparr>))"

text \<open>
  The client certificate check that \<open>create_tls_config\<close> installs (client_cert_verifier.rs): a
  certificate is demanded, and any that is valid now and signs itself is trusted.
\<close>

definition offer_client_auth :: bool where
  "offer_client_auth \<longleftrightarrow> True"

definition client_auth_mandatory :: bool where
  "client_auth_mandatory \<longleftrightarrow> True"

definition verify_client_cert :: "('cert, 'key) x509 \<Rightarrow> bytes \<Rightarrow> string + unit" where
  "verify_client_cert V cert =
     map_err (\<lambda>_. ''ApplicationVerificationFailure'') (verify_cert_from_der V cert None)"

text \<open>
  \<open>start_with_port\<close> runs a server on the IPv4 and one on the IPv6 wildcard address in a
  \<open>select!\<close>. Each event is a branch becoming ready: a server returned (it only returns errors),
  or \<open>stop_rx\<close> fired (a stop signal, or its sender was dropped). A failure of the IPv6 server
  alone is waited out (for \<open>u64::MAX\<close> seconds).
\<close>

datatype server_event = Ipv4Returned "anyhow + unit" | Ipv6Returned "anyhow + unit" | StopReceived

fun still_serving :: "server_event list \<Rightarrow> bool" where
  "still_serving [] = True"
| "still_serving (Ipv4Returned r # es) = False"
| "still_serving (Ipv6Returned (Inl e) # es) = still_serving es"
| "still_serving (Ipv6Returned (Inr u) # es) = False"
| "still_serving (StopReceived # es) = False"

end
