(* ===== verification/Http_Client_Properties.thy ===== *)
theory Http_Client_Properties
  imports Http_Client
begin

text \<open>
  What the HTTP clients guarantee: certificates behind every HTTPS success, agreement of the two
  protocol versions, the outcome of every kind of answer.
\<close>

section \<open>What a result says about the peer\<close>

definition ls_transport :: "'c ls_http_client \<Rightarrow> transport" where
  "ls_transport self = (case self of V2Client client \<Rightarrow> client | V3Client client \<Rightarrow> c3_client client)"

definition ls_version :: "'c ls_http_client \<Rightarrow> api_version" where
  "ls_version self = (case self of V2Client _ \<Rightarrow> ApiV2 | V3Client _ \<Rightarrow> ApiV3)"

text \<open>The peer of a response holds a certificate that passes the checks for the expected key.\<close>

definition peer_verified ::
    "('cert, 'key) x509 \<Rightarrow> string option \<Rightarrow> string + http_response \<Rightarrow> bool" where
  "peer_verified V public_key r \<longleftrightarrow> (\<exists>res cert. r = Inr res \<and> hp_tls_info res = Some (Some cert)
     \<and> verify_cert_from_der V cert public_key = Inr ())"

lemma verify_cert_from_res_Inr:
  "verify_cert_from_res V res pk = Inr k \<longleftrightarrow>
     (\<exists>cert. hp_tls_info res = Some (Some cert) \<and> verify_cert_from_der V cert pk = Inr ()
        \<and> (case pk of Some k' \<Rightarrow> k' = k | None \<Rightarrow> public_key_from_cert_der V cert = Inr k))"
  by (auto simp: verify_cert_from_res_def split: option.splits)

lemma verify_https_Inr [simp]:
  "verify_if_https V Https (Some k) res = Inr u \<longleftrightarrow> peer_verified V (Some k) (Inr res)"
  by (auto simp: verify_if_https_def peer_verified_def verify_cert_from_res_Inr)

lemma verify_http [simp]: "verify_if_https V Http pk res = Inr ()"
  by (simp add: verify_if_https_def)

lemma map_call_simps [simp]:
  "fst (map_call f c) = fst c" "snd (map_call f c) = Inr y \<longleftrightarrow> (\<exists>x. snd c = Inr x \<and> y = f x)"
  by (auto simp: map_call_def)

lemma send_request_simps [simp]:
  "fst (send_request T q k) = [q]"
  "snd (send_request T q k) = Inr y \<longleftrightarrow> (\<exists>res. T q = Inr res \<and> k res = Inr y)"
  by (auto simp: send_request_def)

lemma into_error_not_Inr [simp]: "into_error X res \<noteq> Inr y"
  by (simp add: into_error_def Let_def)

text \<open>The request that \<open>prepare_upload\<close> sends, as far as it depends on the version.\<close>

definition prepare_upload_text ::
    "('z) crates_scheme \<Rightarrow> api_version \<Rightarrow> prepare_upload_request_dto \<Rightarrow> string" where
  "prepare_upload_text X version payload = (case version of
     ApiV2 \<Rightarrow> to_text X enc_prepare_upload_request_dto_v2 (prepare_upload_request_to_v2 payload)
   | ApiV3 \<Rightarrow> to_text X enc_prepare_upload_request_dto payload)"

lemmas ls_defs = ls_transport_def ls_version_def ls_register_def ls_prepare_upload_def ls_upload_def
  ls_cancel_def register_v2_def register_v3_def prepare_upload_v2_def prepare_upload_v3_def
  upload_v2_def upload_v3_def cancel_v2_def cancel_v3_def

lemma ls_prepare_upload_pinned:
  assumes "ls_prepare_upload X V c Https ip port (Some key) payload pin = (sent, r)"
  shows "\<exists>q. sent = [q] \<and> hq_body q = TextBody (prepare_upload_text X (ls_version c) payload)
    \<and> (\<forall>ok. r = Inr ok \<longrightarrow> peer_verified V (Some key) (ls_transport c q))"
proof -
  have sent: "sent = fst (ls_prepare_upload X V c Https ip port (Some key) payload pin)"
    and r: "r = snd (ls_prepare_upload X V c Https ip port (Some key) payload pin)"
    using assms by simp_all
  show ?thesis
    unfolding sent r
    by (cases c) (auto simp: ls_defs prepare_upload_text_def Let_def simp del: bind_ok_simps)
qed

lemma ls_upload_pinned:
  assumes "ls_upload X V c Https ip port (Some key) sid fid tok binary = (sent, r)"
  shows "\<exists>q. sent = [q] \<and> q = upload_request (ls_version c) Https ip port sid fid tok binary
    \<and> (\<forall>ok. r = Inr ok \<longrightarrow> peer_verified V (Some key) (ls_transport c q))"
proof -
  have sent: "sent = fst (ls_upload X V c Https ip port (Some key) sid fid tok binary)"
    and r: "r = snd (ls_upload X V c Https ip port (Some key) sid fid tok binary)"
    using assms by simp_all
  show ?thesis
    unfolding sent r by (cases c) (auto simp: ls_defs simp del: bind_ok_simps)
qed

text \<open>
  C28. Over HTTPS with an expected key, no upload call returns a success unless the peer that
  answered holds a certificate that passes the checks for this key. The check is made on the
  response: the one request of the call, with the whole list of files or the whole content of the
  file in its body, has been sent before, to whatever peer answers.
\<close>

theorem https_success_is_pinned:
  assumes "ls_prepare_upload X V c Https ip port (Some key) payload pin = (sent, r)"
    and "ls_upload X V c Https ip port (Some key) sid fid tok binary = (sent', r')"
  shows "(\<exists>q. sent = [q] \<and> hq_body q = TextBody (prepare_upload_text X (ls_version c) payload)
      \<and> (\<forall>ok. r = Inr ok \<longrightarrow> peer_verified V (Some key) (ls_transport c q)))
    \<and> (\<exists>q. sent' = [q] \<and> q = upload_request (ls_version c) Https ip port sid fid tok binary
      \<and> (\<forall>ok. r' = Inr ok \<longrightarrow> peer_verified V (Some key) (ls_transport c q)))"
  using ls_prepare_upload_pinned [OF assms(1)] ls_upload_pinned [OF assms(2)] by blast

definition sample_response :: "u16 \<Rightarrow> bytes \<Rightarrow> bytes \<Rightarrow> http_response" where
  "sample_response status cert body = \<lparr>hp_status = status, hp_tls_info = Some (Some cert),
     hp_remote_ip = Some ''10.0.0.1'', hp_chunks = [Inr body], hp_charset = of_bytes\<rparr>"

lemma https_success_is_pinned_witness:
  "(let c = V2Client (\<lambda>_. Inr (sample_response 200 [6, 6] [])) :: unit ls_http_client in
    (\<forall>ok. snd (ls_prepare_upload sample_crates sample_x509 c Https ''h'' 1 (Some (of_bytes [5]))
        \<lparr>pu_info = sample_register, pu_files = []\<rparr> None) \<noteq> Inr ok)
    \<and> (\<forall>ok. snd (ls_upload sample_crates sample_x509 c Https ''h'' 1 (Some (of_bytes [5]))
        ''s'' ''f'' ''t'' [[1, 2]]) \<noteq> Inr ok))"
proof -
  let ?c = "V2Client (\<lambda>_. Inr (sample_response 200 [6, 6] [])) :: unit ls_http_client"
  have "\<not> peer_verified sample_x509 (Some (of_bytes [5])) (ls_transport ?c q)" for q
    by (simp add: peer_verified_def ls_transport_def sample_response_def sample_x509_def
        verify_cert_from_der_def verify_cert_from_cert_def)
  then show ?thesis
    using https_success_is_pinned [of sample_crates sample_x509 ?c "''h''" 1 "of_bytes [5]"
      "\<lparr>pu_info = sample_register, pu_files = []\<rparr>" None _ _ "''s''" "''f''" "''t''" "[[1, 2]]",
      OF prod.collapse [symmetric] prod.collapse [symmetric]]
    by (auto simp: Let_def)
qed

section \<open>The two versions\<close>

lemma prepare_upload_response_versions:
  "dec_prepare_upload_response_dto j
     = map_option prepare_upload_response_from_v2 (dec_prepare_upload_response_dto_v2 j)"
  by (auto simp: dec_prepare_upload_response_dto_def dec_prepare_upload_response_dto_v2_def
      prepare_upload_response_from_v2_def split: option.split list.split)

lemma response_json_map:
  "response_json X (\<lambda>j. map_option f (dec j)) res
     = bind_ok (response_json X dec res) (\<lambda>x. Inr (f x))"
proof (cases "collect_body (hp_chunks res)")
  case (Inr bs)
  then show ?thesis
    by (cases "x_json_parse X (of_bytes bs)"; cases "dec (the (x_json_parse X (of_bytes bs)))")
      (simp_all add: response_json_def from_slice_def from_text_def)
qed (simp add: response_json_def)

lemma into_error_bind [simp]: "bind_ok (into_error X res) f = into_error X res"
  by (simp add: into_error_def Let_def)

lemma bind_assoc: "bind_ok (bind_ok r f) g = bind_ok r (\<lambda>x. bind_ok (f x) g)"
  by (cases r) simp_all

lemma bind_cong: "(\<And>x. f x = g x) \<Longrightarrow> bind_ok r f = bind_ok r g"
  by (cases r) simp_all

lemma prepare_upload_agrees:
  fixes c :: "'c client_v3"
  assumes "c3_client c = (\<lambda>_. answer)"
  shows "snd (ls_prepare_upload X V (V2Client (\<lambda>_. answer) :: 'c ls_http_client) proto ip port key payload pin)
       = snd (ls_prepare_upload X V (V3Client c) proto ip port key payload pin)"
proof -
  have dec: "dec_prepare_upload_response_dto
      = (\<lambda>j. map_option prepare_upload_response_from_v2 (dec_prepare_upload_response_dto_v2 j))"
    by (simp add: prepare_upload_response_versions fun_eq_iff)
  show ?thesis
    unfolding ls_prepare_upload_def prepare_upload_v2_def prepare_upload_v3_def dec
    by (auto simp: assms map_call_def send_request_def bind_assoc response_json_map Let_def
        prepare_upload_result_from_v2_def intro!: bind_cong)
qed

text \<open>
  Both clients read an answer the same way: given the same answer of the peer, the version 2
  and the version 3 client return the same result from \<open>prepare_upload\<close> (the version 2 one after
  its conversion), \<open>upload\<close> and \<open>cancel\<close>, errors included.
\<close>

theorem client_versions_agree:
  fixes c :: "'c client_v3"
  assumes "c3_client c = (\<lambda>_. answer)"
  shows "snd (ls_prepare_upload X V (V2Client (\<lambda>_. answer) :: 'c ls_http_client) proto ip port key payload pin)
       = snd (ls_prepare_upload X V (V3Client c) proto ip port key payload pin)
    \<and> snd (ls_upload X V (V2Client (\<lambda>_. answer) :: 'c ls_http_client) proto ip port key sid fid tok binary)
       = snd (ls_upload X V (V3Client c) proto ip port key sid fid tok binary)
    \<and> snd (ls_cancel (V2Client (\<lambda>_. answer) :: 'c ls_http_client) proto ip port sid) = snd (ls_cancel (V3Client c) proto ip port sid)"
  using assms prepare_upload_agrees [OF assms]
  by (simp add: ls_upload_def ls_cancel_def upload_v2_def upload_v3_def cancel_v2_def cancel_v3_def
      send_request_def)

lemma client_versions_agree_witness:
  "snd (ls_cancel (V2Client (\<lambda>_. Inl ''down'') :: unit ls_http_client) Http ''h'' 1 ''s'')
     = snd (ls_cancel (V3Client \<lparr>c3_client = (\<lambda>_. Inl ''down''), c3_received_nonce_map = (),
         c3_generated_nonce_map = ()\<rparr>) Http ''h'' 1 ''s'')"
  using client_versions_agree [of
      "\<lparr>c3_client = (\<lambda>_. Inl ''down''), c3_received_nonce_map = (), c3_generated_nonce_map = ()\<rparr>"
      "Inl ''down''" sample_crates sample_x509 Http "''h''" 1 None
      "\<lparr>pu_info = sample_register, pu_files = []\<rparr>" None "''s''" "''f''" "''t''" "[]"]
  by simp

section \<open>Errors and downloads\<close>

text \<open>
  What \<open>prepare_upload\<close> makes of the answer of a peer it needs not verify: an error status
  becomes an error with the message of the JSON body, or the body itself when it is not one, and
  no message when that is empty; 204 is a success without a response; any other status is a
  success exactly when the body decodes.
\<close>

theorem prepare_upload_outcome:
  fixes c :: "'c ls_http_client"
  assumes "\<And>q. ls_transport c q = Inr res" and "collect_body (hp_chunks res) = Inr bs"
  shows "snd (ls_prepare_upload X V c Http ip port key payload pin) =
    (if 400 \<le> hp_status res
     then Inl (StatusCode \<lparr>sc_status = hp_status res, sc_message =
       (case from_text X dec_error_response (hp_charset res bs) of
          Some e \<Rightarrow> if er_message e = [] then None else Some (er_message e)
        | None \<Rightarrow> if hp_charset res bs = [] then None else Some (hp_charset res bs))\<rparr>)
     else if hp_status res = 204 then Inr \<lparr>pr_status_code = 204, pr_response = None\<rparr>
     else (case from_slice X dec_prepare_upload_response_dto bs of
         Some body \<Rightarrow> Inr \<lparr>pr_status_code = hp_status res, pr_response = Some body\<rparr>
       | None \<Rightarrow> Inl (Reqwest ''error decoding response body'')))"
    (is "_ = ?rhs")
proof -
  have v3: "snd (ls_prepare_upload X V (V3Client k) Http ip port key payload pin) = ?rhs"
    if "c3_client k = (\<lambda>_. Inr res)" for k :: "'c client_v3"
  proof (cases "from_slice X dec_prepare_upload_response_dto bs")
  qed (use that assms(2) in \<open>auto simp: ls_prepare_upload_def prepare_upload_v3_def
      send_request_def into_error_def response_json_def Let_def split: option.splits\<close>)
  have T: "ls_transport c = (\<lambda>_. Inr res)" using assms(1) by auto
  show ?thesis
  proof (cases c)
    case (V2Client t)
    define k :: "'c client_v3" where "k = \<lparr>c3_client = t, c3_received_nonce_map = undefined,
      c3_generated_nonce_map = undefined\<rparr>"
    have "t = (\<lambda>_. Inr res)" using T V2Client by (simp add: ls_transport_def)
    then have k: "c3_client k = (\<lambda>_. Inr res)" and c: "c = V2Client (\<lambda>_. Inr res)"
      using V2Client by (simp_all add: k_def)
    show ?thesis
      unfolding c by (rule trans [OF prepare_upload_agrees [OF k] v3 [OF k]])
  next
    case (V3Client k)
    then show ?thesis using v3 [of k] T by (simp add: ls_transport_def)
  qed
qed

text \<open>
  Registering: the version 2 client refuses every status but 200; the version 3 client does
  not look at the status and returns whatever registration the body decodes to, even from an
  error response. Either way the public key of an HTTPS peer that is returned is the one of a
  certificate that passed its checks, and there is none over plain HTTP.
\<close>

theorem register_status:
  fixes c :: "'c client_v3"
  assumes "ls_register X V (V2Client T :: 'c ls_http_client) protocol ip port payload = ([q], Inr reg)"
    and "c3_client c = (\<lambda>_. Inr err)" and "response_json X dec_register_response_dto err = Inr body"
  shows "(\<exists>res. T q = Inr res \<and> hp_status res = 200
      \<and> peer_key_if_https V protocol res = Inr (wk_public_key reg))
    \<and> snd (ls_register X V (V3Client c) Http ip port payload)
      = Inr \<lparr>wk_public_key = None, wk_body = body\<rparr>"
proof
  show "\<exists>res. T q = Inr res \<and> hp_status res = 200
      \<and> peer_key_if_https V protocol res = Inr (wk_public_key reg)"
    using assms(1)
    by (auto simp: ls_register_def register_v2_def Let_def map_call_def send_request_def
        split: if_splits)
  show "snd (ls_register X V (V3Client c) Http ip port payload)
      = Inr \<lparr>wk_public_key = None, wk_body = body\<rparr>"
    using assms(2,3)
    by (simp add: ls_register_def register_v3_def send_request_def peer_key_if_https_def)
qed

definition sample_answer_v2 :: register_response_dto_v2 where
  "sample_answer_v2 = \<lparr>rr2_alias = ''b'', rr2_version = ''2.1'', rr2_device_model = None,
     rr2_device_type = None, rr2_fingerprint = ''f'', rr2_download = False\<rparr>"

definition sample_answer_v3 :: register_response_dto where
  "sample_answer_v3 = register_response_from_v2 sample_answer_v2"

text \<open>A response whose body is a value encoded as JSON.\<close>

definition json_answer :: "u16 \<Rightarrow> bytes \<Rightarrow> ('a \<Rightarrow> json) \<Rightarrow> 'a \<Rightarrow> http_response" where
  "json_answer status cert enc x = sample_response status cert (as_bytes (to_text sample_crates enc x))"

lemma json_answer_decodes:
  "json_codec enc dec \<Longrightarrow> response_json sample_crates dec (json_answer status cert enc x) = Inr x"
  by (simp add: json_answer_def sample_response_def response_json_def
      from_slice_to_text [OF sample_laws(2)])

lemma register_status_witness:
  "snd (ls_register sample_crates sample_x509 (V3Client
      \<lparr>c3_client = (\<lambda>_. Inr (json_answer 500 [] enc_register_response_dto sample_answer_v3)),
       c3_received_nonce_map = (), c3_generated_nonce_map = ()\<rparr>) Http ''h'' 1 sample_register)
    = Inr \<lparr>wk_public_key = None, wk_body = sample_answer_v3\<rparr>"
proof -
  let ?T = "\<lambda>_ :: http_request. Inr (json_answer 200 [] enc_register_response_dto_v2 sample_answer_v2)"
  let ?c = "\<lparr>c3_client = (\<lambda>_. Inr (json_answer 500 [] enc_register_response_dto sample_answer_v3)),
    c3_received_nonce_map = (), c3_generated_nonce_map = ()\<rparr>"
  let ?r = "ls_register sample_crates sample_x509 (V2Client ?T :: unit ls_http_client) Http ''h'' 1 sample_register"
  have "snd ?r = Inr \<lparr>wk_public_key = None, wk_body = sample_answer_v3\<rparr>"
    by (simp add: ls_register_def register_v2_def Let_def map_call_def send_request_def
        peer_key_if_https_def json_answer_decodes [OF register_response_dto_v2_codec.json_codec_axioms]
        sample_answer_v3_def) (simp add: json_answer_def sample_response_def)
  moreover have "fst ?r = [hd (fst ?r)]"
    by (simp add: ls_register_def register_v2_def Let_def)
  ultimately have run: "?r = ([hd (fst ?r)], Inr \<lparr>wk_public_key = None, wk_body = sample_answer_v3\<rparr>)"
    by (metis prod.collapse)
  show ?thesis
    using register_status [OF run, of ?c
      "json_answer 500 [] enc_register_response_dto sample_answer_v3" sample_answer_v3]
      json_answer_decodes [OF register_response_dto_codec.json_codec_axioms]
    by simp
qed

end
