(* ===== verification/Http_Exchange.thy ===== *)
theory Http_Exchange
  imports Http_Server Http_Client_Properties
begin

text \<open>
  The clients of \<open>Http_Client\<close> talking to the server of \<open>Http_Server\<close>: what each side knows after
  a nonce exchange, what a registration returns, and what the server makes of every other request.
\<close>

section \<open>The server as the peer of a client\<close>

text \<open>
  The connection between a client and the server: the server's state, who it takes the client
  for, the certificate and address the client sees, and \<open>uri_path\<close>, the path that the URI parser
  of the server finds in the requested URL.
\<close>

record 'c link =
  ln_state :: "'c http_app_state"
  ln_client :: request_client_info
  ln_legacy :: bool
  ln_cert :: "bytes option"
  ln_ip :: "string option"
  ln_uri_path :: "string \<Rightarrow> string"

fun body_bytes :: "http_body \<Rightarrow> bytes" where
  "body_bytes NoBody = []"
| "body_bytes (TextBody t) = as_bytes t"
| "body_bytes (StreamBody chunks) = concat chunks"

definition incoming :: "('c, 'y) link_scheme \<Rightarrow> http_request \<Rightarrow> server_request" where
  "incoming N q = \<lparr>sq_method = hq_method q, sq_path = ln_uri_path N (hq_url q),
     sq_body = Inr (body_bytes (hq_body q))\<rparr>"

definition outgoing :: "('c, 'y) link_scheme \<Rightarrow> server_response \<Rightarrow> http_response" where
  "outgoing N r = \<lparr>hp_status = sr_status r, hp_tls_info = Some (ln_cert N), hp_remote_ip = ln_ip N,
     hp_chunks = [Inr (as_bytes (sr_body r))], hp_charset = of_bytes\<rparr>"

definition serve ::
    "('z) crates_scheme \<Rightarrow> ('cert, 'key) x509 \<Rightarrow> 'c lru_cache \<Rightarrow> (u16 \<Rightarrow> string) \<Rightarrow> (nat \<Rightarrow> bytes)
      \<Rightarrow> ('c, 'y) link_scheme \<Rightarrow> http_request \<Rightarrow> server_response \<times> 'c http_app_state option" where
  "serve X V L D fill N q =
     handle_request X V L D fill (ln_legacy N) (incoming N q) (Some (ln_state N)) (Some (ln_client N))"

definition wire ::
    "('z) crates_scheme \<Rightarrow> ('cert, 'key) x509 \<Rightarrow> 'c lru_cache \<Rightarrow> (u16 \<Rightarrow> string) \<Rightarrow> (nat \<Rightarrow> bytes)
      \<Rightarrow> ('c, 'y) link_scheme \<Rightarrow> transport" where
  "wire X V L D fill N q = Inr (outgoing N (fst (serve X V L D fill N q)))"

text \<open>The URI parser finds the path of a target, which ends where its query begins.\<close>

definition routes :: "('c, 'y) link_scheme \<Rightarrow> target_url \<Rightarrow> bool" where
  "routes N u \<longleftrightarrow> ln_uri_path N (url_to_string u) = api_path u"

text \<open>
  Who the client takes the server for: the public key of a certificate that passes the checks, or
  the address it is connected to.
\<close>

definition peer_identity ::
    "('cert, 'key) x509 \<Rightarrow> ('c, 'y) link_scheme \<Rightarrow> protocol_type \<Rightarrow> string option" where
  "peer_identity V N protocol =
     (case protocol of
        Https \<Rightarrow> Option.bind (ln_cert N) (\<lambda>cert.
          if verify_cert_from_der V cert None = Inr () then ok (public_key_from_cert_der V cert) else None)
      | Http \<Rightarrow> ln_ip N)"

lemma to_identifier_peer:
  "peer_identity V N protocol = Some sid \<Longrightarrow>
   to_identifier V (outgoing N r) (protocol = Https) None = Inr sid"
  by (cases protocol; cases "ln_cert N")
    (auto simp: peer_identity_def to_identifier_def outgoing_def verify_cert_from_res_Inr split: if_splits)

lemmas server_defs = serve_def handle_request_def handle_request_inner_def incoming_def

lemma routes_path:
  "routes N (target v proto ip port path ps) \<Longrightarrow>
   ln_uri_path N (url_to_string (target v proto ip port path ps))
     = ''/api/localsend/'' @ api_version_str v @ path"
  by (simp add: routes_def api_path_def target_def)

lemma collect_text:
  "json_law X \<Longrightarrow> json_codec enc dec \<Longrightarrow>
   collect_to_json X dec (Inr (as_bytes (to_text X enc x))) = Inr x"
  by (simp add: collect_to_json_def from_slice_to_text)

lemma outgoing_json:
  "json_law X \<Longrightarrow> json_codec enc dec \<Longrightarrow>
   response_json X dec (outgoing N (into_response X enc \<lparr>jr_status = st, jr_body = x\<rparr>)) = Inr x"
  by (simp add: response_json_def outgoing_def into_response_def from_slice_to_text)

lemma outgoing_status [simp]: "hp_status (outgoing N r) = sr_status r"
  by (simp add: outgoing_def)

lemma into_response_status [simp]: "sr_status (into_response X enc r) = jr_status r"
  by (simp add: into_response_def)

text \<open>An error of the server becomes the client's error with the same status and message.\<close>

lemma error_reaches_client:
  assumes "json_law X"
  shows "into_error X (outgoing N (into_response X enc_error_response
      \<lparr>jr_status = st, jr_body = \<lparr>er_message = m\<rparr>\<rparr>))
    = Inl (StatusCode \<lparr>sc_status = st, sc_message = if m = [] then None else Some m\<rparr>)"
  using assms
  by (simp add: into_error_def outgoing_def into_response_def from_text_to_text
      error_response_codec.json_codec_axioms)

section \<open>The nonce exchange\<close>

lemma serve_nonce:
  assumes "json_law X" and "b64_law X" and "validate_nonce n"
    and "hq_method q = Post" and "ln_uri_path N (hq_url q) = ''/api/localsend/v3/nonce''"
    and "hq_body q = TextBody (to_text X enc_nonce_request \<lparr>nq_nonce = x_b64_encode X n\<rparr>)"
  shows "serve X V L D fill N q = (into_response X enc_nonce_response
      \<lparr>jr_status = 200, jr_body = \<lparr>np_nonce = x_b64_encode X (fill 32)\<rparr>\<rparr>,
    Some ((ln_state N)\<lparr>
      has_received_nonce_map := lru_put L (client_identifier V (ln_client N)) n (has_received_nonce_map (ln_state N)),
      has_generated_nonce_map := lru_put L (client_identifier V (ln_client N)) (fill 32)
        (has_generated_nonce_map (ln_state N))\<rparr>))"
  using assms
  by (simp add: server_defs nonce_exchange_def request_nonce_def respond_def Let_def b64_law_def
      collect_text [OF _ nonce_request_codec.json_codec_axioms] generate_nonce_def)

lemma nonce_v3_run:
  assumes X: "json_law X" "b64_law X" and fill: "length (fillc 32) = 32"
    and link: "c3_client c = wire X V L D fills N"
    and path: "routes N (target ApiV3 protocol ip port ''/nonce'' [])"
    and peer: "peer_identity V N protocol = Some sid"
  shows "\<exists>q. nonce_v3 X V L fillc c protocol ip port =
      (([q], Inr (x_b64_encode X (fills 32))),
       c\<lparr>c3_received_nonce_map := lru_put L sid (fills 32) (c3_received_nonce_map c),
         c3_generated_nonce_map := lru_put L sid (fillc 32) (c3_generated_nonce_map c)\<rparr>)
    \<and> snd (serve X V L D fills N q) = Some ((ln_state N)\<lparr>
        has_received_nonce_map :=
          lru_put L (client_identifier V (ln_client N)) (fillc 32) (has_received_nonce_map (ln_state N)),
        has_generated_nonce_map :=
          lru_put L (client_identifier V (ln_client N)) (fills 32) (has_generated_nonce_map (ln_state N))\<rparr>)"
proof -
  let ?q = "\<lparr>hq_method = Post, hq_url = url_to_string (target ApiV3 protocol ip port ''/nonce'' []),
    hq_headers = [], hq_body = TextBody (to_text X enc_nonce_request
      \<lparr>nq_nonce = x_b64_encode X (fillc 32)\<rparr>)\<rparr>"
  have "validate_nonce (fillc 32)" using fill by (simp add: validate_nonce_def)
  then have served: "serve X V L D fills N ?q = (into_response X enc_nonce_response
      \<lparr>jr_status = 200, jr_body = \<lparr>np_nonce = x_b64_encode X (fills 32)\<rparr>\<rparr>,
    Some ((ln_state N)\<lparr>
      has_received_nonce_map := lru_put L (client_identifier V (ln_client N)) (fillc 32) (has_received_nonce_map (ln_state N)),
      has_generated_nonce_map := lru_put L (client_identifier V (ln_client N)) (fills 32)
        (has_generated_nonce_map (ln_state N))\<rparr>))"
    using X routes_path [OF path] by (intro serve_nonce) simp_all
  have decoded: "x_b64_decode X (x_b64_encode X (fills 32)) = Some (fills 32)"
    using X(2) by (simp add: b64_law_def)
  show ?thesis
    using served
    by (intro exI [of _ ?q]) (simp add: nonce_v3_def Let_def generate_nonce_def send_request_def link
        wire_def outgoing_json [OF X(1) nonce_response_codec.json_codec_axioms]
        to_identifier_peer [OF peer] decoded)
qed

text \<open>
  C12. After a nonce exchange both sides hold the same two nonces under each other's identity: the
  call succeeds, what the client generated is what the server received from it, and what the
  client received is what the server generated for it. An identity is the public key of the
  peer's certificate over HTTPS and the peer's address over plain HTTP.
\<close>

theorem nonce_exchange_agrees:
  assumes "json_law X" and "b64_law X" and "lru_law L"
    and "length (fillc 32) = 32"
    and "c3_client c = wire X V L D fills N"
    and "routes N (target ApiV3 protocol ip port ''/nonce'' [])"
    and "peer_identity V N protocol = Some sid"
  shows "\<exists>q c' s'. nonce_v3 X V L fillc c protocol ip port = (([q], Inr (x_b64_encode X (fills 32))), c')
    \<and> snd (serve X V L D fills N q) = Some s'
    \<and> lru_peek L sid (c3_generated_nonce_map c') = Some (fillc 32)
    \<and> lru_peek L (client_identifier V (ln_client N)) (has_received_nonce_map s') = Some (fillc 32)
    \<and> lru_peek L sid (c3_received_nonce_map c') = Some (fills 32)
    \<and> lru_peek L (client_identifier V (ln_client N)) (has_generated_nonce_map s') = Some (fills 32)"
proof -
  obtain q where "nonce_v3 X V L fillc c protocol ip port =
      (([q], Inr (x_b64_encode X (fills 32))),
       c\<lparr>c3_received_nonce_map := lru_put L sid (fills 32) (c3_received_nonce_map c),
         c3_generated_nonce_map := lru_put L sid (fillc 32) (c3_generated_nonce_map c)\<rparr>)"
    and "snd (serve X V L D fills N q) = Some ((ln_state N)\<lparr>
        has_received_nonce_map :=
          lru_put L (client_identifier V (ln_client N)) (fillc 32) (has_received_nonce_map (ln_state N)),
        has_generated_nonce_map :=
          lru_put L (client_identifier V (ln_client N)) (fills 32) (has_generated_nonce_map (ln_state N))\<rparr>)"
    using nonce_v3_run [where fillc = fillc, OF assms(1,2,4-7)] by blast
  with assms(3) show ?thesis by (simp add: lru_law_def)
qed

section \<open>Registration\<close>

lemma serve_register:
  assumes "hq_method q = Post" and "ln_uri_path N (hq_url q) = ''/api/localsend/'' @ v @ ''/register''"
    and "hq_body q = TextBody t" and "v = ''v2'' \<and> ln_legacy N \<or> v = ''v3''"
  shows "serve X V L D fill N q =
    ((case from_slice X dec_register_dto (as_bytes t) of
        Some _ \<Rightarrow> into_response X enc_register_response_dto
          \<lparr>jr_status = 200, jr_body = register_body (has_info (ln_state N)) (has_web (ln_state N) \<noteq> None)\<rparr>
      | None \<Rightarrow> into_response X enc_error_response
          \<lparr>jr_status = 400, jr_body = \<lparr>er_message = ''Invalid JSON body''\<rparr>\<rparr>),
     Some (ln_state N))"
  using assms
  by (auto simp: server_defs respond_def legacy_register_def server_register_v2_def
      server_register_v3_def collect_to_json_def to_response_def split: option.split)

lemma serve_legacy:
  assumes "hq_method q = Post" and "\<not> ln_legacy N"
    and "ln_uri_path N (hq_url q) \<in> {''/api/localsend/v2/register'', ''/api/localsend/v2/prepare-upload'',
      ''/api/localsend/v2/upload'', ''/api/localsend/v2/cancel''}"
  shows "serve X V L D fill N q = (into_response X enc_error_response
    \<lparr>jr_status = 404, jr_body = \<lparr>er_message = ''Status code: '' @ D 404\<rparr>\<rparr>, Some (ln_state N))"
  using assms by (auto simp: server_defs legacy_register_def to_response_def)

lemma peer_key_run:
  "peer_identity V N protocol = Some sid \<Longrightarrow>
   peer_key_if_https V protocol (outgoing N r) = Inr (if protocol = Https then Some sid else None)"
  using to_identifier_peer [of V N protocol sid r]
  by (cases protocol) (auto simp: peer_key_if_https_def to_identifier_def)

lemma register_v3_run:
  assumes X: "json_law X" and link: "c3_client c = wire X V L D fill N"
    and v3: "routes N (target ApiV3 protocol ip port ''/register'' [])"
    and peer: "peer_identity V N protocol = Some sid"
  shows "\<exists>q. register_v3 X V c protocol ip port payload = ([q],
    Inr \<lparr>wk_public_key = (if protocol = Https then Some sid else None),
         wk_body = register_body (has_info (ln_state N)) (has_web (ln_state N) \<noteq> None)\<rparr>)
    \<and> snd (serve X V L D fill N q) = Some (ln_state N)"
proof -
  let ?body = "to_text X enc_register_dto payload"
  let ?q = "\<lparr>hq_method = Post, hq_url = url_to_string (target ApiV3 protocol ip port ''/register'' []),
    hq_headers = [], hq_body = TextBody ?body\<rparr>"
  have served: "serve X V L D fill N ?q = (into_response X enc_register_response_dto
      \<lparr>jr_status = 200, jr_body = register_body (has_info (ln_state N)) (has_web (ln_state N) \<noteq> None)\<rparr>,
      Some (ln_state N))"
    using serve_register [of ?q N "''v3''" ?body X V L D fill] routes_path [OF v3]
      from_slice_to_text [OF X register_dto_codec.json_codec_axioms, of payload]
    by (simp del: not_None_eq)
  show ?thesis
    by (intro exI [of _ ?q] conjI) (simp_all add: register_v3_def send_request_def link wire_def served peer_key_run [OF peer]
        outgoing_json [OF X register_response_dto_codec.json_codec_axioms])
qed

text \<open>
  C29. Registering with the server: a version 3 client learns what the server says of itself, under
  the key of the server's certificate over HTTPS and without one over HTTP; a version 2 client, whose
  registration the server's version 2 endpoint cannot decode, gets status 400, and 404 where the old
  protocol is switched off. Either client sends one request, and it does not change the server's state.
\<close>

theorem registration_end_to_end:
  fixes c :: "'c client_v3"
  assumes X: "json_law X" and link: "c3_client c = wire X V L D fill N"
    and v2: "routes N (target ApiV2 protocol ip port ''/register'' [])"
    and v3: "routes N (target ApiV3 protocol ip port ''/register'' [])"
    and peer: "peer_identity V N protocol = Some sid"
  shows "snd (ls_register X V (V3Client c) protocol ip port payload)
      = Inr \<lparr>wk_public_key = (if protocol = Https then Some sid else None),
          wk_body = register_body (has_info (ln_state N)) (has_web (ln_state N) \<noteq> None)\<rparr>
    \<and> snd (ls_register X V (V2Client (wire X V L D fill N) :: 'c ls_http_client) protocol ip port payload)
      = Inl (StatusCode (if ln_legacy N
          then \<lparr>sc_status = 400, sc_message = Some ''Invalid JSON body''\<rparr>
          else \<lparr>sc_status = 404, sc_message = Some (''Status code: '' @ D 404)\<rparr>))
    \<and> (\<forall>client \<in> {V3Client c, V2Client (wire X V L D fill N)}.
        \<exists>q. fst (ls_register X V client protocol ip port payload) = [q]
          \<and> snd (serve X V L D fill N q) = Some (ln_state N))"
proof (intro conjI)
  obtain q where q: "register_v3 X V c protocol ip port payload = ([q],
      Inr \<lparr>wk_public_key = (if protocol = Https then Some sid else None),
         wk_body = register_body (has_info (ln_state N)) (has_web (ln_state N) \<noteq> None)\<rparr>)"
    and state3: "snd (serve X V L D fill N q) = Some (ln_state N)"
    using register_v3_run [OF X link v3 peer] by blast
  then show "snd (ls_register X V (V3Client c) protocol ip port payload)
      = Inr \<lparr>wk_public_key = (if protocol = Https then Some sid else None),
          wk_body = register_body (has_info (ln_state N)) (has_web (ln_state N) \<noteq> None)\<rparr>"
    by (simp add: ls_register_def)
  let ?body = "to_text X enc_register_dto_v2 (register_to_v2 payload)"
  let ?q = "\<lparr>hq_method = Post, hq_url = url_to_string (target ApiV2 protocol ip port ''/register'' []),
    hq_headers = json_header, hq_body = TextBody ?body\<rparr>"
  have undecoded: "from_slice X dec_register_dto (as_bytes ?body) = None"
    by (simp add: from_slice_plain [OF X] register_dto_v2_codec.plain register_v2_rejected)
  have served: "serve X V L D fill N ?q = (into_response X enc_error_response
      (if ln_legacy N then \<lparr>jr_status = 400, jr_body = \<lparr>er_message = ''Invalid JSON body''\<rparr>\<rparr>
       else \<lparr>jr_status = 404, jr_body = \<lparr>er_message = ''Status code: '' @ D 404\<rparr>\<rparr>), Some (ln_state N))"
    using serve_register [of ?q N "''v2''" ?body X V L D fill]
      serve_legacy [of ?q N X V L D fill] routes_path [OF v2] undecoded
    by simp
  let ?v2 = "V2Client (wire X V L D fill N) :: 'c ls_http_client"
  have two: "fst (ls_register X V ?v2 protocol ip port payload) = [?q]"
    and "snd (ls_register X V ?v2 protocol ip port payload)
      = Inl (StatusCode (if ln_legacy N
          then \<lparr>sc_status = 400, sc_message = Some ''Invalid JSON body''\<rparr>
          else \<lparr>sc_status = 404, sc_message = Some (''Status code: '' @ D 404)\<rparr>))"
    by (simp_all add: ls_register_def register_v2_def Let_def send_request_def wire_def served
        error_reaches_client [OF X] map_call_def)
  then show "snd (ls_register X V ?v2 protocol ip port payload)
      = Inl (StatusCode (if ln_legacy N
          then \<lparr>sc_status = 400, sc_message = Some ''Invalid JSON body''\<rparr>
          else \<lparr>sc_status = 404, sc_message = Some (''Status code: '' @ D 404)\<rparr>))"
    by simp
  show "\<forall>client \<in> {V3Client c, ?v2}. \<exists>q. fst (ls_register X V client protocol ip port payload) = [q]
      \<and> snd (serve X V L D fill N q) = Some (ln_state N)"
    using q state3 two served by (auto simp: ls_register_def)
qed

section \<open>Everything else\<close>

text \<open>The query of a \<open>prepare_upload\<close> request: the PIN, if there is one.\<close>

definition pin_params :: "string option \<Rightarrow> (string \<times> string) list" where
  "pin_params pin = (case pin of Some p \<Rightarrow> [(''pin'', p)] | None \<Rightarrow> [])"

text \<open>
  C30. The server offers no upload: whatever client of this library asks it to prepare one, on
  either protocol, with or without a PIN, the call never succeeds, provided the requested URL is one
  in which the server's URI parser finds the path. Over plain HTTP the version 3 client gets an empty
  404; the version 2 client gets 400, since the route is served by the registration handler,
  which does not decode the request, or 404 when the old protocol is switched off.
\<close>

theorem uploads_are_not_served:
  fixes c :: "'c client_v3"
  assumes X: "json_law X" and link: "c3_client c = wire X V L D fill N"
    and v2: "routes N (target ApiV2 protocol ip port ''/prepare-upload'' (pin_params pin))"
    and v3: "routes N (target ApiV3 protocol ip port ''/prepare-upload'' [])"
    and empty: "x_json_parse X [] = None"
  shows "snd (ls_prepare_upload X V (V3Client c) protocol ip port key payload pin) \<noteq> Inr res
    \<and> snd (ls_prepare_upload X V (V2Client (wire X V L D fill N) :: 'c ls_http_client)
        protocol ip port key payload pin) \<noteq> Inr res
    \<and> (protocol = Http \<longrightarrow>
        snd (ls_prepare_upload X V (V3Client c) protocol ip port key payload pin)
          = Inl (StatusCode \<lparr>sc_status = 404, sc_message = None\<rparr>)
        \<and> snd (ls_prepare_upload X V (V2Client (wire X V L D fill N) :: 'c ls_http_client)
            protocol ip port key payload pin)
          = Inl (StatusCode (if ln_legacy N
              then \<lparr>sc_status = 400, sc_message = Some ''Invalid JSON body''\<rparr>
              else \<lparr>sc_status = 404, sc_message = Some (''Status code: '' @ D 404)\<rparr>)))"
proof (intro conjI impI)
  let ?q3 = "\<lparr>hq_method = Post, hq_url = url_to_string (target ApiV3 protocol ip port ''/prepare-upload'' []),
    hq_headers = [], hq_body = TextBody (to_text X enc_prepare_upload_request_dto payload)\<rparr>"
  let ?b2 = "to_text X enc_prepare_upload_request_dto_v2 (prepare_upload_request_to_v2 payload)"
  let ?q2 = "\<lparr>hq_method = Post, hq_url = url_to_string (target ApiV2 protocol ip port ''/prepare-upload'' (pin_params pin)),
    hq_headers = json_header, hq_body = TextBody ?b2\<rparr>"
  have s3: "fst (serve X V L D fill N ?q3) = \<lparr>sr_status = 404, sr_headers = [], sr_body = []\<rparr>"
    using routes_path [OF v3] by (simp add: server_defs)
  have undecoded: "from_slice X dec_register_dto (as_bytes ?b2) = None"
    by (simp add: from_slice_plain [OF X] prepare_upload_request_dto_v2_plain upload_v2_not_registration)
  have s2: "fst (serve X V L D fill N ?q2) = into_response X enc_error_response
      (if ln_legacy N then \<lparr>jr_status = 400, jr_body = \<lparr>er_message = ''Invalid JSON body''\<rparr>\<rparr>
       else \<lparr>jr_status = 404, jr_body = \<lparr>er_message = ''Status code: '' @ D 404\<rparr>\<rparr>)"
    using serve_legacy [of ?q2 N X V L D fill] routes_path [OF v2] undecoded
    by (auto simp: server_defs legacy_register_def server_register_v2_def respond_def
        collect_to_json_def to_response_def)
  note defs = ls_prepare_upload_def prepare_upload_v3_def prepare_upload_v2_def send_request_def
    Let_def link wire_def s2 s3 pin_params_def [symmetric]
  show "snd (ls_prepare_upload X V (V3Client c) protocol ip port key payload pin) \<noteq> Inr res"
    by (auto simp: defs)
  show "snd (ls_prepare_upload X V (V2Client (wire X V L D fill N) :: 'c ls_http_client)
      protocol ip port key payload pin) \<noteq> Inr res"
    by (auto simp: defs map_call_def)
  show "snd (ls_prepare_upload X V (V3Client c) protocol ip port key payload pin)
      = Inl (StatusCode \<lparr>sc_status = 404, sc_message = None\<rparr>)" if "protocol = Http"
    using that empty s3
    by (simp add: defs into_error_def outgoing_def from_text_def as_bytes_def of_bytes_def)
  show "snd (ls_prepare_upload X V (V2Client (wire X V L D fill N) :: 'c ls_http_client)
      protocol ip port key payload pin)
    = Inl (StatusCode (if ln_legacy N
        then \<lparr>sc_status = 400, sc_message = Some ''Invalid JSON body''\<rparr>
        else \<lparr>sc_status = 404, sc_message = Some (''Status code: '' @ D 404)\<rparr>))" if "protocol = Http"
    using that s2 by (simp add: defs map_call_def error_reaches_client [OF X])
qed

lemma upload_v3_run:
  assumes link: "c3_client c = wire X V L D fill N"
    and v3: "routes N (target ApiV3 protocol ip port ''/prepare-upload'' [])"
    and peer: "peer_identity V N protocol = Some sid" and empty: "x_json_parse X [] = None"
  shows "\<exists>q. prepare_upload_v3 X V c protocol ip port None payload
    = ([q], Inl (StatusCode \<lparr>sc_status = 404, sc_message = None\<rparr>))"
proof -
  let ?q = "\<lparr>hq_method = Post, hq_url = url_to_string (target ApiV3 protocol ip port ''/prepare-upload'' []),
    hq_headers = [], hq_body = TextBody (to_text X enc_prepare_upload_request_dto payload)\<rparr>"
  have "fst (serve X V L D fill N ?q) = \<lparr>sr_status = 404, sr_headers = [], sr_body = []\<rparr>"
    using routes_path [OF v3] by (simp add: server_defs)
  moreover have "verify_if_https V protocol None (outgoing N r) = Inr ()" for r
    using to_identifier_peer [OF peer, of r] by (auto simp: verify_if_https_def to_identifier_def)
  moreover have "into_error X (outgoing N \<lparr>sr_status = 404, sr_headers = [], sr_body = []\<rparr>)
      = Inl (StatusCode \<lparr>sc_status = 404, sc_message = None\<rparr>)"
    using empty by (simp add: into_error_def outgoing_def from_text_def as_bytes_def of_bytes_def)
  ultimately show ?thesis
    by (intro exI [of _ ?q]) (simp add: prepare_upload_v3_def send_request_def link wire_def)
qed

text \<open>
  C31. What a request can do to the server: only a POST to the version 3 nonce endpoint whose body
  holds a base64 nonce of 16 to 128 bytes changes the state, and only by putting the two nonces
  under the identity of the client that sent it; every other request, malformed nonces included
  (answered with 400, or 500 when the body cannot be read), leaves the state as it was.
\<close>

theorem server_state_changes:
  assumes "handle_request X V L D fill legacy req (Some s) (Some client) = (resp, t)"
  shows "(\<exists>n. sq_method req = Post \<and> sq_path req = ''/api/localsend/v3/nonce''
        \<and> request_nonce X (sq_body req) = Inr n \<and> 16 \<le> length n \<and> length n \<le> 128
        \<and> sr_status resp = 200
        \<and> t = Some (s\<lparr>
          has_received_nonce_map := lru_put L (client_identifier V client) n (has_received_nonce_map s),
          has_generated_nonce_map := lru_put L (client_identifier V client) (fill 32)
            (has_generated_nonce_map s)\<rparr>))
    \<or> (t = Some s \<and> (sq_method req = Post \<and> sq_path req = ''/api/localsend/v3/nonce''
        \<longrightarrow> sr_status resp \<in> {400, 500}))"
proof (cases "sq_method req = Post \<and> sq_path req = ''/api/localsend/v3/nonce''")
  case True
  show ?thesis
  proof (cases "request_nonce X (sq_body req)")
    case (Inl e)
    have "e \<noteq> StatusError code" for code
      using Inl by (cases "sq_body req") (auto simp: request_nonce_def collect_to_json_def bind_ok_def
          ok_or_def map_err_def split: option.splits if_splits sum.splits)
    with assms True Inl show ?thesis
      by (cases e) (auto simp: handle_request_def handle_request_inner_def nonce_exchange_def
          respond_def to_response_def)
  next
    case (Inr n)
    then have "validate_nonce n" by (auto simp: request_nonce_def split: if_splits)
    with assms True Inr show ?thesis
      by (auto simp: handle_request_def handle_request_inner_def nonce_exchange_def respond_def
          validate_nonce_def generate_nonce_def Let_def)
  qed
next
  case False
  with assms show ?thesis
    by (auto simp: handle_request_def handle_request_inner_def split: if_splits sum.splits prod.splits)
qed

section \<open>An example\<close>

definition sample_lru :: "(string \<times> bytes) list lru_cache" where
  "sample_lru = \<lparr>lru_new = (\<lambda>_. []), lru_put = (\<lambda>k v c. (k, v) # c), lru_peek = (\<lambda>k c. map_of c k)\<rparr>"

lemma sample_lru_law: "lru_law sample_lru"
  by (simp add: lru_law_def sample_lru_def)

definition sample_link :: "(string \<times> bytes) list link" where
  "sample_link = \<lparr>ln_state = http_app_state_new sample_lru
       \<lparr>hc_alias = ''s'', hc_version = ''2.1'', hc_device_model = None, hc_device_type = Some Web, hc_token = ''k''\<rparr>,
     ln_client = \<lparr>rc_ip = V4 10 0 0 2, rc_cert = None\<rparr>, ln_legacy = True, ln_cert = None,
     ln_ip = Some ''10.0.0.1'', ln_uri_path = drop (length ''http://h:1'')\<rparr>"

lemma sample_routes: "routes sample_link (target v Http ''h'' 1 path [])"
proof -
  have "show_dec (Suc 0) = ''1''"
    by code_simp
  then show ?thesis
    by (simp add: routes_def sample_link_def url_to_string_def target_def host_part_def query_part_def
        api_path_def)
qed

lemma sample_peer_identity: "peer_identity V sample_link Http = Some ''10.0.0.1''"
  by (simp add: peer_identity_def sample_link_def)

abbreviation sample_fill :: "u8 \<Rightarrow> nat \<Rightarrow> bytes" where
  "sample_fill b \<equiv> (\<lambda>n. replicate n b)"

definition sample_client :: "(string \<times> bytes) list client_v3" where
  "sample_client = \<lparr>c3_client = wire sample_crates sample_x509 sample_lru (\<lambda>_. ''?'') (sample_fill 2) sample_link,
     c3_received_nonce_map = [], c3_generated_nonce_map = []\<rparr>"

lemma sample_client_link:
  "c3_client sample_client = wire sample_crates sample_x509 sample_lru (\<lambda>_. ''?'') (sample_fill 2) sample_link"
  by (simp add: sample_client_def)

lemma nonce_exchange_agrees_witness:
  "\<exists>q c' s'. nonce_v3 sample_crates sample_x509 sample_lru (sample_fill 1) sample_client Http ''h'' 1
      = (([q], Inr (x_b64_encode sample_crates (replicate 32 2))), c')
    \<and> snd (serve sample_crates sample_x509 sample_lru (\<lambda>_. ''?'') (sample_fill 2) sample_link q) = Some s'
    \<and> lru_peek sample_lru ''10.0.0.1'' (c3_generated_nonce_map c') = Some (replicate 32 1)
    \<and> lru_peek sample_lru (client_identifier sample_x509 (ln_client sample_link)) (has_received_nonce_map s')
      = Some (replicate 32 1)"
  using nonce_exchange_agrees [where fillc = "sample_fill 1", OF sample_laws(2,3) sample_lru_law _
      sample_client_link sample_routes sample_peer_identity] by auto

lemma registration_end_to_end_witness:
  "snd (ls_register sample_crates sample_x509 (V3Client sample_client) Http ''h'' 1 sample_register)
    = Inr \<lparr>wk_public_key = None, wk_body = register_body (has_info (ln_state sample_link)) False\<rparr>"
  using registration_end_to_end [OF sample_laws(2) sample_client_link sample_routes sample_routes
      sample_peer_identity, of sample_register]
  by (simp add: sample_link_def http_app_state_new_def)

lemma sample_json_empty: "x_json_parse sample_crates [] = None"
  by (simp add: sample_crates_def)

lemma uploads_are_not_served_witness:
  "snd (ls_prepare_upload sample_crates sample_x509 (V3Client sample_client) Http ''h'' 1 None
      \<lparr>pu_info = sample_register, pu_files = []\<rparr> None)
    = Inl (StatusCode \<lparr>sc_status = 404, sc_message = None\<rparr>)"
  using uploads_are_not_served [OF sample_laws(2) sample_client_link _ sample_routes
      sample_json_empty, of None None "\<lparr>pu_info = sample_register, pu_files = []\<rparr>"]
  by (simp add: pin_params_def sample_routes)

lemma server_state_changes_witness:
  "snd (handle_request sample_crates sample_x509 sample_lru (\<lambda>_. ''?'') (sample_fill 2) True
      \<lparr>sq_method = Get, sq_path = ''/'', sq_body = Inr []\<rparr> (Some (ln_state sample_link))
      (Some (ln_client sample_link))) = Some (ln_state sample_link)"
  using server_state_changes [where X = sample_crates and V = sample_x509 and L = sample_lru
      and D = "\<lambda>_. ''?''" and fill = "sample_fill 2" and legacy = True
      and req = "\<lparr>sq_method = Get, sq_path = ''/'', sq_body = Inr []\<rparr>"
      and s = "ln_state sample_link" and client = "ln_client sample_link", OF prod.collapse [symmetric]]
  by simp

end
