(* ===== verification/Http_Startup.thy ===== *)
theory Http_Startup
  imports Http_Server
begin

text \<open>
  Starting the HTTP server, \<open>start_with_port\<close>, \<open>start_server_with_addr\<close> and \<open>create_tls_config\<close> of
  \<open>core/src/http/server/mod.rs\<close> and the constructor of \<open>client_cert_verifier.rs\<close>. The operations
  of \<open>rustls\<close> and the sockets are parameters.
\<close>

section \<open>The TLS configuration\<close>

record tls_config =
  tls_cert :: string
  tls_private_key :: string

record ('key, 'store, 'verifier, 'acceptor) rustls =
  rl_certificate_from_pem :: "bytes \<Rightarrow> anyhow + bytes"
  rl_private_key_from_pem :: "bytes \<Rightarrow> anyhow + 'key"
  rl_root_store_with :: "bytes \<Rightarrow> anyhow + 'store"  \<comment> \<open>an empty store and one \<open>add\<close>\<close>
  rl_build_verifier :: "'store \<Rightarrow> anyhow + 'verifier"
  rl_with_single_cert :: "'verifier \<Rightarrow> bytes \<Rightarrow> 'key \<Rightarrow> anyhow + 'acceptor"

definition custom_verifier_try_new ::
    "('k, 's, 'v, 'a) rustls \<Rightarrow> string \<Rightarrow> anyhow + 'v" where
  "custom_verifier_try_new R cert =
     bind_ok (rl_certificate_from_pem R (as_bytes cert)) (\<lambda>der.
     bind_ok (rl_root_store_with R der) (\<lambda>root_cert_store.
       rl_build_verifier R root_cert_store))"

definition create_tls_config :: "('k, 's, 'v, 'a) rustls \<Rightarrow> tls_config \<Rightarrow> anyhow + 'a" where
  "create_tls_config R c =
     bind_ok (rl_certificate_from_pem R (as_bytes (tls_cert c))) (\<lambda>cert.
     bind_ok (rl_private_key_from_pem R (as_bytes (tls_private_key c))) (\<lambda>key.
     bind_ok (custom_verifier_try_new R (tls_cert c)) (\<lambda>verifier.
       rl_with_single_cert R verifier cert key)))"

section \<open>Accepting\<close>

text \<open>
  The accept loop over what \<open>accept\<close> returns: an error, or the address of a client and the outcome
  of its handshake (which matters only with TLS). The list ends where the loop still waits; the
  result is \<open>None\<close> then. Every connection is served by a task of its own.
\<close>

fun accept_loop ::
    "bool \<Rightarrow> (anyhow + ip_addr \<times> (string + bytes list option)) list \<Rightarrow> accept_outcome list \<times> anyhow option" where
  "accept_loop tls [] = ([], None)"
| "accept_loop tls (Inl e # cs) = ([], Some e)"
| "accept_loop tls (Inr (remote_ip, handshake) # cs) =
     (let (served, r) = accept_loop tls cs in
      (accept_connection remote_ip (if tls then Some handshake else None) # served, r))"

definition start_server_with_addr ::
    "('k, 's, 'v, 'a) rustls \<Rightarrow> tls_config option \<Rightarrow> anyhow + unit
      \<Rightarrow> (anyhow + ip_addr \<times> (string + bytes list option)) list \<Rightarrow> accept_outcome list \<times> anyhow option" where
  "start_server_with_addr R config bind_result accepts =
     (case bind_result of
        Inl e \<Rightarrow> ([], Some e)
      | Inr _ \<Rightarrow>
         (case config of
            None \<Rightarrow> accept_loop False accepts
          | Some c \<Rightarrow>
             (case create_tls_config R c of
                Inl e \<Rightarrow> ([], Some e)
              | Inr tls_acceptor \<Rightarrow> accept_loop True accepts)))"

text \<open>
  \<open>start_with_port\<close>: its result, the connections accepted on either address and whether the
  spawned task still serves. \<open>stopped\<close> says whether \<open>stop_rx\<close> fired. What a branch did before
  another one ended the \<open>select!\<close> is the prefix of its \<open>accepts\<close> that it got.
\<close>

definition server_returned :: "(anyhow + unit \<Rightarrow> server_event) \<Rightarrow> anyhow option \<Rightarrow> server_event list" where
  "server_returned ev r = (case r of None \<Rightarrow> [] | Some e \<Rightarrow> [ev (Inl e)])"

definition start_with_port ::
    "('k, 's, 'v, 'a) rustls \<Rightarrow> tls_config option \<Rightarrow> anyhow + unit \<Rightarrow> anyhow + unit
      \<Rightarrow> (anyhow + ip_addr \<times> (string + bytes list option)) list
      \<Rightarrow> (anyhow + ip_addr \<times> (string + bytes list option)) list
      \<Rightarrow> bool \<Rightarrow> (anyhow + unit) \<times> accept_outcome list \<times> accept_outcome list \<times> bool" where
  "start_with_port R config bind4 bind6 accepts4 accepts6 stopped =
     (let (served4, r4) = start_server_with_addr R config bind4 accepts4;
          (served6, r6) = start_server_with_addr R config bind6 accepts6;
          events = server_returned Ipv4Returned r4 @ server_returned Ipv6Returned r6
                   @ (if stopped then [StopReceived] else [])
      in (Inr (), served4, served6, still_serving events))"

section \<open>What starting guarantees\<close>

lemma still_serving_iff:
  "still_serving es \<longleftrightarrow> (\<forall>e \<in> set es. \<exists>err. e = Ipv6Returned (Inl err))"
  by (induction es rule: still_serving.induct) auto

text \<open>Over TLS a connection is only served when its handshake succeeded, with the client's own
  first certificate.\<close>

lemma accept_loop_tls:
  assumes "Serving info \<in> set (fst (accept_loop True accepts))"
  shows "\<exists>chain. Inr (rc_ip info, Inr chain) \<in> set accepts
    \<and> rc_cert info = map_option hd chain"
  using assms
  by (induction "True" accepts rule: accept_loop.induct)
    (auto simp: accept_connection_def split: prod.splits sum.splits option.splits list.splits)

text \<open>
  Starting the server always reports success. The IPv4 side decides: the server goes on
  serving exactly as long as nobody stops it and the IPv4 socket could be bound, the TLS
  configuration was accepted and no \<open>accept\<close> on it failed; an IPv6 failure alone is survived.
  A configuration that is refused serves nobody, on either address. The caller learns none of this.
\<close>

theorem start_up_outcome:
  "start_with_port R config bind4 bind6 accepts4 accepts6 stopped
    = (Inr (), fst (start_server_with_addr R config bind4 accepts4),
       fst (start_server_with_addr R config bind6 accepts6),
       \<not> stopped \<and> bind4 = Inr () \<and> (config = None \<or> (\<exists>a. create_tls_config R (the config) = Inr a))
       \<and> Inl ` UNIV \<inter> set accepts4 = {})
   \<and> (\<forall>c e. config = Some c \<and> create_tls_config R c = Inl e \<longrightarrow>
       fst (start_server_with_addr R config bind4 accepts4) = []
       \<and> fst (start_server_with_addr R config bind6 accepts6) = [])"
proof -
  have loop: "snd (accept_loop tls accepts) = None \<longleftrightarrow> Inl ` UNIV \<inter> set accepts = {}" for tls accepts
    by (induction tls accepts rule: accept_loop.induct) (auto split: prod.splits)
  then have result: "snd (start_server_with_addr R config b accepts) = None \<longleftrightarrow> b = Inr ()
      \<and> (config = None \<or> (\<exists>a. create_tls_config R (the config) = Inr a)) \<and> Inl ` UNIV \<inter> set accepts = {}"
    for b accepts
    by (auto simp: start_server_with_addr_def split: sum.split option.split)
  have refused: "fst (start_server_with_addr R (Some c) b accepts) = []"
    if "create_tls_config R c = Inl e" for c e b accepts
    using that by (simp add: start_server_with_addr_def split: sum.split)
  have "still_serving (server_returned Ipv4Returned r4 @ server_returned Ipv6Returned r6
      @ (if stopped then [StopReceived] else [])) \<longleftrightarrow> \<not> stopped \<and> r4 = None" for r4 r6
    by (cases r4; cases r6) (simp_all add: server_returned_def)
  then show ?thesis
    using result [of bind4 accepts4] refused
    by (simp add: start_with_port_def case_prod_beta)
qed

lemma start_up_outcome_witness:
  "let R = \<lparr>rl_certificate_from_pem = Inr, rl_private_key_from_pem = (\<lambda>_. Inl ''no key'' :: anyhow + unit),
         rl_root_store_with = (\<lambda>_. Inr ()), rl_build_verifier = Inr, rl_with_single_cert = (\<lambda>_ _ _. Inr ())\<rparr>
   in start_with_port R (Some \<lparr>tls_cert = ''c'', tls_private_key = ''k''\<rparr>) (Inr ()) (Inr ())
       [Inr (V4 10 0 0 1, Inr (Some [[1]]))] [] False
     = (Inr (), [], [], False)"
proof -
  let ?R = "\<lparr>rl_certificate_from_pem = Inr, rl_private_key_from_pem = (\<lambda>_. Inl ''no key'' :: anyhow + unit),
     rl_root_store_with = (\<lambda>_. Inr ()), rl_build_verifier = Inr, rl_with_single_cert = (\<lambda>_ _ _. Inr ())\<rparr>"
  let ?c = "\<lparr>tls_cert = ''c'', tls_private_key = ''k''\<rparr>"
  have "create_tls_config ?R ?c = Inl ''no key''" by (simp add: create_tls_config_def)
  then show ?thesis
    unfolding Let_def
    using start_up_outcome [of ?R "Some ?c" "Inr ()" "Inr ()"
      "[Inr (V4 10 0 0 1, Inr (Some [[1]]))]" "[]" False] by simp
qed

end
