(* ===== verification/Http_Download.thy ===== *)
theory Http_Download
  imports Http_Client_Properties
begin

text \<open>
  The loop of \<open>download_to_writer\<close>: what the writer holds when it ends, whichever way it ends.
\<close>

text \<open>The bytes of a body up to its first failure.\<close>

fun received :: "(string + bytes) list \<Rightarrow> bytes" where
  "received [] = []"
| "received (Inl e # cs) = []"
| "received (Inr b # cs) = b @ received cs"

text \<open>
  What the documentation of \<open>AsyncWrite\<close> promises: \<open>write_all\<close> appends its argument, or a part of
  it when it fails, and \<open>flush\<close> changes nothing; \<open>content\<close> is what the writer holds.
\<close>

definition append_writer :: "('w, 'z) async_write_scheme \<Rightarrow> ('w \<Rightarrow> bytes) \<Rightarrow> bool" where
  "append_writer A content \<longleftrightarrow>
     (\<forall>w b. \<exists>n. content (fst (aw_write_all A w b)) = content w @ take n b
        \<and> (snd (aw_write_all A w b) = Inr () \<longrightarrow> length b \<le> n))
     \<and> (\<forall>w. content (fst (aw_flush A w)) = content w)"

lemma collect_received: "collect_body cs = Inr bs \<Longrightarrow> received cs = bs"
  by (induction cs arbitrary: bs rule: collect_body.induct) auto

lemma append_writerD:
  assumes "append_writer A content"
  shows "aw_flush A w = (w', fl) \<Longrightarrow> content w' = content w"
    and "aw_write_all A w b = (w', Inr ()) \<Longrightarrow> content w' = content w @ b"
    and "aw_write_all A w b = (w', Inl e) \<Longrightarrow> \<exists>n \<le> length b. content w' = content w @ take n b"
proof -
  obtain n where n: "content (fst (aw_write_all A w b)) = content w @ take n b"
    "snd (aw_write_all A w b) = Inr () \<longrightarrow> length b \<le> n"
    using assms unfolding append_writer_def by blast
  then show "aw_write_all A w b = (w', Inr ()) \<Longrightarrow> content w' = content w @ b" by simp
  from n have "content (fst (aw_write_all A w b)) = content w @ take (min n (length b)) b"
    by (simp add: min_def)
  then show "aw_write_all A w b = (w', Inl e) \<Longrightarrow> \<exists>n \<le> length b. content w' = content w @ take n b"
    by (intro exI [of _ "min n (length b)"]) simp
  show "aw_flush A w = (w', fl) \<Longrightarrow> content w' = content w"
    using assms unfolding append_writer_def by (metis fst_conv)
qed

lemma write_chunks_spec:
  assumes A: "append_writer A content" and "write_chunks A cs w n = (w', r)"
  shows "(\<exists>k. content w' = content w @ take k (received cs))
    \<and> (\<forall>total. r = Inr total \<longrightarrow> collect_body cs = Inr (received cs)
        \<and> content w' = content w @ received cs \<and> total = n + of_nat (length (received cs)))"
  using assms(2)
proof (induction cs arbitrary: w n)
  case Nil
  then show ?case
    using append_writerD(1) [OF A, of w] by (cases "aw_flush A w") (auto split: sum.splits)
next
  case (Cons c cs)
  show ?case
  proof (cases c)
    case (Inl e)
    with Cons.prems show ?thesis by (auto intro: exI [of _ 0])
  next
    case (Inr b)
    obtain w1 r1 where w1: "aw_write_all A w b = (w1, r1)" by force
    show ?thesis
    proof (cases r1)
      case (Inl e)
      with w1 Inr Cons.prems have "w' = w1" "r = Inl (IoError e)" by auto
      moreover obtain k where "k \<le> length b" "content w1 = content w @ take k b"
        using append_writerD(3) [OF A, of w b w1 e] w1 Inl by auto
      ultimately have "content w' = content w @ take k (received (c # cs))"
        using \<open>c = Inr b\<close> by simp
      with \<open>r = _\<close> show ?thesis by blast
    next
      case (Inr u)
      with w1 \<open>c = Inr b\<close> Cons.prems
      have step: "write_chunks A cs w1 (n + of_nat (length b)) = (w', r)" by simp
      have w1': "content w1 = content w @ b" using append_writerD(2) [OF A] w1 Inr by simp
      obtain k where "content w' = content w1 @ take k (received cs)"
        using Cons.IH [OF step] by blast
      then have "content w' = content w @ take (length b + k) (received (c # cs))"
        using \<open>c = Inr b\<close> w1' by simp
      moreover have "collect_body (c # cs) = Inr (received (c # cs))
          \<and> content w' = content w @ received (c # cs) \<and> total = n + of_nat (length (received (c # cs)))"
        if "r = Inr total" for total
      proof -
        have "collect_body cs = Inr (received cs)" "content w' = content w1 @ received cs"
          "total = n + of_nat (length b) + of_nat (length (received cs))"
          using Cons.IH [OF step] that by blast+
        then show ?thesis using \<open>c = Inr b\<close> w1' by simp
      qed
      ultimately show ?thesis by blast
    qed
  qed
qed

text \<open>
  A download writes what was received and nothing else: whatever happens, the writer gains a
  prefix of the bytes that arrived before the first failure; when a length is returned, the body
  was complete, all of it has been written in order, and the length is its length (modulo
  \<open>2 ^ 64\<close>). A refused download (any status but 200) leaves the writer alone.
\<close>

theorem download_writes_body:
  assumes "append_writer A content"
    and "download_to_writer_v2 X A T protocol ip port sid fid w = (sent, w', r)"
    and "T (hd sent) = Inr res"
  shows "(\<exists>k. content w' = content w @ take k (received (hp_chunks res)))
    \<and> (\<forall>total. r = Inr total \<longrightarrow> collect_body (hp_chunks res) = Inr (received (hp_chunks res))
        \<and> content w' = content w @ received (hp_chunks res)
        \<and> total = of_nat (length (received (hp_chunks res))))
    \<and> (hp_status res \<noteq> 200 \<longrightarrow> w' = w)"
proof (cases "hp_status res = 200")
  case True
  with assms(2,3) have "write_chunks A (hp_chunks res) w 0 = (w', r)"
    by (auto simp: download_to_writer_v2_def download_v2_def send_request_def split: sum.splits)
  with write_chunks_spec [OF assms(1)] True show ?thesis by fastforce
next
  case False
  with assms(2,3) have "w' = w \<and> (\<forall>total. r \<noteq> Inr total)"
    by (auto simp: download_to_writer_v2_def download_v2_def send_request_def into_error_def Let_def
        split: sum.splits)
  then show ?thesis by (auto intro: exI [of _ 0])
qed

definition sample_writer :: "bytes async_write" where
  "sample_writer = \<lparr>aw_write_all = (\<lambda>w b. (w @ b, Inr ())), aw_flush = (\<lambda>w. (w, Inr ()))\<rparr>"

lemma sample_writer_append: "append_writer sample_writer (\<lambda>w. w)"
proof -
  have "\<exists>n. w @ b = w @ take n b \<and> length b \<le> n" for w b :: bytes
    by (rule exI [of _ "length b"]) simp
  then show ?thesis by (simp add: append_writer_def sample_writer_def)
qed

lemma download_writes_body_witness:
  "fst (snd (download_to_writer_v2 sample_crates sample_writer
      (\<lambda>_. Inr (sample_response 200 [] [1, 2, 3])) Http ''h'' 1 ''s'' ''f'' [9])) = [9, 1, 2, 3]"
proof -
  let ?T = "\<lambda>_ :: http_request. Inr (sample_response 200 [] [1, 2, 3])"
  let ?d = "download_to_writer_v2 sample_crates sample_writer ?T Http ''h'' 1 ''s'' ''f'' [9]"
  have ok: "snd (snd ?d) = Inr 3"
    by (simp add: download_to_writer_v2_def download_v2_def sample_response_def send_request_def
        sample_writer_def)
  have run: "?d = (fst ?d, fst (snd ?d), Inr 3)"
    by (simp only: ok [symmetric] prod.collapse)
  show ?thesis
    using download_writes_body [OF sample_writer_append run refl] by (simp add: sample_response_def)
qed

end
