(* ===== verification/App_Streams.thy ===== *)
theory App_Streams
  imports Prelude
begin

text \<open>
  The byte streams between the library and the Dart side: \<open>app/rust/src/util/bytes.rs\<close> (collecting
  the chunks of a received file into larger blocks) and \<open>app/rust/src/api/stream.rs\<close> (the sink
  Dart writes an upload into).
\<close>

section \<open>Collecting blocks (util/bytes.rs)\<close>

definition buffer_size :: nat where
  "buffer_size = 1024 * 1024"

text \<open>
  The spawned task of \<open>buffer_receiver\<close>: \<open>sent\<close> is what went into the output channel so far,
  \<open>alive sent\<close> whether its receiver is still there for the next block. A failing send ends the
  task and loses the block; the input channel yields the list and is then closed.
\<close>

fun buffer_loop :: "(bytes list \<Rightarrow> bool) \<Rightarrow> bytes list \<Rightarrow> bytes \<Rightarrow> bytes list \<Rightarrow> bytes list" where
  "buffer_loop alive sent buffer [] =
     (if buffer \<noteq> [] then (if alive sent then sent @ [buffer] else sent) else sent)"
| "buffer_loop alive sent buffer (data # rx_input) =
     (let buffer = buffer @ data in
      if buffer_size \<le> length buffer
      then (if alive sent then buffer_loop alive (sent @ [buffer]) [] rx_input else sent)
      else buffer_loop alive sent buffer rx_input)"

definition buffer_receiver :: "(bytes list \<Rightarrow> bool) \<Rightarrow> bytes list \<Rightarrow> bytes list" where
  "buffer_receiver alive rx_input = buffer_loop alive [] [] rx_input"

text \<open>Nothing is reordered or invented, and with a patient consumer nothing is lost.\<close>

lemma buffer_loop_bytes:
  "\<exists>rest. concat sent @ buffer @ concat rx = concat (buffer_loop alive sent buffer rx) @ rest
     \<and> ((\<forall>xs. alive xs) \<longrightarrow> rest = [])"
proof (induction alive sent buffer rx rule: buffer_loop.induct)
  case (1 alive sent buffer)
  then show ?case by auto
next
  case (2 alive sent buffer data rx)
  then show ?case
    by (cases "buffer_size \<le> length (buffer @ data)"; cases "alive sent") (auto simp: Let_def)
qed

text \<open>Every block but the last is full, and none is empty.\<close>

definition full_blocks :: "bytes list \<Rightarrow> bool" where
  "full_blocks bs \<longleftrightarrow> (\<forall>b \<in> set (butlast bs). buffer_size \<le> length b) \<and> [] \<notin> set bs"

lemma full_blocks_snoc:
  "full_blocks (xs @ [b]) \<longleftrightarrow> (\<forall>x \<in> set xs. buffer_size \<le> length x) \<and> [] \<notin> set xs \<and> b \<noteq> []"
  by (auto simp: full_blocks_def)

lemma buffer_loop_blocks:
  assumes "\<forall>b \<in> set sent. buffer_size \<le> length b"
  shows "full_blocks (buffer_loop alive sent buffer rx)"
proof -
  have nonempty: "b \<noteq> []" if "buffer_size \<le> length b" for b :: bytes
    using that by (auto simp: buffer_size_def)
  from assms show ?thesis
  proof (induction alive sent buffer rx rule: buffer_loop.induct)
    case (1 alive sent buffer)
    moreover from this nonempty have "full_blocks sent"
      by (auto simp: full_blocks_def dest: in_set_butlastD)
    ultimately show ?case
      using nonempty by (auto simp: full_blocks_snoc)
  next
    case (2 alive sent buffer data rx)
    moreover from this nonempty have "full_blocks sent"
      by (auto simp: full_blocks_def dest: in_set_butlastD)
    ultimately show ?case by (auto simp: Let_def)
  qed
qed

text \<open>
  C36. Collecting blocks changes the boundaries of the data only: the blocks joined are a prefix of
  the received chunks joined, all of it if the consumer takes every block; every block but the
  last holds at least a megabyte and none is empty.
\<close>

theorem buffer_receiver_keeps_bytes:
  "(\<exists>rest. concat rx = concat (buffer_receiver alive rx) @ rest \<and> ((\<forall>xs. alive xs) \<longrightarrow> rest = []))
   \<and> full_blocks (buffer_receiver alive rx)"
  using buffer_loop_bytes [of "[]" "[]" rx alive] buffer_loop_blocks [of "[]" alive "[]" rx]
  by (simp add: buffer_receiver_def)

lemma buffer_receiver_keeps_bytes_witness:
  "concat (buffer_receiver (\<lambda>_. True) [[1], [], [2, 3]]) = [1, 2, 3]"
  using buffer_receiver_keeps_bytes [of "[[1], [], [2, 3]]" "\<lambda>_. True"] by auto

section \<open>The upload sink (stream.rs)\<close>

text \<open>
  One channel with room for one chunk: what was accepted and not yet taken, what was taken, and
  whether the receiver exists. \<open>add\<close> waits while the channel is full (\<open>None\<close>).
\<close>

record dart_stream =
  ds_queue :: "bytes list"
  ds_received :: "bytes list"
  ds_open :: bool

definition create_stream :: dart_stream where
  "create_stream = \<lparr>ds_queue = [], ds_received = [], ds_open = True\<rparr>"

definition add_data :: "bytes \<Rightarrow> dart_stream \<Rightarrow> ((string + unit) \<times> dart_stream) option" where
  "add_data data s =
     (if \<not> ds_open s then Some (Inl ''Failed to send data'', s)
      else if length (ds_queue s) < 1 then Some (Inr (), s\<lparr>ds_queue := ds_queue s @ [data]\<rparr>)
      else None)"

text \<open>\<open>recv\<close> of the receiver that the upload polls: the oldest chunk, if one is there.\<close>

definition take_data :: "dart_stream \<Rightarrow> dart_stream" where
  "take_data s = (case ds_queue s of
     [] \<Rightarrow> s | data # q \<Rightarrow> s\<lparr>ds_queue := q, ds_received := ds_received s @ [data]\<rparr>)"

text \<open>
  A schedule of both sides; an \<open>add\<close> that has to wait is repeated later in the schedule.
  \<open>accepted\<close> lists the chunks whose \<open>add\<close> returned \<open>Ok\<close>.
\<close>

datatype stream_event = AddData bytes | TakeData | DropReceiver

fun stream_step :: "stream_event \<Rightarrow> dart_stream \<Rightarrow> bytes list \<times> dart_stream" where
  "stream_step (AddData data) s =
     (case add_data data s of
        Some (Inr _, s') \<Rightarrow> ([data], s')
      | Some (Inl _, s') \<Rightarrow> ([], s')
      | None \<Rightarrow> ([], s))"
| "stream_step TakeData s = ([], if ds_open s then take_data s else s)"
| "stream_step DropReceiver s = ([], s\<lparr>ds_open := False\<rparr>)"

fun stream_run :: "stream_event list \<Rightarrow> dart_stream \<Rightarrow> bytes list \<times> dart_stream" where
  "stream_run [] s = ([], s)"
| "stream_run (e # es) s =
     (let (xs, s') = stream_step e s; (ys, s'') = stream_run es s' in (xs @ ys, s''))"

lemma stream_step_fifo:
  "stream_step e s = (xs, s') \<Longrightarrow>
    ds_received s' @ ds_queue s' = ds_received s @ ds_queue s @ xs
    \<and> (length (ds_queue s) \<le> 1 \<longrightarrow> length (ds_queue s') \<le> 1)"
  by (cases e) (auto simp: add_data_def take_data_def split: if_splits list.splits)

lemma stream_run_fifo:
  "stream_run es s = (xs, s') \<Longrightarrow>
    ds_received s' @ ds_queue s' = ds_received s @ ds_queue s @ xs
    \<and> (length (ds_queue s) \<le> 1 \<longrightarrow> length (ds_queue s') \<le> 1)"
proof (induction es arbitrary: s xs s')
  case (Cons e es)
  obtain x t where t: "stream_step e s = (x, t)" by force
  obtain y u where u: "stream_run es t = (y, u)" by force
  show ?case
    using Cons.prems Cons.IH [OF u] stream_step_fifo [OF t] by (auto simp: t u)
qed simp

lemma created_stream_fifo:
  assumes "stream_run es create_stream = (accepted, s)"
  shows "ds_received s @ ds_queue s = accepted \<and> length (ds_queue s) \<le> 1"
  using stream_run_fifo [OF assms] by (simp add: create_stream_def)

end
