(* ===== verification/App_Controllers.thy ===== *)
theory App_Controllers
  imports Rtc_Connection Signaling_Client App_Streams
begin

text \<open>
  The interface of the app to a WebRTC transfer, \<open>app/rust/src/api/webrtc.rs\<close>: the connection to
  the signaling server, the two background functions and the controllers through which the user's
  answers reach them. A handle that can be used once is an \<open>Option\<close> behind a mutex, emptied by
  \<open>take\<close>; here it is an option whose value says what is at the other end.
\<close>

section \<open>Handles\<close>

text \<open>
  Awaiting a \<open>oneshot::Receiver\<close> taken out of its handle: \<open>Some (Some x)\<close> is a handle whose
  sender sends \<open>x\<close>, \<open>Some None\<close> one whose sender is dropped, \<open>None\<close> a used one.
\<close>

definition listen_once ::
    "anyhow \<Rightarrow> anyhow \<Rightarrow> 'a option option \<Rightarrow> (anyhow + 'a) \<times> 'a option option" where
  "listen_once taken closed handle =
     (case handle of
        None \<Rightarrow> (Inl taken, None)
      | Some answer \<Rightarrow> (ok_or closed answer, None))"

text \<open>
  Sending into a \<open>oneshot::Sender\<close> taken out of its handle: \<open>Some alive\<close> is a handle and whether
  its receiver still exists. The last component is the value that arrives.
\<close>

definition send_once ::
    "anyhow \<Rightarrow> anyhow \<Rightarrow> 'a \<Rightarrow> bool option \<Rightarrow> (anyhow + unit) \<times> bool option \<times> 'a option" where
  "send_once taken closed x handle =
     (case handle of
        None \<Rightarrow> (Inl taken, None, None)
      | Some alive \<Rightarrow> if alive then (Inr (), None, Some x) else (Inl closed, None, None))"

text \<open>
  Listening to a whole stream: what is put into the sink (\<open>add_error\<close> on the left), the handle
  being a channel's remaining content.
\<close>

definition stream_once :: "anyhow \<Rightarrow> 'a list option \<Rightarrow> (anyhow + 'a) list \<times> 'a list option" where
  "stream_once taken handle =
     (case handle of None \<Rightarrow> ([Inl taken], None) | Some items \<Rightarrow> (map Inr items, None))"

section \<open>The sending side\<close>

record send_controller =
  sc_status_rx :: "rtc_status list"
  sc_selected_rx :: "string list option option"
  sc_error_rx :: "rtc_file_error list"
  sc_pin_tx :: "bool option"
  sc_send_open :: bool
  sc_files_sent :: "string list"

text \<open>Here the stream is borrowed, not taken: listening again continues with what comes later.\<close>

definition sc_listen_status :: "send_controller \<Rightarrow> (anyhow + rtc_status) list \<times> send_controller" where
  "sc_listen_status c = (map Inr (sc_status_rx c), c\<lparr>sc_status_rx := []\<rparr>)"

definition sc_listen_selected_files :: "send_controller \<Rightarrow> (anyhow + string list) \<times> send_controller" where
  "sc_listen_selected_files c =
     (let (r, h) = listen_once ''Selected files already received'' ''Selected files channel closed''
            (sc_selected_rx c)
      in (r, c\<lparr>sc_selected_rx := h\<rparr>))"

definition sc_listen_error :: "send_controller \<Rightarrow> (anyhow + rtc_file_error) list \<times> send_controller" where
  "sc_listen_error c = (map Inr (sc_error_rx c), c\<lparr>sc_error_rx := []\<rparr>)"

definition sc_send_pin ::
    "string \<Rightarrow> send_controller \<Rightarrow> (anyhow + unit) \<times> send_controller \<times> string option" where
  "sc_send_pin pin c =
     (let (r, h, v) = send_once ''Pin already sent'' ''Pin channel closed'' pin (sc_pin_tx c)
      in (r, c\<lparr>sc_pin_tx := h\<rparr>, v))"

text \<open>
  The background task of a controller: the sender of a new PIN request goes into the handle, and
  one that is still there is dropped.
\<close>

definition sc_forward_pin :: "send_controller \<Rightarrow> send_controller" where
  "sc_forward_pin c = c\<lparr>sc_pin_tx := Some True\<rparr>"

text \<open>A file sender is the stream whose other end goes to the sending task.\<close>

definition sc_send_file :: "string \<Rightarrow> send_controller \<Rightarrow> (anyhow + dart_stream) \<times> send_controller" where
  "sc_send_file file_id c =
     (if sc_send_open c then (Inr create_stream, c\<lparr>sc_files_sent := sc_files_sent c @ [file_id]\<rparr>)
      else (Inl ''channel closed'', c))"

definition file_sender_send :: "bytes \<Rightarrow> dart_stream \<Rightarrow> ((anyhow + unit) \<times> dart_stream) option" where
  "file_sender_send data s =
     map_option (\<lambda>(r, s'). (map_err (\<lambda>_. ''channel closed'') r, s')) (add_data data s)"

section \<open>The receiving side\<close>

record receive_controller =
  rv_status_rx :: "rtc_status list option"
  rv_files_rx :: "file_dto list option option"
  rv_selected_tx :: "bool option"
  rv_error_rx :: "rtc_file_error list option"
  rv_pin_tx :: "bool option"
  rv_receiving_rx :: "rtc_file list option"
  rv_status_open :: bool
  rv_statuses :: "rtc_send_file_response list"

definition rv_listen_status :: "receive_controller \<Rightarrow> (anyhow + rtc_status) list \<times> receive_controller" where
  "rv_listen_status c =
     (let (r, h) = stream_once ''Status stream already listened to'' (rv_status_rx c)
      in (r, c\<lparr>rv_status_rx := h\<rparr>))"

definition rv_listen_files :: "receive_controller \<Rightarrow> (anyhow + file_dto list) \<times> receive_controller" where
  "rv_listen_files c =
     (let (r, h) = listen_once ''Files already received'' ''Files channel closed'' (rv_files_rx c)
      in (r, c\<lparr>rv_files_rx := h\<rparr>))"

definition rv_send_pin ::
    "string \<Rightarrow> receive_controller \<Rightarrow> (anyhow + unit) \<times> receive_controller \<times> string option" where
  "rv_send_pin pin c =
     (let (r, h, v) = send_once ''Pin already sent'' ''Pin channel closed'' pin (rv_pin_tx c)
      in (r, c\<lparr>rv_pin_tx := h\<rparr>, v))"

definition rv_forward_pin :: "receive_controller \<Rightarrow> receive_controller" where
  "rv_forward_pin c = c\<lparr>rv_pin_tx := Some True\<rparr>"

text \<open>A transfer that ends drops its end of the handles.\<close>

definition rv_transfer_ends :: "receive_controller \<Rightarrow> receive_controller" where
  "rv_transfer_ends c = c\<lparr>rv_selected_tx := map_option (\<lambda>_. False) (rv_selected_tx c),
     rv_pin_tx := map_option (\<lambda>_. False) (rv_pin_tx c), rv_status_open := False\<rparr>"

definition rv_send_selection ::
    "string list \<Rightarrow> receive_controller \<Rightarrow> (anyhow + unit) \<times> receive_controller \<times> string list option option"
  where
  "rv_send_selection selection c =
     (let (r, h, v) = send_once ''Selected files already sent'' ''Selected files channel closed''
            (Some selection) (rv_selected_tx c)
      in (r, c\<lparr>rv_selected_tx := h\<rparr>, v))"

definition rv_decline ::
    "receive_controller \<Rightarrow> (anyhow + unit) \<times> receive_controller \<times> string list option option" where
  "rv_decline c =
     (let (r, h, v) = send_once ''Selected files already sent'' ''Selected files channel closed''
            None (rv_selected_tx c)
      in (r, c\<lparr>rv_selected_tx := h\<rparr>, v))"

definition rv_listen_error ::
    "receive_controller \<Rightarrow> (anyhow + rtc_file_error) list \<times> receive_controller" where
  "rv_listen_error c =
     (let (r, h) = stream_once ''Error stream already listened to'' (rv_error_rx c)
      in (r, c\<lparr>rv_error_rx := h\<rparr>))"

text \<open>A received file as the app gets it: its id and the one-shot handle of its data.\<close>

record file_receiver =
  fr_file_id :: string
  fr_binary_rx :: "bytes list option"

definition file_receiver_of :: "rtc_file \<Rightarrow> file_receiver" where
  "file_receiver_of file = \<lparr>fr_file_id = rf_file_id file, fr_binary_rx = Some (rf_binary file)\<rparr>"

definition rv_listen_receiving ::
    "receive_controller \<Rightarrow> (anyhow + file_receiver) list \<times> receive_controller" where
  "rv_listen_receiving c =
     (let (r, h) = stream_once ''Receiving stream already listened to'' (rv_receiving_rx c)
      in (map (\<lambda>x. case x of Inl e \<Rightarrow> Inl e | Inr file \<Rightarrow> Inr (file_receiver_of file)) r,
          c\<lparr>rv_receiving_rx := h\<rparr>))"

definition rv_send_file_status ::
    "rtc_send_file_response \<Rightarrow> receive_controller \<Rightarrow> (anyhow + unit) \<times> receive_controller" where
  "rv_send_file_status status c =
     (if rv_status_open c then (Inr (), c\<lparr>rv_statuses := rv_statuses c @ [status]\<rparr>)
      else (Inl ''channel closed'', c))"

definition get_file_id :: "file_receiver \<Rightarrow> string" where
  "get_file_id f = fr_file_id f"

text \<open>The blocks that reach the sink; \<open>receive\<close> itself takes every block the collector sends.\<close>

definition fr_receive :: "file_receiver \<Rightarrow> (anyhow + bytes list) \<times> file_receiver" where
  "fr_receive f =
     (case fr_binary_rx f of
        None \<Rightarrow> (Inl ''File receiver listened to'', f)
      | Some rx \<Rightarrow> (Inr (buffer_receiver (\<lambda>_. True) rx), f\<lparr>fr_binary_rx := None\<rparr>))"

section \<open>The contract of a one-shot handle\<close>

text \<open>
  An operation with commands \<open>'c\<close> on a state \<open>'st\<close> that is ready once: a call on a ready state
  uses it up, and a call on one that is not fails with a fixed error and changes nothing.
\<close>

fun run_calls :: "('c \<Rightarrow> 'st \<Rightarrow> 'r \<times> 'st \<times> 'v option) \<Rightarrow> 'c list \<Rightarrow> 'st \<Rightarrow> ('r \<times> 'v option) list" where
  "run_calls call [] s = []"
| "run_calls call (c # cs) s = (let (r, s', v) = call c s in (r, v) # run_calls call cs s')"

locale one_shot =
  fixes call :: "'c \<Rightarrow> 'st \<Rightarrow> ('e + 'a) \<times> 'st \<times> 'v option"
    and ready :: "'st \<Rightarrow> bool"
    and taken :: 'e
  assumes uses_up: "\<not> ready (fst (snd (call c s)))"
    and refuses: "\<not> ready s \<Longrightarrow> call c s = (Inl taken, s, None)"
begin

lemma spent: "\<not> ready s \<Longrightarrow> run_calls call cs s = replicate (length cs) (Inl taken, None)"
  by (induction cs) (simp_all add: refuses)

lemma only_first:
  "run_calls call (c # cs) s
     = (fst (call c s), snd (snd (call c s))) # replicate (length cs) (Inl taken, None)"
  using uses_up [of c s] by (cases "call c s") (simp add: spent)

end

text \<open>Selecting and declining are the two commands of one handle.\<close>

definition decide ::
    "string list option \<Rightarrow> receive_controller \<Rightarrow> (anyhow + unit) \<times> receive_controller \<times> string list option option"
  where
  "decide choice c = (case choice of Some selection \<Rightarrow> rv_send_selection selection c | None \<Rightarrow> rv_decline c)"

definition no_value :: "'r \<times> 'st \<Rightarrow> 'r \<times> 'st \<times> unit option" where
  "no_value x = (fst x, snd x, None)"

lemmas handle_defs = listen_once_def send_once_def stream_once_def no_value_def decide_def
  rv_send_selection_def rv_decline_def rv_send_pin_def sc_send_pin_def rv_listen_files_def
  sc_listen_selected_files_def fr_receive_def

interpretation decision: one_shot decide "\<lambda>c. rv_selected_tx c \<noteq> None" "''Selected files already sent''"
  by unfold_locales (auto simp: handle_defs Let_def split: option.splits)

interpretation files: one_shot "\<lambda>_ :: unit. no_value \<circ> rv_listen_files" "\<lambda>c. rv_files_rx c \<noteq> None"
    "''Files already received''"
  by unfold_locales (auto simp: handle_defs Let_def split: option.splits)

interpretation selected: one_shot "\<lambda>_ :: unit. no_value \<circ> sc_listen_selected_files"
    "\<lambda>c. sc_selected_rx c \<noteq> None" "''Selected files already received''"
  by unfold_locales (auto simp: handle_defs Let_def split: option.splits)

interpretation content: one_shot "\<lambda>_ :: unit. no_value \<circ> fr_receive" "\<lambda>f. fr_binary_rx f \<noteq> None"
    "''File receiver listened to''"
  by unfold_locales (auto simp: handle_defs split: option.splits)

interpretation sender_pin: one_shot sc_send_pin "\<lambda>c. sc_pin_tx c \<noteq> None" "''Pin already sent''"
  by unfold_locales (auto simp: handle_defs Let_def split: option.splits)

interpretation receiver_pin: one_shot rv_send_pin "\<lambda>c. rv_pin_tx c \<noteq> None" "''Pin already sent''"
  by unfold_locales (auto simp: handle_defs Let_def split: option.splits)

section \<open>What the app can do with its handles\<close>

text \<open>
  The user decides once: of any sequence of selections and refusals made through a receive
  controller whose transfer waits for one, the first is the one that arrives and all others fail
  with an error; the same goes for the PIN of either controller.
\<close>

theorem decision_is_final:
  assumes "rv_selected_tx c = Some True" and "rv_pin_tx c = Some True" and "sc_pin_tx d = Some True"
  shows "run_calls decide (choice # choices) c
      = (Inr (), Some choice) # replicate (length choices) (Inl ''Selected files already sent'', None)
    \<and> run_calls rv_send_pin (pin # pins) c
      = (Inr (), Some pin) # replicate (length pins) (Inl ''Pin already sent'', None)
    \<and> run_calls sc_send_pin (pin # pins) d
      = (Inr (), Some pin) # replicate (length pins) (Inl ''Pin already sent'', None)"
proof (intro conjI)
  show "run_calls decide (choice # choices) c
      = (Inr (), Some choice) # replicate (length choices) (Inl ''Selected files already sent'', None)"
    unfolding decision.only_first using assms by (simp add: handle_defs split: option.split)
  show "run_calls rv_send_pin (pin # pins) c
      = (Inr (), Some pin) # replicate (length pins) (Inl ''Pin already sent'', None)"
    unfolding receiver_pin.only_first using assms by (simp add: handle_defs)
  show "run_calls sc_send_pin (pin # pins) d
      = (Inr (), Some pin) # replicate (length pins) (Inl ''Pin already sent'', None)"
    unfolding sender_pin.only_first using assms by (simp add: handle_defs)
qed

definition sample_controller :: receive_controller where
  "sample_controller = \<lparr>rv_status_rx = Some [], rv_files_rx = Some None, rv_selected_tx = Some True,
     rv_error_rx = Some [], rv_pin_tx = Some True, rv_receiving_rx = Some [], rv_status_open = True,
     rv_statuses = []\<rparr>"

lemma decision_is_final_witness:
  "run_calls decide [None, Some [''f'']] sample_controller
     = [(Inr (), Some None), (Inl ''Selected files already sent'', None)]"
  using decision_is_final [of sample_controller "\<lparr>sc_status_rx = [], sc_selected_rx = None,
      sc_error_rx = [], sc_pin_tx = Some True, sc_send_open = True, sc_files_sent = []\<rparr>"
      None "[Some [''f'']]" "''1''" "[]"]
  by (simp add: sample_controller_def)

end
