(* ===== verification/App_Session.thy ===== *)
theory App_Session
  imports App_Controllers "HOL-Library.Multiset" "HOL-Library.Sublist"
begin

text \<open>
  The background work of \<open>app/rust/src/api/webrtc.rs\<close>: registering with the signaling server, the
  tasks that \<open>send_offer\<close> and \<open>accept_offer\<close> spawn, and the desk between the PIN requests of a
  transfer and the user who answers them.
\<close>

section \<open>Registering\<close>

record proposing_client_info =
  pi_alias :: string
  pi_version :: string
  pi_device_model :: "string option"
  pi_device_type :: "device_type option"

definition sign_info ::
    "('z) crates_scheme \<Rightarrow> anyhow + u64 \<Rightarrow> proposing_client_info \<Rightarrow> signing_token_key
      \<Rightarrow> anyhow + client_info_without_id" where
  "sign_info X now self signing_key =
     bind_ok (generate_token_timestamp X now signing_key) (\<lambda>token.
       Inr \<lparr>cw_alias = pi_alias self, cw_version = pi_version self,
            cw_device_model = pi_device_model self, cw_device_type = pi_device_type self,
            cw_token = token\<rparr>)"

text \<open>
  What reaches the sink: an error, or the messages the listener forwards. \<open>net\<close> is the network,
  from the URI to the frames of the connection; \<open>None\<close> is the panic of \<open>SignalingConnection::connect\<close>.
\<close>

definition app_connect ::
    "('z) crates_scheme \<Rightarrow> key_parsers \<Rightarrow> anyhow + u64 \<Rightarrow> (string \<Rightarrow> anyhow + ws_frame list) \<Rightarrow> string
      \<Rightarrow> proposing_client_info \<Rightarrow> string \<Rightarrow> (anyhow + ws_server_message) list option" where
  "app_connect X P now net uri info private_key =
     (case parse_private_key P private_key of
        Inl _ \<Rightarrow> Some [Inl ''Invalid private key'']
      | Inr signing_key \<Rightarrow>
         (case sign_info X now info signing_key of
            Inl _ \<Rightarrow> Some [Inl ''Invalid client info'']
          | Inr client_info \<Rightarrow>
             (case net (connect_uri X uri client_info) of
                Inl e \<Rightarrow> Some [Inl e]
              | Inr frames \<Rightarrow>
                  map_option (\<lambda>connection. map Inr (sg_rx connection)) (connect X frames))))"

text \<open>\<open>update_info\<close> hands the new information to the connection's writing task.\<close>

definition update_info ::
    "bool \<Rightarrow> client_info_without_id \<Rightarrow> 'cb managed \<Rightarrow> string + 'cb managed" where
  "update_info tx_open info inner = client_send_update tx_open info inner"

section \<open>The spawned transfers\<close>

record expecting_public_key =
  ep_public_key :: string
  ep_kind :: string

definition expected_key ::
    "key_parsers \<Rightarrow> expecting_public_key option \<Rightarrow> anyhow + verifying_token_key option" where
  "expected_key P expecting =
     (case expecting of
        Some key \<Rightarrow> bind_ok (parse_public_key P (ep_public_key key) (ep_kind key)) (\<lambda>k. Inr (Some k))
      | None \<Rightarrow> Inr None)"

text \<open>The body of both spawned tasks: an error of the transfer is sent to the status stream.\<close>

definition report_error :: "env \<Rightarrow> unit prog \<Rightarrow> unit prog" where
  "report_error E transfer =
     bindP (attempt transfer) (\<lambda>result. case result of
       Inl e \<Rightarrow> status_try E (StError e)
     | Inr _ \<Rightarrow> ret ())"

text \<open>The pairing request of a transfer is always answered with \<open>false\<close>.\<close>

definition no_pairing :: "env \<Rightarrow> env" where
  "no_pairing E = E\<lparr>en_pair := (\<lambda>_. Answered False)\<rparr>"

text \<open>
  The background task that \<open>send_offer\<close> spawns, or the error it returns at once. \<open>outcome\<close> says
  what the \<open>select!\<close> of the transfer sees, given the parsed keys.
\<close>

definition app_send_offer ::
    "env \<Rightarrow> ('z) crates_scheme \<Rightarrow> zlib \<Rightarrow> key_parsers \<Rightarrow> 'd peer_env \<Rightarrow> uuid \<Rightarrow> string
      \<Rightarrow> expecting_public_key option
      \<Rightarrow> (env \<Rightarrow> signing_token_key \<Rightarrow> verifying_token_key option \<Rightarrow> select_result) \<Rightarrow> anyhow + unit prog"
  where
  "app_send_offer E X Z P C target_id private_key expecting outcome =
     bind_ok (parse_private_key P private_key) (\<lambda>signing_key.
     bind_ok (expected_key P expecting) (\<lambda>key.
       Inr (report_error E
         (send_offer E X Z C target_id (outcome (no_pairing E) signing_key key)))))"

definition app_accept_offer ::
    "env \<Rightarrow> ('z) crates_scheme \<Rightarrow> zlib \<Rightarrow> key_parsers \<Rightarrow> 'd peer_env \<Rightarrow> ws_server_sdp_message \<Rightarrow> string
      \<Rightarrow> expecting_public_key option
      \<Rightarrow> (env \<Rightarrow> signing_token_key \<Rightarrow> verifying_token_key option \<Rightarrow> select_result) \<Rightarrow> anyhow + unit prog"
  where
  "app_accept_offer E X Z P C offer private_key expecting outcome =
     bind_ok (parse_private_key P private_key) (\<lambda>signing_key.
     bind_ok (expected_key P expecting) (\<lambda>key.
       Inr (report_error E (accept_offer E X Z C offer (outcome E signing_key key)))))"

section \<open>The PIN desk\<close>

text \<open>
  A PIN request of \<open>handle_pin\<close> is a one-shot sender that travels through the channel \<open>pin_tx\<close>
  (one place) to the task that takes it out, locks the controller's handle and puts it there, from
  where \<open>send_pin\<close> takes it. Requests are numbered; \<open>waiting n\<close> says whether request \<open>n\<close> is still
  awaited when a PIN is sent. Putting a new request into the handle drops the one that is in it.
\<close>

datatype pin_event = PinRequested nat | PinTaken | PinForwarded | PinEntered string

record pin_desk =
  pd_queue :: "nat list"
  pd_task :: "nat option"
  pd_handle :: "nat option"
  pd_answers :: "(nat \<times> string) list"
  pd_lost :: "nat list"
  pd_results :: "(anyhow + unit) list"

definition pin_desk_new :: pin_desk where
  "pin_desk_new = \<lparr>pd_queue = [], pd_task = None, pd_handle = None, pd_answers = [], pd_lost = [],
     pd_results = []\<rparr>"

fun pin_step :: "(nat \<Rightarrow> bool) \<Rightarrow> pin_event \<Rightarrow> pin_desk \<Rightarrow> pin_desk option" where
  "pin_step waiting (PinRequested n) d =
     (if length (pd_queue d) < 1 then Some (d\<lparr>pd_queue := pd_queue d @ [n]\<rparr>) else None)"
| "pin_step waiting PinTaken d =
     (case (pd_task d, pd_queue d) of
        (None, n # ns) \<Rightarrow> Some (d\<lparr>pd_queue := ns, pd_task := Some n\<rparr>)
      | _ \<Rightarrow> None)"
| "pin_step waiting PinForwarded d =
     (case pd_task d of
        None \<Rightarrow> None
      | Some n \<Rightarrow> Some (d\<lparr>pd_task := None, pd_handle := Some n,
          pd_lost := pd_lost d @ (case pd_handle d of Some m \<Rightarrow> [m] | None \<Rightarrow> [])\<rparr>))"
| "pin_step waiting (PinEntered pin) d =
     (let (r, h, v) = send_once ''Pin already sent'' ''Pin channel closed'' pin
            (map_option waiting (pd_handle d))
      in Some (d\<lparr>pd_handle := None, pd_results := pd_results d @ [r],
           pd_answers := pd_answers d @ (case (pd_handle d, v) of
             (Some n, Some p) \<Rightarrow> [(n, p)] | _ \<Rightarrow> []),
           pd_lost := pd_lost d @ (case (pd_handle d, v) of (Some n, None) \<Rightarrow> [n] | _ \<Rightarrow> [])\<rparr>))"

fun pin_run :: "(nat \<Rightarrow> bool) \<Rightarrow> pin_event list \<Rightarrow> pin_desk \<Rightarrow> pin_desk option" where
  "pin_run waiting [] d = Some d"
| "pin_run waiting (e # es) d = Option.bind (pin_step waiting e d) (pin_run waiting es)"

fun requests :: "pin_event list \<Rightarrow> nat list" where
  "requests [] = []"
| "requests (PinRequested n # es) = n # requests es"
| "requests (e # es) = requests es"

fun entered :: "pin_event list \<Rightarrow> string list" where
  "entered [] = []"
| "entered (PinEntered p # es) = p # entered es"
| "entered (e # es) = entered es"

primrec option_list :: "'a option \<Rightarrow> 'a list" where
  "option_list None = []"
| "option_list (Some x) = [x]"

text \<open>Where the requests are: on the way, with the task, in the handle, answered, or lost.\<close>

definition pin_requests :: "pin_desk \<Rightarrow> nat multiset" where
  "pin_requests d = mset (pd_queue d) + mset (map fst (pd_answers d)) + mset (pd_lost d)
     + mset (option_list (pd_handle d)) + mset (option_list (pd_task d))"

text \<open>The PINs whose \<open>send_pin\<close> returned success, of those entered.\<close>

definition sent_pins :: "string list \<Rightarrow> (anyhow + unit) list \<Rightarrow> string list" where
  "sent_pins pins results = [p. (p, r) \<leftarrow> zip pins results, r = Inr ()]"

lemma sent_pins_snoc [simp]:
  "length pins = length results \<Longrightarrow>
   sent_pins (pins @ [p]) (results @ [r]) = sent_pins pins results @ (if r = Inr () then [p] else [])"
  by (simp add: sent_pins_def)

definition desk_ok :: "(nat \<Rightarrow> bool) \<Rightarrow> pin_event list \<Rightarrow> pin_desk \<Rightarrow> bool" where
  "desk_ok waiting es d \<longleftrightarrow> pin_requests d = mset (requests es)
     \<and> length (entered es) = length (pd_results d)
     \<and> map snd (pd_answers d) = sent_pins (entered es) (pd_results d)
     \<and> subseq (map fst (pd_answers d) @ option_list (pd_handle d) @ option_list (pd_task d) @ pd_queue d)
         (requests es)
     \<and> (\<forall>n \<in> set (map fst (pd_answers d)). waiting n)"

lemma requests_append [simp]: "requests (es @ fs) = requests es @ requests fs"
  by (induction es rule: requests.induct) auto

lemma entered_append [simp]: "entered (es @ fs) = entered es @ entered fs"
  by (induction es rule: entered.induct) auto

lemma subseq_without: "subseq (xs @ ys @ zs) us \<Longrightarrow> subseq (xs @ zs) us"
  by (erule subseq_order.order_trans [rotated]) (simp add: subseq_append' list_emb_append2)

lemma pin_step_ok:
  assumes "desk_ok waiting es d" and "pin_step waiting e d = Some d'"
  shows "desk_ok waiting (es @ [e]) d'"
proof (cases e)
  case (PinRequested n)
  with assms show ?thesis
    by (auto simp: desk_ok_def pin_requests_def dest: list_emb_append_mono [of "(=)" _ "requests es" "[n]" "[n]"]
      split: if_splits)
next
  case PinTaken
  with assms show ?thesis
    by (auto simp: desk_ok_def pin_requests_def split: list.splits option.splits)
next
  case PinForwarded
  with assms show ?thesis
    using subseq_without [of "map fst (pd_answers d)" "option_list (pd_handle d)"]
    by (auto simp: desk_ok_def pin_requests_def split: list.splits option.splits)
next
  case (PinEntered p)
  with assms show ?thesis
    using subseq_without [of "map fst (pd_answers d)" "option_list (pd_handle d)"]
    by (cases "pd_handle d"; cases "waiting (the (pd_handle d))")
      (auto simp: desk_ok_def pin_requests_def send_once_def)
qed

lemma pin_run_ok:
  assumes "desk_ok waiting es d" and "pin_run waiting fs d = Some d'"
  shows "desk_ok waiting (es @ fs) d'"
  using assms
proof (induction fs arbitrary: es d)
  case (Cons e fs)
  then obtain d1 where "pin_step waiting e d = Some d1" "pin_run waiting fs d1 = Some d'"
    by (auto simp: bind_eq_Some_conv)
  with Cons pin_step_ok show ?case by fastforce
qed simp

text \<open>
  C32. Whatever the order in which requests arrive, are taken out, are put into the handle and PINs are
  typed: every request of a run is in one place (on its way, in the handle, answered or lost), the
  answered ones are awaited, in the order of the requests and each answered once, and the answers are exactly the
  PINs whose \<open>send_pin\<close> returned success, in the order in which they were typed. A PIN typed before its
  request has reached the handle is refused although none was sent, even when the request was
  announced by \<open>PinRequired\<close> before.
\<close>

theorem pins_reach_requests:
  assumes "pin_run waiting es pin_desk_new = Some d" and "distinct (requests es)"
  shows "pin_requests d = mset (requests es)
    \<and> distinct (map fst (pd_answers d) @ pd_lost d @ pd_queue d)
    \<and> subseq (map fst (pd_answers d)) (requests es) \<and> (\<forall>n \<in> set (map fst (pd_answers d)). waiting n)
    \<and> length (pd_results d) = length (entered es)
    \<and> map snd (pd_answers d) = [p. (p, r) \<leftarrow> zip (entered es) (pd_results d), r = Inr ()]
    \<and> pin_run waiting [PinRequested m, PinEntered p, PinTaken, PinForwarded] pin_desk_new
      = Some \<lparr>pd_queue = [], pd_task = None, pd_handle = Some m, pd_answers = [], pd_lost = [],
          pd_results = [Inl ''Pin already sent'']\<rparr>"
proof -
  have "desk_ok waiting [] pin_desk_new"
    by (simp add: desk_ok_def pin_requests_def pin_desk_new_def sent_pins_def)
  from pin_run_ok [OF this assms(1)] have d: "desk_ok waiting es d" by simp
  then have all: "pin_requests d = mset (requests es)" by (simp add: desk_ok_def)
  let ?places = "map fst (pd_answers d) @ pd_lost d @ pd_queue d"
  have sub: "mset ?places \<subseteq># pin_requests d"
    by (simp add: pin_requests_def ac_simps)
  then have "distinct ?places"
    using assms(2) all
    by (metis distinct_append mset_append mset_eq_imp_distinct_iff subset_mset.le_iff_add ex_mset)
  moreover have "subseq (map fst (pd_answers d)) (requests es)"
    using d subseq_without [of "map fst (pd_answers d)" _ "[]" "requests es"] by (auto simp: desk_ok_def)
  ultimately show ?thesis
    using d by (auto simp: desk_ok_def pin_desk_new_def send_once_def sent_pins_def)
qed

lemma pins_reach_requests_witness:
  "\<exists>d. pin_run (\<lambda>_. True) [PinRequested 0, PinTaken, PinForwarded, PinEntered ''1''] pin_desk_new = Some d
    \<and> map snd (pd_answers d) = [''1'']"
proof -
  obtain d where run: "pin_run (\<lambda>_. True) [PinRequested 0, PinTaken, PinForwarded, PinEntered ''1'']
      pin_desk_new = Some d" and "pd_results d = [Inr ()]"
    by (auto simp: pin_desk_new_def send_once_def)
  then show ?thesis using pins_reach_requests [OF run] by simp
qed

end
