(* ===== verification/App_Properties.thy ===== *)
theory App_Properties
  imports App_Session
begin

text \<open>
  What the user of the app learns: a transfer that ends reports how it ended, pairing is always
  declined, and the token the app registers with is one its peers can check.
\<close>

section \<open>A transfer that ends reports it\<close>

text \<open>The functions around the tasks fail with errors, they do not panic.\<close>

definition no_panic :: "'a prog \<Rightarrow> bool" where
  "no_panic f \<longleftrightarrow> (\<forall>s x s'. f s = (Inl x, s') \<longrightarrow> (\<exists>e. x = Anyhow e))"

named_theorems no_panic_intro \<open>composition of functions that do not panic\<close>

lemma no_panic_basic [no_panic_intro]:
  "no_panic (ret x)" "no_panic (fail e)" "no_panic (emit ev)" "no_panic (asks g)"
  by (simp_all add: no_panic_def prog_simps)

lemma no_panic_bind [no_panic_intro]:
  "no_panic f \<Longrightarrow> (\<And>x. no_panic (g x)) \<Longrightarrow> no_panic (bindP f g)"
  by (fastforce simp: no_panic_def bindP_def split: prod.splits sum.splits)

lemma no_panic_then [no_panic_intro]: "no_panic f \<Longrightarrow> no_panic g \<Longrightarrow> no_panic (thenP f g)"
  by (simp add: thenP_def no_panic_bind)

lemma no_panic_if [no_panic_intro]: "no_panic f \<Longrightarrow> no_panic g \<Longrightarrow> no_panic (if b then f else g)"
  by simp

lemma no_panic_lift [no_panic_intro]: "no_panic (lift r)" "no_panic (expect e q)"
  by (auto simp: no_panic_def lift_def expect_def prog_simps split: sum.splits option.splits)

lemma no_panic_attempt [no_panic_intro]: "no_panic f \<Longrightarrow> no_panic (attempt f)"
  by (fastforce simp: no_panic_def attempt_def split: prod.splits sum.splits rtc_error.splits)

lemma no_panic_sum [no_panic_intro]:
  "(\<And>e. no_panic (f e)) \<Longrightarrow> (\<And>x. no_panic (g x)) \<Longrightarrow> no_panic (case r of Inl e \<Rightarrow> f e | Inr x \<Rightarrow> g x)"
  by (cases r) simp_all

lemma no_panic_status [no_panic_intro]: "no_panic (status_send E st)" "no_panic (status_try E st)"
  unfolding status_send_def status_try_def by (intro no_panic_intro)+

lemma no_panic_task [no_panic_intro]: "no_panic (await_task c out)"
  unfolding await_task_def by (auto split: select_result.split sum.split intro: no_panic_intro)

lemma no_panic_offer [no_panic_intro]:
  "no_panic (send_offer E X Z C target out)" "no_panic (accept_offer E X Z C offer out)"
  unfolding send_offer_def accept_offer_def create_peer_connection_def local_description_def
    signal_def sdp_exchanged_def apply_remote_def close_connection_def
  by (intro no_panic_intro)+

text \<open>The parts after the final status only add to the trace.\<close>

lemma status_try_open:
  "\<forall>tr. en_status_open E tr \<Longrightarrow> status_try E st s = (Inr (), s\<lparr>rs_trace := rs_trace s @ [StatusSent st]\<rparr>)"
  by (simp add: status_try_def status_send_def attempt_def prog_simps)

lemma close_keeps:
  "close_connection C s = (Inr u, s') \<Longrightarrow> set (rs_trace s) \<subseteq> set (rs_trace s')"
  by (auto simp: close_connection_def then_Inr emit_Inr)

lemma send_offer_finished:
  assumes "\<forall>tr. en_status_open E tr" and "send_offer E X Z C target out s = (Inr u, s')"
  shows "StatusSent Finished \<in> set (rs_trace s')"
proof -
  obtain s6 s7 s8 where "status_try E Finished s6 = (Inr (), s7)"
    and dcc: "bindP (attempt (thenP (lift (pe_close_channel C)) (emit DataChannelClosed))) (\<lambda>_. ret ()) s7
      = (Inr (), s8)"
    and close: "close_connection C s8 = (Inr u, s')"
    using assms(2) unfolding send_offer_def create_peer_connection_def then_Inr bind_Inr
    by (auto simp: then_Inr bind_Inr)
  then have "StatusSent Finished \<in> set (rs_trace s7)"
    using status_try_open [OF assms(1)] by auto
  with close_channel_Inr [OF dcc] close_keeps [OF close] show ?thesis by auto
qed

lemma accept_offer_finished:
  assumes "\<forall>tr. en_status_open E tr" and "accept_offer E X Z C offer out s = (Inr u, s')"
  shows "StatusSent Finished \<in> set (rs_trace s')"
proof -
  obtain s6 s7 where "status_try E Finished s6 = (Inr (), s7)"
    and close: "close_connection C s7 = (Inr u, s')"
    using assms(2) unfolding accept_offer_def create_peer_connection_def then_Inr bind_Inr
    by (auto simp: then_Inr bind_Inr)
  then have "StatusSent Finished \<in> set (rs_trace s7)"
    using status_try_open [OF assms(1)] by auto
  with close_keeps [OF close] show ?thesis by auto
qed

lemma report_error_ends:
  assumes E: "\<forall>tr. en_status_open E tr" and "no_panic f" and "report_error E f s = (r, s')"
    and fin: "\<And>t. f s = (Inr (), t) \<Longrightarrow> StatusSent Finished \<in> set (rs_trace t)"
  shows "r = Inr () \<and> ((\<exists>tr e. rs_trace s' = tr @ [StatusSent (StError e)])
    \<or> StatusSent Finished \<in> set (rs_trace s'))"
proof (cases "f s")
  case (Pair q t)
  show ?thesis
  proof (cases q)
    case (Inl x)
    then obtain e where "x = Anyhow e" using assms(2) Pair by (auto simp: no_panic_def)
    with Inl Pair assms(3) show ?thesis
      by (auto simp: report_error_def bindP_def attempt_def status_try_open [OF E])
  next
    case (Inr u)
    with Pair assms(3) fin show ?thesis
      by (auto simp: report_error_def bindP_def attempt_def ret_def)
  qed
qed

text \<open>
  C24. A transfer of the app that ends tells the user how: as long as somebody listens to the status
  stream, the background task of either direction ends well, and either its last message is the
  status \<open>Error\<close>, or \<open>Finished\<close> was reported. This covers every way a transfer can fail, also a
  panic of the inner task. A task is only spawned when the private key parses and, if a key is expected
  of the peer, that key too; and it runs the transfer with exactly these keys, so that a peer is
  never left unchecked because its expected key is malformed.
\<close>

theorem app_transfers_report_their_end:
  assumes "\<forall>tr. en_status_open E tr"
    and "app_send_offer E X Z P C target private_key expecting outcome = Inr background
      \<or> app_accept_offer E X Z P C offer private_key expecting outcome = Inr background"
    and "background s = (r, s')"
  shows "(\<exists>k q. parse_private_key P private_key = Inr k
      \<and> (case expecting of None \<Rightarrow> q = None
         | Some e \<Rightarrow> \<exists>v. parse_public_key P (ep_public_key e) (ep_kind e) = Inr v \<and> q = Some v)
      \<and> background \<in> {report_error E (send_offer E X Z C target (outcome (no_pairing E) k q)),
          report_error E (accept_offer E X Z C offer (outcome E k q))})
    \<and> r = Inr () \<and> ((\<exists>tr e. rs_trace s' = tr @ [StatusSent (StError e)])
      \<or> StatusSent Finished \<in> set (rs_trace s'))"
  using assms(2)
proof
  assume "app_send_offer E X Z P C target private_key expecting outcome = Inr background"
  then obtain k q where "parse_private_key P private_key = Inr k" and "expected_key P expecting = Inr q"
    and "background = report_error E (send_offer E X Z C target (outcome (no_pairing E) k q))"
    by (auto simp: app_send_offer_def)
  moreover from this(2) have "case expecting of None \<Rightarrow> q = None
      | Some e \<Rightarrow> \<exists>v. parse_public_key P (ep_public_key e) (ep_kind e) = Inr v \<and> q = Some v"
    by (auto simp: expected_key_def split: option.splits)
  moreover from calculation(3) assms(3) have "r = Inr () \<and> ((\<exists>tr e. rs_trace s' = tr @ [StatusSent (StError e)])
      \<or> StatusSent Finished \<in> set (rs_trace s'))"
    using report_error_ends [OF assms(1) no_panic_offer(1)] send_offer_finished [OF assms(1)] by metis
  ultimately show ?thesis
    by (intro conjI exI [of _ k] exI [of _ q]) simp_all
next
  assume "app_accept_offer E X Z P C offer private_key expecting outcome = Inr background"
  then obtain k q where "parse_private_key P private_key = Inr k" and "expected_key P expecting = Inr q"
    and "background = report_error E (accept_offer E X Z C offer (outcome E k q))"
    by (auto simp: app_accept_offer_def)
  moreover from this(2) have "case expecting of None \<Rightarrow> q = None
      | Some e \<Rightarrow> \<exists>v. parse_public_key P (ep_public_key e) (ep_kind e) = Inr v \<and> q = Some v"
    by (auto simp: expected_key_def split: option.splits)
  moreover from calculation(3) assms(3) have "r = Inr () \<and> ((\<exists>tr e. rs_trace s' = tr @ [StatusSent (StError e)])
      \<or> StatusSent Finished \<in> set (rs_trace s'))"
    using report_error_ends [OF assms(1) no_panic_offer(2)] accept_offer_finished [OF assms(1)] by metis
  ultimately show ?thesis
    by (intro conjI exI [of _ k] exI [of _ q]) simp_all
qed

lemma app_transfers_report_their_end_witness:
  "\<exists>background s'. app_send_offer calm_env sample_crates sample_zlib sample_parsers sample_peer_env 9 ''k''
      None (\<lambda>_ _ _. TaskPanicked ''p'') = Inr background
    \<and> background \<lparr>rs_rx = [], rs_trace = []\<rparr> = (Inr (), s')"
proof -
  obtain background where bg: "app_send_offer calm_env sample_crates sample_zlib sample_parsers sample_peer_env 9
      ''k'' None (\<lambda>_ _ _. TaskPanicked ''p'') = Inr background"
    by (simp add: app_send_offer_def expected_key_def parse_private_key_def sample_parsers_def)
  obtain r s' where run: "background \<lparr>rs_rx = [], rs_trace = []\<rparr> = (r, s')" by force
  have "\<forall>tr. en_status_open calm_env tr" by (simp add: calm_env_def)
  from app_transfers_report_their_end [OF this disjI1 [OF bg] run] bg run show ?thesis by blast
qed

section \<open>Registering and pairing\<close>

text \<open>
  C26. From the app to the server: whatever the app proposes of itself is what the server lists,
  under the id it chose, together with a token that the app's key accepts for one hour.
\<close>

theorem app_registration_is_checkable:
  assumes "b64_law X" and "json_law X" and "sign_law key"
    and "sign_info X (Inr t) proposed key = Inr info"
    and "utf8_valid (as_bytes (to_text X enc_client_info_without_id info))"
  shows "\<exists>d. connect_uri X uri info = uri @ ''?d='' @ d
    \<and> decode_register X new_id d = Inr \<lparr>ci_id = new_id, ci_alias = pi_alias proposed,
        ci_version = pi_version proposed, ci_device_model = pi_device_model proposed,
        ci_device_type = pi_device_type proposed, ci_token = cw_token info\<rparr>
    \<and> verify_token_timestamp checks X (Inr now) (to_verifying_key key) (cw_token info)
      = (if checks \<and> now < t then None else Some (now - t \<le> 60 * 60))"
proof -
  obtain token where "generate_token_timestamp X (Inr t) key = Inr token"
    and info: "info = \<lparr>cw_alias = pi_alias proposed, cw_version = pi_version proposed,
      cw_device_model = pi_device_model proposed, cw_device_type = pi_device_type proposed, cw_token = token\<rparr>"
    using assms(4) by (auto simp: sign_info_def)
  then show ?thesis
    using registration_decodes [OF assms(1,2,5), of uri new_id]
      timestamp_token_check [OF assms(1,3), of t token checks now]
    by (auto simp: client_info_from_def)
qed

definition sample_proposal :: proposing_client_info where
  "sample_proposal = \<lparr>pi_alias = ''a'', pi_version = ''2.3'', pi_device_model = None, pi_device_type = None\<rparr>"

text \<open>The sample printer keeps ASCII text ASCII, so the sample registration is valid UTF-8.\<close>

definition ascii :: "string \<Rightarrow> bool" where
  "ascii s \<longleftrightarrow> (\<forall>b \<in> set (as_bytes s). b \<le> 0x7F)"

lemma ascii_simps [simp]:
  "ascii []" "ascii (c # s) \<longleftrightarrow> (of_char c :: u8) \<le> 0x7F \<and> ascii s" "ascii (s @ t) \<longleftrightarrow> ascii s \<and> ascii t"
  by (auto simp: ascii_def as_bytes_def)

lemma utf8_valid_ascii: "ascii s \<Longrightarrow> utf8_valid (as_bytes s)"
proof -
  have "\<forall>b \<in> set bs. b \<le> 0x7F \<Longrightarrow> utf8_valid bs" for bs
    by (induction bs) auto
  then show "ascii s \<Longrightarrow> utf8_valid (as_bytes s)" by (simp add: ascii_def)
qed

lemma ascii_pr_str: "ascii s \<Longrightarrow> ascii (pr_str s)"
  by (induction s) auto

lemma ascii_pr_hex: "ascii (pr_hex bs)"
proof -
  have digit: "(of_char (digit_char d) :: u8) \<le> 0x7F" if "d < 16" for d
  proof -
    have "\<forall>d \<in> set [0..<16]. (of_char (digit_char d) :: u8) \<le> 0x7F" by code_simp
    with that show ?thesis by simp
  qed
  have "unat b div 16 < 16" for b :: u8
  proof -
    have "unat b < 2 ^ LENGTH(8)" by (rule unsigned_less)
    then show ?thesis by simp
  qed
  with digit show ?thesis by (induction bs) (auto simp: pr_hex_def)
qed

lemma sample_registration:
  "\<exists>info. sign_info sample_crates (Inr 1000) sample_proposal sample_key = Inr info
    \<and> utf8_valid (as_bytes (to_text sample_crates enc_client_info_without_id info))"
proof -
  obtain token where token: "generate_token_timestamp sample_crates (Inr 1000) sample_key = Inr token"
    using sample_token by (auto simp: generate_token_timestamp_def)
  then have "ascii token"
    using ascii_pr_hex
    by (auto simp: generate_token_timestamp_def generate_token_nonce_def sample_key_def sample_crates_def Let_def)
  with token show ?thesis
    by (auto intro!: utf8_valid_ascii ascii_pr_str simp: sign_info_def sample_proposal_def to_text_def
        sample_crates_def enc_client_info_without_id_def)
qed

lemma app_registration_is_checkable_witness:
  "\<exists>info d. sign_info sample_crates (Inr 1000) sample_proposal sample_key = Inr info
    \<and> connect_uri sample_crates ''wss://h/'' info = ''wss://h/'' @ ''?d='' @ d
    \<and> verify_token_timestamp True sample_crates (Inr 4600) (to_verifying_key sample_key) (cw_token info) = Some True"
proof -
  obtain info where info: "sign_info sample_crates (Inr 1000) sample_proposal sample_key = Inr info"
    and utf8: "utf8_valid (as_bytes (to_text sample_crates enc_client_info_without_id info))"
    using sample_registration by blast
  show ?thesis
    using app_registration_is_checkable [OF sample_laws(3,2) sample_sign_law info utf8,
      of "''wss://h/''" _ True 4600] info by auto
qed

text \<open>
  The app never pairs: whatever the receiver's pairing request, the sending task answers with
  \<open>PairDeclined\<close> (and the transfer goes on) or \<open>PairInvalidSignature\<close> (and it ends).
\<close>

lemma app_declines_pairing:
  assumes "pair_request (no_pairing E) X P remote_token nonce public_key s = (r, s')"
  shows "\<exists>new. rs_trace s' = rs_trace s @ new
    \<and> {t. SentText t \<in> set new} \<subseteq> {to_text X enc_pair_response (if r = Inr () then PairDeclined else p) |p.
        p \<in> {PairDeclined, PairInvalidSignature}}"
  using assms
  by (auto simp: pair_request_def no_pairing_def send_text_def send_event_def check_token_def
      wait_buffer_empty_def expect_def lift_def prog_simps split: option.splits sum.splits if_splits prod.splits)

end
