(* ===== verification/Bridge_Codec.thy ===== *)
theory Bridge_Codec
  imports Prelude Hash_Map
begin

text \<open>
  The serialisation of the bridge between the app and the library,
  \<open>app/rust/src/frb_generated.rs\<close>: the \<open>SseDecode\<close> and \<open>SseEncode\<close> implementations of the
  primitive types, strings, options, lists, maps and object handles. A decoder takes the bytes
  that are left of a message and returns a value with the bytes after it; \<open>None\<close> is a panic
  (\<open>unwrap\<close>, \<open>expect\<close>, \<open>unreachable!\<close>, \<open>unimplemented!\<close>). The locale \<open>sse_codec\<close> is the contract
  of an encoder and a decoder that belong together.
\<close>

section \<open>Readers\<close>

type_synonym 'a reader = "bytes \<Rightarrow> ('a \<times> bytes) option"

definition rd_ret :: "'a \<Rightarrow> 'a reader" where
  "rd_ret x = (\<lambda>bs. Some (x, bs))"

definition rd_bind :: "'a reader \<Rightarrow> ('a \<Rightarrow> 'b reader) \<Rightarrow> 'b reader" where
  "rd_bind r f = (\<lambda>bs. case r bs of None \<Rightarrow> None | Some (x, rest) \<Rightarrow> f x rest)"

lemma rd_bind_ret [simp]: "rd_bind r (\<lambda>x. rd_ret x) = r"
  by (rule ext) (simp add: rd_bind_def rd_ret_def split: option.split)

definition rd_panic :: "'a reader" where
  "rd_panic = (\<lambda>_. None)"

definition rd_option :: "'a option \<Rightarrow> 'a reader" where
  "rd_option v = (case v of Some x \<Rightarrow> rd_ret x | None \<Rightarrow> rd_panic)"

fun rd_times :: "nat \<Rightarrow> 'a reader \<Rightarrow> 'a list reader" where
  "rd_times 0 r = rd_ret []"
| "rd_times (Suc n) r = rd_bind r (\<lambda>x. rd_bind (rd_times n r) (\<lambda>xs. rd_ret (x # xs)))"

text \<open>
  \<open>consumes r x p\<close>: the reader takes exactly \<open>p\<close>, whatever follows, and returns \<open>x\<close>. A reader is
  \<open>local\<close> when every successful run is of that kind: it does not look at what it leaves.
\<close>

definition consumes :: "'a reader \<Rightarrow> 'a \<Rightarrow> bytes \<Rightarrow> bool" where
  "consumes r x p \<longleftrightarrow> (\<forall>rest. r (p @ rest) = Some (x, rest))"

definition local_reader :: "'a reader \<Rightarrow> bool" where
  "local_reader r \<longleftrightarrow> (\<forall>bs x rest. r bs = Some (x, rest) \<longrightarrow> (\<exists>p. bs = p @ rest \<and> consumes r x p))"

named_theorems reader_local \<open>readers that do not look ahead\<close>

lemma local_ret [reader_local]: "local_reader (rd_ret x)"
  by (auto simp: local_reader_def consumes_def rd_ret_def)

lemma local_panic [reader_local]: "local_reader rd_panic"
  by (simp add: local_reader_def rd_panic_def)

lemma local_option [reader_local]: "local_reader (rd_option v)"
  by (simp add: rd_option_def local_ret local_panic split: option.split)

lemma local_bind [reader_local]:
  assumes "local_reader r" and "\<And>x. local_reader (f x)"
  shows "local_reader (rd_bind r f)"
  unfolding local_reader_def
proof (intro allI impI)
  fix bs y rest
  assume "rd_bind r f bs = Some (y, rest)"
  then obtain x mid where r: "r bs = Some (x, mid)" and f: "f x mid = Some (y, rest)"
    by (auto simp: rd_bind_def split: option.splits)
  obtain p where p: "bs = p @ mid" "consumes r x p"
    using assms(1) r unfolding local_reader_def by blast
  obtain q where q: "mid = q @ rest" "consumes (f x) y q"
    using assms(2) f unfolding local_reader_def by blast
  have "consumes (rd_bind r f) y (p @ q)"
    using p(2) q(2) by (simp add: consumes_def rd_bind_def)
  then show "\<exists>p. bs = p @ rest \<and> consumes (rd_bind r f) y p"
    using p(1) q(1) by auto
qed

lemma local_if [reader_local]:
  "local_reader r \<Longrightarrow> local_reader s \<Longrightarrow> local_reader (if b then r else s)"
  by simp

lemma local_times [reader_local]: "local_reader r \<Longrightarrow> local_reader (rd_times n r)"
  by (induction n) (simp_all add: reader_local)

section \<open>The contract\<close>

locale sse_codec =
  fixes enc :: "'a \<Rightarrow> bytes" and dec :: "'a reader" and good :: "'a \<Rightarrow> bool"
  assumes decode_encode: "good x \<Longrightarrow> dec (enc x @ rest) = Some (x, rest)"
    and looks_no_further: "local_reader dec"
begin

lemma decode_encode_all: "good x \<Longrightarrow> dec (enc x) = Some (x, [])"
  using decode_encode [of x "[]"] by simp

lemma truncated_panics:
  assumes "good x" and "enc x = p @ s" and "s \<noteq> []"
  shows "dec p = None"
proof (rule ccontr)
  assume "dec p \<noteq> None"
  then obtain y r where "dec p = Some (y, r)" by auto
  then obtain q where "p = q @ r" and c: "consumes dec y q"
    using looks_no_further unfolding local_reader_def by blast
  then have "dec (enc x) = Some (y, r @ s)"
    using assms(2) by (simp add: consumes_def)
  then show False
    using decode_encode_all [OF assms(1)] assms(3) by simp
qed

lemma prefix_free: "good x \<Longrightarrow> good y \<Longrightarrow> enc x @ r = enc y @ s \<Longrightarrow> x = y \<and> r = s"
  by (metis decode_encode option.inject prod.inject)

end

named_theorems sse_codecs \<open>encoders and decoders that belong together\<close>
named_theorems sse_read \<open>what the decoders make of an encoding\<close>

lemma rd_apply [sse_read]:
  "rd_ret x bs = Some (x, bs)"
  "rd_bind r f bs = (case r bs of None \<Rightarrow> None | Some (x, rest) \<Rightarrow> f x rest)"
  "rd_panic bs = None"
  "rd_option v bs = map_option (\<lambda>x. (x, bs)) v"
  by (simp_all add: rd_ret_def rd_bind_def rd_panic_def rd_option_def split: option.split)

lemma sse_codecI:
  assumes "\<And>x rest. good x \<Longrightarrow> dec (enc x @ rest) = Some (x, rest)" and "local_reader dec"
  shows "sse_codec enc dec good"
  using assms by unfold_locales auto

section \<open>What the code relies on\<close>

text \<open>
  The integers in native byte order are the \<open>byteorder\<close> crate's, the bytes of a UUID the \<open>uuid\<close>
  crate's, the debug text of an error \<open>anyhow\<close>'s, and \<open>end\<close>, which checks that a message is
  used up, the bridge library's.
\<close>

record frb =
  ne_write_u16 :: "u16 \<Rightarrow> bytes"
  ne_read_u16 :: "u16 reader"
  ne_write_i32 :: "32 word \<Rightarrow> bytes"
  ne_read_i32 :: "32 word reader"
  ne_write_u64 :: "u64 \<Rightarrow> bytes"
  ne_read_u64 :: "u64 reader"
  fb_uuid_bytes :: "uuid \<Rightarrow> bytes"
  fb_uuid_from_slice :: "bytes \<Rightarrow> uuid option"
  fb_debug :: "string \<Rightarrow> string"
  fb_end :: "bytes \<Rightarrow> bool"

definition frb_law :: "frb \<Rightarrow> bool" where
  "frb_law F \<longleftrightarrow>
     (\<forall>x rest. ne_read_u16 F (ne_write_u16 F x @ rest) = Some (x, rest)) \<and> local_reader (ne_read_u16 F)
   \<and> (\<forall>x rest. ne_read_i32 F (ne_write_i32 F x @ rest) = Some (x, rest)) \<and> local_reader (ne_read_i32 F)
   \<and> (\<forall>x rest. ne_read_u64 F (ne_write_u64 F x @ rest) = Some (x, rest)) \<and> local_reader (ne_read_u64 F)
   \<and> (\<forall>u. length (fb_uuid_bytes F u) = 16 \<and> fb_uuid_from_slice F (fb_uuid_bytes F u) = Some u)
   \<and> (\<forall>bs. fb_end F bs \<longleftrightarrow> bs = [])"

section \<open>Primitive types\<close>

definition sse_encode_u8 :: "u8 \<Rightarrow> bytes" where
  "sse_encode_u8 b = [b]"

definition sse_decode_u8 :: "u8 reader" where
  "sse_decode_u8 bs = (case bs of [] \<Rightarrow> None | b # rest \<Rightarrow> Some (b, rest))"

interpretation u8_sse: sse_codec sse_encode_u8 sse_decode_u8 "\<lambda>_. True"
proof
  show "local_reader sse_decode_u8"
    unfolding local_reader_def
  proof (intro allI impI)
    fix bs x rest
    assume "sse_decode_u8 bs = Some (x, rest)"
    then have "bs = [x] @ rest" and "consumes sse_decode_u8 x [x]"
      by (auto simp: sse_decode_u8_def consumes_def split: list.splits)
    then show "\<exists>p. bs = p @ rest \<and> consumes sse_decode_u8 x p" by blast
  qed
qed (simp add: sse_encode_u8_def sse_decode_u8_def)

definition sse_encode_bool :: "bool \<Rightarrow> bytes" where
  "sse_encode_bool b = sse_encode_u8 (if b then 1 else 0)"

definition sse_decode_bool :: "bool reader" where
  "sse_decode_bool = rd_bind sse_decode_u8 (\<lambda>b. rd_ret (b \<noteq> 0))"

interpretation bool_sse: sse_codec sse_encode_bool sse_decode_bool "\<lambda>_. True"
proof
  show "local_reader sse_decode_bool"
    unfolding sse_decode_bool_def by (intro reader_local u8_sse.looks_no_further)
qed (simp add: sse_encode_bool_def sse_decode_bool_def rd_bind_def rd_ret_def u8_sse.decode_encode)

lemmas [reader_local] = u8_sse.looks_no_further bool_sse.looks_no_further
lemmas [sse_read, simp] = u8_sse.decode_encode bool_sse.decode_encode

definition sse_encode_u16 :: "frb \<Rightarrow> u16 \<Rightarrow> bytes" where
  "sse_encode_u16 F x = ne_write_u16 F x"

definition sse_decode_u16 :: "frb \<Rightarrow> u16 reader" where
  "sse_decode_u16 F = ne_read_u16 F"

definition sse_encode_u64 :: "frb \<Rightarrow> u64 \<Rightarrow> bytes" where
  "sse_encode_u64 F x = ne_write_u64 F x"

definition sse_decode_u64 :: "frb \<Rightarrow> u64 reader" where
  "sse_decode_u64 F = ne_read_u64 F"

definition sse_encode_i32 :: "frb \<Rightarrow> 32 word \<Rightarrow> bytes" where
  "sse_encode_i32 F x = ne_write_i32 F x"

definition sse_decode_i32 :: "frb \<Rightarrow> 32 word reader" where
  "sse_decode_i32 F = ne_read_i32 F"

text \<open>\<open>usize\<close> travels as a \<open>u64\<close>.\<close>

definition sse_encode_usize :: "frb \<Rightarrow> usize \<Rightarrow> bytes" where
  "sse_encode_usize F x = ne_write_u64 F x"

definition sse_decode_usize :: "frb \<Rightarrow> usize reader" where
  "sse_decode_usize F = ne_read_u64 F"

definition sse_encode_unit :: "unit \<Rightarrow> bytes" where
  "sse_encode_unit u = []"

definition sse_decode_unit :: "unit reader" where
  "sse_decode_unit = rd_ret ()"

lemma u16_sse [sse_codecs]: "frb_law F \<Longrightarrow> sse_codec (sse_encode_u16 F) (sse_decode_u16 F) (\<lambda>_. True)"
  by unfold_locales (simp_all add: frb_law_def sse_encode_u16_def sse_decode_u16_def)

lemma i32_sse [sse_codecs]: "frb_law F \<Longrightarrow> sse_codec (sse_encode_i32 F) (sse_decode_i32 F) (\<lambda>_. True)"
  by unfold_locales (simp_all add: frb_law_def sse_encode_i32_def sse_decode_i32_def)

lemma u64_sse [sse_codecs]: "frb_law F \<Longrightarrow> sse_codec (sse_encode_u64 F) (sse_decode_u64 F) (\<lambda>_. True)"
  by unfold_locales (simp_all add: frb_law_def sse_encode_u64_def sse_decode_u64_def)

lemma usize_sse [sse_codecs]:
  "frb_law F \<Longrightarrow> sse_codec (sse_encode_usize F) (sse_decode_usize F) (\<lambda>_. True)"
  by unfold_locales (simp_all add: frb_law_def sse_encode_usize_def sse_decode_usize_def)

lemma unit_sse [sse_codecs]: "sse_codec sse_encode_unit sse_decode_unit (\<lambda>_. True)"
  by unfold_locales (simp_all add: sse_encode_unit_def sse_decode_unit_def reader_local, simp add: rd_ret_def)

lemmas [sse_read] = sse_codec.decode_encode [OF u16_sse] sse_codec.decode_encode [OF i32_sse]
  sse_codec.decode_encode [OF u64_sse] sse_codec.decode_encode [OF usize_sse]
  sse_codec.decode_encode [OF unit_sse]

lemmas [reader_local] = sse_codec.looks_no_further [OF u16_sse] sse_codec.looks_no_further [OF i32_sse]
  sse_codec.looks_no_further [OF u64_sse] sse_codec.looks_no_further [OF usize_sse]
  sse_codec.looks_no_further [OF unit_sse]

lemmas u8_bool_codecs [sse_codecs] = u8_sse.sse_codec_axioms bool_sse.sse_codec_axioms


section \<open>Lists, strings, UUIDs, options\<close>

text \<open>
  A list is its length as an \<open>i32\<close> (\<open>len() as i32\<close>, which wraps) and its items; the loop
  \<open>0..len_\<close> of the decoder does nothing for a negative length.
\<close>

definition sse_encode_vec :: "frb \<Rightarrow> ('a \<Rightarrow> bytes) \<Rightarrow> 'a list \<Rightarrow> bytes" where
  "sse_encode_vec F e xs = sse_encode_i32 F (of_nat (length xs)) @ concat (map e xs)"

definition sse_decode_vec :: "frb \<Rightarrow> 'a reader \<Rightarrow> 'a list reader" where
  "sse_decode_vec F d = rd_bind (sse_decode_i32 F) (\<lambda>len. rd_times (nat (sint len)) d)"

definition ok_vec :: "('a \<Rightarrow> bool) \<Rightarrow> 'a list \<Rightarrow> bool" where
  "ok_vec good xs \<longleftrightarrow> list_all good xs \<and> length xs < 2 ^ 31"

lemma sint_of_length: "n < 2 ^ 31 \<Longrightarrow> nat (sint (of_nat n :: 32 word)) = n"
  by (simp add: signed_of_nat signed_take_bit_int_eq_self)

context sse_codec
begin

lemma decode_items: "list_all good xs \<Longrightarrow> rd_times (length xs) dec (concat (map enc xs) @ rest) = Some (xs, rest)"
  by (induction xs) (simp_all add: rd_bind_def rd_ret_def decode_encode)

end

lemma local_vec [reader_local]:
  "frb_law F \<Longrightarrow> local_reader d \<Longrightarrow> local_reader (sse_decode_vec F d)"
  by (simp add: sse_decode_vec_def reader_local)

lemma vec_sse [sse_codecs]:
  assumes F: "frb_law F" and c: "sse_codec e d good"
  shows "sse_codec (sse_encode_vec F e) (sse_decode_vec F d) (ok_vec good)"
proof (rule sse_codecI)
  show "sse_decode_vec F d (sse_encode_vec F e xs @ rest) = Some (xs, rest)" if "ok_vec good xs" for xs rest
    using that
    by (simp add: F sse_encode_vec_def sse_decode_vec_def sse_read ok_vec_def sint_of_length
        sse_codec.decode_items [OF c])
  show "local_reader (sse_decode_vec F d)"
    by (intro reader_local F sse_codec.looks_no_further [OF c])
qed

text \<open>A list of \<open>2 ^ 31\<close> items or more does not survive: its length is read as another number.\<close>

lemma long_vec_is_lost:
  assumes F: "frb_law F" and "2 ^ 31 \<le> length xs" and "length xs \<le> 2 ^ 32"
  shows "sse_decode_vec F d (sse_encode_vec F e xs) = Some ([], concat (map e xs))"
proof -
  have "(int (length xs) + 2 ^ 31) mod 2 ^ 32 = int (length xs) - 2 ^ 31"
    using assms(2, 3) by (subst mod_pos_geq) simp_all
  then have "sint (of_nat (length xs) :: 32 word) = int (length xs) - 2 ^ 32"
    by (simp add: signed_of_nat signed_take_bit_eq_take_bit_shift take_bit_eq_mod)
  then have "nat (sint (of_nat (length xs) :: 32 word)) = 0"
    using assms(3) by simp
  then show ?thesis
    by (simp add: sse_encode_vec_def sse_decode_vec_def rd_bind_def rd_ret_def
        sse_codec.decode_encode [OF i32_sse [OF F]])
qed

definition sse_encode_bytes :: "frb \<Rightarrow> bytes \<Rightarrow> bytes" where
  "sse_encode_bytes F = sse_encode_vec F sse_encode_u8"

definition sse_decode_bytes :: "frb \<Rightarrow> bytes reader" where
  "sse_decode_bytes F = sse_decode_vec F sse_decode_u8"

definition ok_bytes :: "bytes \<Rightarrow> bool" where
  "ok_bytes bs \<longleftrightarrow> length bs < 2 ^ 31"

lemma bytes_sse [sse_codecs]:
  assumes "frb_law F"
  shows "sse_codec (sse_encode_bytes F) (sse_decode_bytes F) ok_bytes"
proof -
  have "ok_vec (\<lambda>_. True) = ok_bytes"
    by (simp add: fun_eq_iff ok_vec_def ok_bytes_def list_all_iff)
  then show ?thesis
    using vec_sse [OF assms u8_sse.sse_codec_axioms]
    by (simp add: sse_encode_bytes_def sse_decode_bytes_def)
qed

lemmas [sse_read] = sse_codec.decode_encode [OF bytes_sse]
lemmas [reader_local] = sse_codec.looks_no_further [OF bytes_sse]

definition sse_encode_string :: "frb \<Rightarrow> string \<Rightarrow> bytes" where
  "sse_encode_string F s = sse_encode_bytes F (as_bytes s)"

definition sse_decode_string :: "frb \<Rightarrow> string reader" where
  "sse_decode_string F = rd_bind (sse_decode_bytes F) (\<lambda>inner. rd_option (from_utf8 inner))"

definition ok_string :: "string \<Rightarrow> bool" where
  "ok_string s \<longleftrightarrow> utf8_valid (as_bytes s) \<and> length s < 2 ^ 31"

lemma string_sse [sse_codecs]:
  "frb_law F \<Longrightarrow> sse_codec (sse_encode_string F) (sse_decode_string F) ok_string"
  unfolding sse_decode_string_def
  by (rule sse_codecI) (simp_all add: sse_encode_string_def sse_read ok_string_def
      ok_bytes_def from_utf8_def reader_local)

lemmas [sse_read] = sse_codec.decode_encode [OF string_sse]
lemmas [reader_local] = sse_codec.looks_no_further [OF string_sse]

definition sse_encode_uuid :: "frb \<Rightarrow> uuid \<Rightarrow> bytes" where
  "sse_encode_uuid F u = sse_encode_bytes F (fb_uuid_bytes F u)"

definition sse_decode_uuid :: "frb \<Rightarrow> uuid reader" where
  "sse_decode_uuid F = rd_bind (sse_decode_bytes F) (\<lambda>inner. rd_option (fb_uuid_from_slice F inner))"

lemma uuid_sse [sse_codecs]:
  assumes F: "frb_law F"
  shows "sse_codec (sse_encode_uuid F) (sse_decode_uuid F) (\<lambda>_. True)"
proof -
  have "ok_bytes (fb_uuid_bytes F u)" and "fb_uuid_from_slice F (fb_uuid_bytes F u) = Some u" for u
    using F by (simp_all add: frb_law_def ok_bytes_def)
  then show ?thesis
    unfolding sse_decode_uuid_def
    by (intro sse_codecI) (simp_all add: F sse_encode_uuid_def sse_read reader_local)
qed

lemmas [sse_read] = sse_codec.decode_encode [OF uuid_sse]
lemmas [reader_local] = sse_codec.looks_no_further [OF uuid_sse]

definition sse_encode_option :: "('a \<Rightarrow> bytes) \<Rightarrow> 'a option \<Rightarrow> bytes" where
  "sse_encode_option e v =
     sse_encode_bool (v \<noteq> None) @ (case v of Some value \<Rightarrow> e value | None \<Rightarrow> [])"

definition sse_decode_option :: "'a reader \<Rightarrow> 'a option reader" where
  "sse_decode_option d = rd_bind sse_decode_bool (\<lambda>b.
     if b then rd_bind d (\<lambda>x. rd_ret (Some x)) else rd_ret None)"

definition ok_option :: "('a \<Rightarrow> bool) \<Rightarrow> 'a option \<Rightarrow> bool" where
  "ok_option good v = (case v of Some x \<Rightarrow> good x | None \<Rightarrow> True)"

lemma ok_option_True [simp]: "ok_option (\<lambda>_. True) v"
  by (simp add: ok_option_def split: option.split)

lemma local_sse_option [reader_local]: "local_reader d \<Longrightarrow> local_reader (sse_decode_option d)"
  by (simp add: sse_decode_option_def reader_local)

lemma option_sse [sse_codecs]:
  assumes c: "sse_codec e d good"
  shows "sse_codec (sse_encode_option e) (sse_decode_option d) (ok_option good)"
proof (rule sse_codecI)
  show "sse_decode_option d (sse_encode_option e v @ rest) = Some (v, rest)" if "ok_option good v" for v rest
    using that
    by (cases v) (simp_all add: sse_encode_option_def sse_decode_option_def sse_read
        ok_option_def sse_codec.decode_encode [OF c])
qed (intro reader_local sse_codec.looks_no_further [OF c])

lemmas [sse_read] = sse_codec.decode_encode [OF option_sse [OF string_sse]]


section \<open>Pairs, maps and sets\<close>

definition sse_encode_pair :: "('a \<Rightarrow> bytes) \<Rightarrow> ('b \<Rightarrow> bytes) \<Rightarrow> 'a \<times> 'b \<Rightarrow> bytes" where
  "sse_encode_pair e1 e2 p = e1 (fst p) @ e2 (snd p)"

definition sse_decode_pair :: "'a reader \<Rightarrow> 'b reader \<Rightarrow> ('a \<times> 'b) reader" where
  "sse_decode_pair d1 d2 = rd_bind d1 (\<lambda>field0. rd_bind d2 (\<lambda>field1. rd_ret (field0, field1)))"

lemma local_pair [reader_local]:
  "local_reader d1 \<Longrightarrow> local_reader d2 \<Longrightarrow> local_reader (sse_decode_pair d1 d2)"
  by (simp add: sse_decode_pair_def reader_local)

lemma pair_sse [sse_codecs]:
  assumes c1: "sse_codec e1 d1 good1" and c2: "sse_codec e2 d2 good2"
  shows "sse_codec (sse_encode_pair e1 e2) (sse_decode_pair d1 d2) (\<lambda>p. good1 (fst p) \<and> good2 (snd p))"
proof (rule sse_codecI)
  show "sse_decode_pair d1 d2 (sse_encode_pair e1 e2 p @ rest) = Some (p, rest)"
    if "good1 (fst p) \<and> good2 (snd p)" for p rest
    using that by (simp add: sse_encode_pair_def sse_decode_pair_def sse_read
        sse_codec.decode_encode [OF c1] sse_codec.decode_encode [OF c2])
qed (intro reader_local sse_codec.looks_no_further [OF c1] sse_codec.looks_no_further [OF c2])

text \<open>A map is sent as the list of its entries, and collected again by inserting them.\<close>

definition sse_encode_map :: "frb \<Rightarrow> ('v \<Rightarrow> bytes) \<Rightarrow> (string, 'v) hmap \<Rightarrow> bytes" where
  "sse_encode_map F e m = sse_encode_vec F (sse_encode_pair (sse_encode_string F) e) m"

definition hm_collect :: "('k \<times> 'v) list \<Rightarrow> ('k, 'v) hmap" where
  "hm_collect es = fold (\<lambda>e m. hm_insert (fst e) (snd e) m) es hm_new"

definition sse_decode_map :: "frb \<Rightarrow> 'v reader \<Rightarrow> (string, 'v) hmap reader" where
  "sse_decode_map F d =
     rd_bind (sse_decode_vec F (sse_decode_pair (sse_decode_string F) d)) (\<lambda>inner. rd_ret (hm_collect inner))"

definition ok_map :: "('v \<Rightarrow> bool) \<Rightarrow> (string, 'v) hmap \<Rightarrow> bool" where
  "ok_map good m \<longleftrightarrow> hm_wf m \<and> ok_vec (\<lambda>e. ok_string (fst e) \<and> good (snd e)) m"

lemma hm_collect_append: "distinct (map fst (m @ es)) \<Longrightarrow>
    fold (\<lambda>e m. hm_insert (fst e) (snd e) m) es m = m @ es"
  by (induction es arbitrary: m) (auto simp: hm_insert_fresh)

lemma hm_collect_entries: "hm_wf m \<Longrightarrow> hm_collect m = m"
  using hm_collect_append [of "[]" m] by (simp add: hm_collect_def hm_new_def hm_wf_def)

lemma hm_wf_collect: "hm_wf (hm_collect es)"
proof -
  have "hm_wf m \<Longrightarrow> hm_wf (fold (\<lambda>e m. hm_insert (fst e) (snd e) m) es m)" for m
    by (induction es arbitrary: m) (simp_all add: hm_wf_insert)
  then show ?thesis by (simp add: hm_collect_def hm_new_def)
qed

lemma local_map [reader_local]:
  "frb_law F \<Longrightarrow> local_reader d \<Longrightarrow> local_reader (sse_decode_map F d)"
  by (simp add: sse_decode_map_def reader_local)

lemma map_sse [sse_codecs]:
  assumes F: "frb_law F" and c: "sse_codec e d good"
  shows "sse_codec (sse_encode_map F e) (sse_decode_map F d) (ok_map good)"
proof (rule sse_codecI)
  show "sse_decode_map F d (sse_encode_map F e m @ rest) = Some (m, rest)" if "ok_map good m" for m rest
    using that
    by (simp add: sse_encode_map_def sse_decode_map_def sse_read ok_map_def hm_collect_entries
        sse_codec.decode_encode [OF vec_sse [OF F pair_sse [OF string_sse [OF F] c]]])
qed (intro reader_local F sse_codec.looks_no_further [OF c])

lemmas [sse_read] = sse_codec.decode_encode [OF map_sse [OF _ string_sse]]

definition sse_encode_set :: "frb \<Rightarrow> string list \<Rightarrow> bytes" where
  "sse_encode_set F s = sse_encode_vec F (sse_encode_string F) s"

definition sse_decode_set :: "frb \<Rightarrow> string list reader" where
  "sse_decode_set F =
     rd_bind (sse_decode_vec F (sse_decode_string F)) (\<lambda>inner. rd_ret (remdups inner))"

definition ok_set :: "string list \<Rightarrow> bool" where
  "ok_set s \<longleftrightarrow> distinct s \<and> ok_vec ok_string s"

lemma set_sse [sse_codecs]:
  assumes F: "frb_law F"
  shows "sse_codec (sse_encode_set F) (sse_decode_set F) ok_set"
  unfolding sse_decode_set_def
  by (rule sse_codecI) (simp_all add: F sse_encode_set_def sse_read ok_set_def distinct_remdups_id
      reader_local sse_codec.decode_encode [OF vec_sse [OF F string_sse [OF F]]])

lemmas [sse_read] = sse_codec.decode_encode [OF set_sse]
lemmas [reader_local] = sse_codec.looks_no_further [OF set_sse]

section \<open>Errors, objects, streams\<close>

definition sse_encode_anyhow :: "frb \<Rightarrow> string \<Rightarrow> bytes" where
  "sse_encode_anyhow F e = sse_encode_string F (fb_debug F e)"

definition sse_decode_anyhow :: "frb \<Rightarrow> string reader" where
  "sse_decode_anyhow F = rd_bind (sse_decode_string F) (\<lambda>inner. rd_ret inner)"

text \<open>
  An object stays on the side of the library; what travels is its address. The encoder adds the
  size of the object (for the garbage collector of the app), which the decoder does not expect.
\<close>

definition sse_encode_opaque :: "frb \<Rightarrow> usize \<times> 32 word \<Rightarrow> bytes" where
  "sse_encode_opaque F p = sse_encode_usize F (fst p) @ sse_encode_i32 F (snd p)"

definition sse_decode_opaque :: "frb \<Rightarrow> usize reader" where
  "sse_decode_opaque F = rd_bind (sse_decode_usize F) (\<lambda>inner. rd_ret inner)"

text \<open>An object passed by value: its address is decoded and the object taken over.\<close>

definition sse_decode_owned :: "frb \<Rightarrow> usize reader" where
  "sse_decode_owned F = rd_bind (sse_decode_opaque F) (\<lambda>inner. rd_ret inner)"

definition sse_encode_owned :: "frb \<Rightarrow> usize \<times> 32 word \<Rightarrow> bytes" where
  "sse_encode_owned F p = sse_encode_opaque F p"

text \<open>A stream of the app is named by a string, a function of the app by a number.\<close>

definition sse_decode_sink :: "frb \<Rightarrow> string reader" where
  "sse_decode_sink F = rd_bind (sse_decode_string F) (\<lambda>inner. rd_ret inner)"

definition sse_decode_dart_opaque :: "frb \<Rightarrow> usize reader" where
  "sse_decode_dart_opaque F = rd_bind (sse_decode_usize F) (\<lambda>inner. rd_ret inner)"

definition sse_encode_dart_opaque :: "frb \<Rightarrow> usize \<Rightarrow> bytes" where
  "sse_encode_dart_opaque F n = sse_encode_usize F n"

lemmas handle_readers = sse_decode_anyhow_def sse_decode_opaque_def sse_decode_owned_def
  sse_decode_sink_def sse_decode_dart_opaque_def rd_bind_ret


section \<open>The laws can hold\<close>

text \<open>The crates on a little-endian machine; a UUID is sixteen bytes, the highest first.\<close>

definition le_read :: "nat \<Rightarrow> ('a::len) word reader" where
  "le_read k bs = (if length bs < k then None else Some (of_nat (from_le (take k bs)), drop k bs))"

lemma unat_bound: "unat (x :: 'a::len word) < 2 ^ LENGTH('a)"
  by (rule unsigned_less)

lemma le_read_to_le: "256 ^ k = (2::nat) ^ LENGTH('a::len) \<Longrightarrow>
    le_read k (to_le k (unat x) @ rest) = Some (x :: 'a word, rest)"
  using unat_bound [of x] by (simp add: le_read_def from_le_to_le)

lemma local_le_read: "local_reader (le_read k)"
  unfolding local_reader_def
proof (intro allI impI)
  fix bs rest and x :: "'a word"
  assume r: "le_read k bs = Some (x, rest)"
  then have "bs = take k bs @ rest" and "consumes (le_read k) x (take k bs)"
    by (auto simp: le_read_def consumes_def min_def split: if_splits)
  then show "\<exists>p. bs = p @ rest \<and> consumes (le_read k) x p" by blast
qed

definition sample_frb :: frb where
  "sample_frb = \<lparr>
     ne_write_u16 = (\<lambda>x. to_le 2 (unat x)), ne_read_u16 = le_read 2,
     ne_write_i32 = (\<lambda>x. to_le 4 (unat x)), ne_read_i32 = le_read 4,
     ne_write_u64 = (\<lambda>x. to_le 8 (unat x)), ne_read_u64 = le_read 8,
     fb_uuid_bytes = (\<lambda>u. rev (to_le 16 (unat u))),
     fb_uuid_from_slice = (\<lambda>bs. if length bs = 16 then Some (of_nat (from_le (rev bs))) else None),
     fb_debug = (\<lambda>e. e), fb_end = (\<lambda>bs. bs = [])\<rparr>"

lemma sample_frb_law: "frb_law sample_frb"
proof -
  have "of_nat (from_le (to_le 16 (unat u))) = u" for u :: uuid
    using unat_bound [of u] by (simp add: from_le_to_le)
  then show ?thesis
    by (simp add: frb_law_def sample_frb_def le_read_to_le local_le_read)
qed

end
