(* ===== verification/App_Http.thy ===== *)
theory App_Http
  imports App_Streams Http_Client_Properties
begin

text \<open>
  The HTTP client as the app calls it, \<open>app/rust/src/api/http.rs\<close>: the wrapper of the library's
  client, its error type, and the upload fed by the stream of \<open>app/rust/src/api/stream.rs\<close>.
\<close>

section \<open>The wrapper\<close>

record 'c rs_http_client =
  rs_inner :: "'c ls_http_client"

datatype rs_http_client_error =
    RsStatusCode u16 "string option"
  | RsReqwest string
  | RsJson string
  | RsIo string
  | RsOther string

text \<open>\<open>to_string\<close> of the wrapped errors is what the constructors of \<open>client_error\<close> carry.\<close>

fun rs_error_from :: "client_error \<Rightarrow> rs_http_client_error" where
  "rs_error_from (StatusCode e) = RsStatusCode (sc_status e) (sc_message e)"
| "rs_error_from (Reqwest e) = RsReqwest e"
| "rs_error_from (JsonError e) = RsJson e"
| "rs_error_from (IoError e) = RsIo e"
| "rs_error_from (Other e) = RsOther e"

record rs_register_result =
  rr_public_key :: "string option"
  rr_body :: register_response_dto

type_synonym 'a rs_call = "http_request list \<times> (rs_http_client_error + 'a)"

text \<open>A call of the inner client with its error converted and its result passed on.\<close>

definition rs_call :: "('a \<Rightarrow> 'b) \<Rightarrow> 'a call \<Rightarrow> 'b rs_call" where
  "rs_call f c = (fst c, bind_ok (map_err rs_error_from (snd c)) (\<lambda>x. Inr (f x)))"

definition create_client ::
    "'i reqwest \<Rightarrow> 'c lru_cache \<Rightarrow> string \<Rightarrow> string \<Rightarrow> ls_http_client_version
      \<Rightarrow> rs_http_client_error + 'c rs_http_client" where
  "create_client R L private_key cert version =
     bind_ok (map_err rs_error_from (ls_new R L private_key cert version)) (\<lambda>inner.
       Inr \<lparr>rs_inner = inner\<rparr>)"

definition rs_register ::
    "('z) crates_scheme \<Rightarrow> ('cert, 'key) x509 \<Rightarrow> 'c rs_http_client \<Rightarrow> protocol_type \<Rightarrow> string \<Rightarrow> u16
      \<Rightarrow> register_dto \<Rightarrow> rs_register_result rs_call" where
  "rs_register X V self protocol ip port payload =
     rs_call (\<lambda>response. \<lparr>rr_public_key = wk_public_key response, rr_body = wk_body response\<rparr>)
       (ls_register X V (rs_inner self) protocol ip port payload)"

definition rs_prepare_upload ::
    "('z) crates_scheme \<Rightarrow> ('cert, 'key) x509 \<Rightarrow> 'c rs_http_client \<Rightarrow> protocol_type \<Rightarrow> string \<Rightarrow> u16
      \<Rightarrow> prepare_upload_request_dto \<Rightarrow> string option \<Rightarrow> string option
      \<Rightarrow> prepare_upload_result rs_call" where
  "rs_prepare_upload X V self protocol ip port payload public_key pin =
     rs_call (\<lambda>response. response)
       (ls_prepare_upload X V (rs_inner self) protocol ip port public_key payload pin)"

text \<open>\<open>binary\<close> is what the receiving half of the stream delivers until the sink is dropped.\<close>

definition rs_upload ::
    "('z) crates_scheme \<Rightarrow> ('cert, 'key) x509 \<Rightarrow> 'c rs_http_client \<Rightarrow> protocol_type \<Rightarrow> string \<Rightarrow> u16
      \<Rightarrow> string option \<Rightarrow> string \<Rightarrow> string \<Rightarrow> string \<Rightarrow> bytes list \<Rightarrow> unit rs_call" where
  "rs_upload X V self protocol ip port public_key session_id file_id token binary =
     rs_call (\<lambda>_. ())
       (ls_upload X V (rs_inner self) protocol ip port public_key session_id file_id token binary)"

definition rs_cancel ::
    "'c rs_http_client \<Rightarrow> protocol_type \<Rightarrow> string \<Rightarrow> u16 \<Rightarrow> string \<Rightarrow> unit rs_call" where
  "rs_cancel self protocol ip port session_id =
     rs_call (\<lambda>_. ()) (ls_cancel (rs_inner self) protocol ip port session_id)"

lemma rs_call_simps [simp]:
  "fst (rs_call f c) = fst c"
  "snd (rs_call f c) = (case snd c of Inl e \<Rightarrow> Inl (rs_error_from e) | Inr x \<Rightarrow> Inr (f x))"
  by (simp_all add: rs_call_def split: sum.split)

section \<open>What the app sees\<close>

text \<open>
  What the app makes of the answer of a peer it needs not verify when it proposes files: an
  error status becomes an error with that status and the message of the JSON body, or the body
  itself when it is not one, and no message when that is empty; 204 is a success without a
  response; any other status is a success exactly when the body decodes. Both protocol versions
  behave alike.
\<close>

lemma rs_prepare_upload_outcome:
  fixes self :: "'c rs_http_client"
  assumes "\<And>q. ls_transport (rs_inner self) q = Inr res" and "collect_body (hp_chunks res) = Inr bs"
  shows "snd (rs_prepare_upload X V self Http ip port payload key pin) =
    (if 400 \<le> hp_status res
     then Inl (RsStatusCode (hp_status res)
       (case from_text X dec_error_response (hp_charset res bs) of
          Some e \<Rightarrow> if er_message e = [] then None else Some (er_message e)
        | None \<Rightarrow> if hp_charset res bs = [] then None else Some (hp_charset res bs)))
     else if hp_status res = 204 then Inr \<lparr>pr_status_code = 204, pr_response = None\<rparr>
     else (case from_slice X dec_prepare_upload_response_dto bs of
         Some body \<Rightarrow> Inr \<lparr>pr_status_code = hp_status res, pr_response = Some body\<rparr>
       | None \<Rightarrow> Inl (RsReqwest ''error decoding response body'')))"
  unfolding rs_prepare_upload_def rs_call_simps prepare_upload_outcome [OF assms]
  by (simp split: option.split)

text \<open>
  From the sink to the wire: whatever the interleaving of the writing app and the reading
  upload, the body of the one request an upload sends consists of the chunks whose \<open>add\<close> returned
  \<open>Ok\<close>, in that order, without the at most one chunk that is still in the channel; in particular
  of all of them once the channel is drained.
\<close>

theorem upload_sends_the_stream:
  assumes "stream_run es create_stream = (accepted, s)"
  shows "\<exists>q rest. fst (rs_upload X V self protocol ip port key sid fid token (ds_received s)) = [q]
    \<and> hq_method q = Post \<and> hq_body q = StreamBody (ds_received s)
    \<and> accepted = ds_received s @ rest \<and> length rest \<le> 1 \<and> (ds_queue s = [] \<longrightarrow> rest = [])"
proof -
  obtain q where "fst (rs_upload X V self protocol ip port key sid fid token (ds_received s)) = [q]"
    and "hq_method q = Post" and "hq_body q = StreamBody (ds_received s)"
    by (cases "rs_inner self")
      (simp_all add: rs_upload_def ls_upload_def upload_v2_def upload_v3_def upload_request_def)
  then show ?thesis
    using created_stream_fifo [OF assms] by metis
qed

lemma upload_sends_the_stream_witness:
  "\<exists>q rest. fst (rs_upload sample_crates sample_x509
        \<lparr>rs_inner = V2Client (\<lambda>_. Inl ''down'') :: unit ls_http_client\<rparr> Http ''h'' 1 None ''s'' ''f'' ''t'' [[1]]) = [q]
    \<and> hq_body q = StreamBody [[1]] \<and> [[1], [2]] = [[1]] @ rest \<and> length rest \<le> 1"
proof -
  let ?es = "[AddData [1], AddData [2], TakeData, AddData [2]]"
  have run: "stream_run ?es create_stream
      = ([[1], [2]], \<lparr>ds_queue = [[2]], ds_received = [[1]], ds_open = True\<rparr>)"
    by (simp add: create_stream_def add_data_def take_data_def)
  show ?thesis
    using upload_sends_the_stream [OF run, of sample_crates sample_x509
      "\<lparr>rs_inner = V2Client (\<lambda>_. Inl ''down'') :: unit ls_http_client\<rparr>" Http "''h''" 1 None "''s''" "''f''" "''t''"]
    by auto
qed

end
