(* ===== verification/Bridge_Types.thy ===== *)
theory Bridge_Types
  imports Bridge_Codec App_Session App_Http
begin

text \<open>
  The \<open>SseEncode\<close> and \<open>SseDecode\<close> implementations of the types of the app's interface
  (\<open>app/rust/src/frb_generated.rs\<close>, with the declarations of \<open>api/model.rs\<close>,
    \<open>api/webrtc.rs\<close>,
  \<open>api/http.rs\<close> and \<open>api/crypto.rs\<close> that they serve): a structure is its fields in the order of their
  declaration, an enum its number. Each pair is a \<open>sse_codec\<close> on the values whose strings are UTF-8
  and whose strings and lists are shorter than \<open>2 ^ 31\<close>; an unknown number is a panic.
\<close>

section \<open>Enums without content\<close>


definition sse_encode_device_type :: "frb \<Rightarrow> device_type \<Rightarrow> bytes" where
  "sse_encode_device_type F v = sse_encode_i32 F (case v of Mobile \<Rightarrow> 0 |
         Desktop \<Rightarrow> 1 | Web \<Rightarrow> 2 | Headless \<Rightarrow> 3 |
         Server \<Rightarrow> 4)"

definition sse_decode_device_type :: "frb \<Rightarrow> device_type reader" where
  "sse_decode_device_type F = rd_bind (sse_decode_i32 F) (\<lambda>inner.
     if inner = 0 then rd_ret Mobile
     else if inner = 1 then rd_ret Desktop
     else if inner = 2 then rd_ret Web
     else if inner = 3 then rd_ret Headless
     else if inner = 4 then rd_ret Server
     else rd_panic)"

lemma device_type_sse [sse_codecs]:
  "frb_law F \<Longrightarrow>
    sse_codec (sse_encode_device_type F) (sse_decode_device_type F) (\<lambda>_. True)"
  unfolding sse_decode_device_type_def
  by (rule sse_codecI)
    (simp_all add: sse_encode_device_type_def sse_read reader_local split: device_type.split)

lemmas [sse_read] = sse_codec.decode_encode [OF device_type_sse]
  sse_codec.decode_encode [OF option_sse [OF device_type_sse]]
lemmas [reader_local] = sse_codec.looks_no_further [OF device_type_sse]

definition sse_encode_protocol_type :: "frb \<Rightarrow> protocol_type \<Rightarrow> bytes" where
  "sse_encode_protocol_type F v = sse_encode_i32 F (case v of Http \<Rightarrow> 0 | Https \<Rightarrow> 1)"

definition sse_decode_protocol_type :: "frb \<Rightarrow> protocol_type reader" where
  "sse_decode_protocol_type F = rd_bind (sse_decode_i32 F) (\<lambda>inner.
     if inner = 0 then rd_ret Http
     else if inner = 1 then rd_ret Https
     else rd_panic)"

lemma protocol_type_sse [sse_codecs]:
  "frb_law F \<Longrightarrow>
    sse_codec (sse_encode_protocol_type F) (sse_decode_protocol_type F) (\<lambda>_. True)"
  unfolding sse_decode_protocol_type_def
  by (rule sse_codecI)
    (simp_all add: sse_encode_protocol_type_def sse_read reader_local split: protocol_type.split)

lemmas [sse_read] = sse_codec.decode_encode [OF protocol_type_sse]
lemmas [reader_local] = sse_codec.looks_no_further [OF protocol_type_sse]

definition sse_encode_ls_version :: "frb \<Rightarrow> ls_http_client_version \<Rightarrow> bytes" where
  "sse_encode_ls_version F v = sse_encode_i32 F (case v of ClientV2 \<Rightarrow> 0 | ClientV3 \<Rightarrow> 1)"

definition sse_decode_ls_version :: "frb \<Rightarrow> ls_http_client_version reader" where
  "sse_decode_ls_version F = rd_bind (sse_decode_i32 F) (\<lambda>inner.
     if inner = 0 then rd_ret ClientV2
     else if inner = 1 then rd_ret ClientV3
     else rd_panic)"

lemma ls_version_sse [sse_codecs]:
  "frb_law F \<Longrightarrow>
    sse_codec (sse_encode_ls_version F) (sse_decode_ls_version F) (\<lambda>_. True)"
  unfolding sse_decode_ls_version_def
  by (rule sse_codecI)
    (simp_all add: sse_encode_ls_version_def sse_read reader_local split: ls_http_client_version.split)

lemmas [sse_read] = sse_codec.decode_encode [OF ls_version_sse]
lemmas [reader_local] = sse_codec.looks_no_further [OF ls_version_sse]

section \<open>Structures\<close>

definition sse_encode_client_info :: "frb \<Rightarrow> client_info \<Rightarrow> bytes" where
  "sse_encode_client_info F v =
     sse_encode_uuid F (ci_id v) @ sse_encode_string F (ci_alias v) @ sse_encode_string F (ci_version v) @
       sse_encode_option (sse_encode_string F) (ci_device_model v) @
       sse_encode_option (sse_encode_device_type F) (ci_device_type v) @
       sse_encode_string F (ci_token v)"

definition sse_decode_client_info :: "frb \<Rightarrow> client_info reader" where
  "sse_decode_client_info F =
     rd_bind (sse_decode_uuid F) (\<lambda>var_id.
     rd_bind (sse_decode_string F) (\<lambda>var_alias.
     rd_bind (sse_decode_string F) (\<lambda>var_version.
     rd_bind (sse_decode_option (sse_decode_string F)) (\<lambda>var_device_model.
     rd_bind (sse_decode_option (sse_decode_device_type F)) (\<lambda>var_device_type.
     rd_bind (sse_decode_string F) (\<lambda>var_token.
       rd_ret \<lparr>ci_id = var_id, ci_alias = var_alias, ci_version = var_version,
         ci_device_model = var_device_model, ci_device_type = var_device_type,
         ci_token = var_token\<rparr>))))))"

definition ok_client_info :: "client_info \<Rightarrow> bool" where
  "ok_client_info v \<longleftrightarrow> ok_string (ci_alias v) \<and> ok_string (ci_version v) \<and>
         ok_option ok_string (ci_device_model v) \<and> ok_string (ci_token v)"

lemma client_info_sse [sse_codecs]:
  "frb_law F \<Longrightarrow>
    sse_codec (sse_encode_client_info F) (sse_decode_client_info F) ok_client_info"
  unfolding sse_decode_client_info_def
  by (rule sse_codecI)
    (simp_all add: sse_encode_client_info_def ok_client_info_def sse_read reader_local)

lemmas [sse_read] = sse_codec.decode_encode [OF client_info_sse]
  sse_codec.decode_encode [OF vec_sse [OF _ client_info_sse]]
lemmas [reader_local] = sse_codec.looks_no_further [OF client_info_sse]

definition sse_encode_client_info_without_id :: "frb \<Rightarrow> client_info_without_id \<Rightarrow> bytes" where
  "sse_encode_client_info_without_id F v =
     sse_encode_string F (cw_alias v) @ sse_encode_string F (cw_version v) @
       sse_encode_option (sse_encode_string F) (cw_device_model v) @
       sse_encode_option (sse_encode_device_type F) (cw_device_type v) @
       sse_encode_string F (cw_token v)"

definition sse_decode_client_info_without_id :: "frb \<Rightarrow> client_info_without_id reader" where
  "sse_decode_client_info_without_id F =
     rd_bind (sse_decode_string F) (\<lambda>var_alias.
     rd_bind (sse_decode_string F) (\<lambda>var_version.
     rd_bind (sse_decode_option (sse_decode_string F)) (\<lambda>var_device_model.
     rd_bind (sse_decode_option (sse_decode_device_type F)) (\<lambda>var_device_type.
     rd_bind (sse_decode_string F) (\<lambda>var_token.
       rd_ret \<lparr>cw_alias = var_alias, cw_version = var_version, cw_device_model = var_device_model,
         cw_device_type = var_device_type, cw_token = var_token\<rparr>)))))"

definition ok_client_info_without_id :: "client_info_without_id \<Rightarrow> bool" where
  "ok_client_info_without_id v \<longleftrightarrow> ok_string (cw_alias v) \<and>
         ok_string (cw_version v) \<and> ok_option ok_string (cw_device_model v) \<and>
         ok_string (cw_token v)"

lemma client_info_without_id_sse [sse_codecs]:
  "frb_law F \<Longrightarrow>
    sse_codec (sse_encode_client_info_without_id F) (sse_decode_client_info_without_id F) ok_client_info_without_id"
  unfolding sse_decode_client_info_without_id_def
  by (rule sse_codecI)
    (simp_all add: sse_encode_client_info_without_id_def ok_client_info_without_id_def sse_read reader_local)

lemmas [sse_read] = sse_codec.decode_encode [OF client_info_without_id_sse]
lemmas [reader_local] = sse_codec.looks_no_further [OF client_info_without_id_sse]

definition sse_encode_proposing_client_info :: "frb \<Rightarrow> proposing_client_info \<Rightarrow> bytes" where
  "sse_encode_proposing_client_info F v =
     sse_encode_string F (pi_alias v) @ sse_encode_string F (pi_version v) @
       sse_encode_option (sse_encode_string F) (pi_device_model v) @
       sse_encode_option (sse_encode_device_type F) (pi_device_type v)"

definition sse_decode_proposing_client_info :: "frb \<Rightarrow> proposing_client_info reader" where
  "sse_decode_proposing_client_info F =
     rd_bind (sse_decode_string F) (\<lambda>var_alias.
     rd_bind (sse_decode_string F) (\<lambda>var_version.
     rd_bind (sse_decode_option (sse_decode_string F)) (\<lambda>var_device_model.
     rd_bind (sse_decode_option (sse_decode_device_type F)) (\<lambda>var_device_type.
       rd_ret \<lparr>pi_alias = var_alias, pi_version = var_version, pi_device_model = var_device_model,
         pi_device_type = var_device_type\<rparr>))))"

definition ok_proposing_client_info :: "proposing_client_info \<Rightarrow> bool" where
  "ok_proposing_client_info v \<longleftrightarrow> ok_string (pi_alias v) \<and>
         ok_string (pi_version v) \<and> ok_option ok_string (pi_device_model v)"

lemma proposing_client_info_sse [sse_codecs]:
  "frb_law F \<Longrightarrow>
    sse_codec (sse_encode_proposing_client_info F) (sse_decode_proposing_client_info F) ok_proposing_client_info"
  unfolding sse_decode_proposing_client_info_def
  by (rule sse_codecI)
    (simp_all add: sse_encode_proposing_client_info_def ok_proposing_client_info_def sse_read reader_local)

lemmas [sse_read] = sse_codec.decode_encode [OF proposing_client_info_sse]
lemmas [reader_local] = sse_codec.looks_no_further [OF proposing_client_info_sse]

definition sse_encode_expecting_public_key :: "frb \<Rightarrow> expecting_public_key \<Rightarrow> bytes" where
  "sse_encode_expecting_public_key F v =
     sse_encode_string F (ep_public_key v) @ sse_encode_string F (ep_kind v)"

definition sse_decode_expecting_public_key :: "frb \<Rightarrow> expecting_public_key reader" where
  "sse_decode_expecting_public_key F =
     rd_bind (sse_decode_string F) (\<lambda>var_public_key.
     rd_bind (sse_decode_string F) (\<lambda>var_kind.
       rd_ret \<lparr>ep_public_key = var_public_key, ep_kind = var_kind\<rparr>))"

definition ok_expecting_public_key :: "expecting_public_key \<Rightarrow> bool" where
  "ok_expecting_public_key v \<longleftrightarrow> ok_string (ep_public_key v) \<and> ok_string (ep_kind v)"

lemma expecting_public_key_sse [sse_codecs]:
  "frb_law F \<Longrightarrow>
    sse_codec (sse_encode_expecting_public_key F) (sse_decode_expecting_public_key F) ok_expecting_public_key"
  unfolding sse_decode_expecting_public_key_def
  by (rule sse_codecI)
    (simp_all add: sse_encode_expecting_public_key_def ok_expecting_public_key_def sse_read reader_local)

lemmas [sse_read] = sse_codec.decode_encode [OF expecting_public_key_sse]
  sse_codec.decode_encode [OF option_sse [OF expecting_public_key_sse]]
lemmas [reader_local] = sse_codec.looks_no_further [OF expecting_public_key_sse]

definition sse_encode_file_metadata :: "frb \<Rightarrow> file_metadata \<Rightarrow> bytes" where
  "sse_encode_file_metadata F v =
     sse_encode_option (sse_encode_string F) (fm_modified v) @
       sse_encode_option (sse_encode_string F) (fm_accessed v)"

definition sse_decode_file_metadata :: "frb \<Rightarrow> file_metadata reader" where
  "sse_decode_file_metadata F =
     rd_bind (sse_decode_option (sse_decode_string F)) (\<lambda>var_modified.
     rd_bind (sse_decode_option (sse_decode_string F)) (\<lambda>var_accessed.
       rd_ret \<lparr>fm_modified = var_modified, fm_accessed = var_accessed\<rparr>))"

definition ok_file_metadata :: "file_metadata \<Rightarrow> bool" where
  "ok_file_metadata v \<longleftrightarrow> ok_option ok_string (fm_modified v) \<and>
         ok_option ok_string (fm_accessed v)"

lemma file_metadata_sse [sse_codecs]:
  "frb_law F \<Longrightarrow>
    sse_codec (sse_encode_file_metadata F) (sse_decode_file_metadata F) ok_file_metadata"
  unfolding sse_decode_file_metadata_def
  by (rule sse_codecI)
    (simp_all add: sse_encode_file_metadata_def ok_file_metadata_def sse_read reader_local)

lemmas [sse_read] = sse_codec.decode_encode [OF file_metadata_sse]
  sse_codec.decode_encode [OF option_sse [OF file_metadata_sse]]
lemmas [reader_local] = sse_codec.looks_no_further [OF file_metadata_sse]

definition sse_encode_file_dto :: "frb \<Rightarrow> file_dto \<Rightarrow> bytes" where
  "sse_encode_file_dto F v =
     sse_encode_string F (fd_id v) @ sse_encode_string F (fd_file_name v) @ sse_encode_u64 F (fd_size v) @
       sse_encode_string F (fd_file_type v) @ sse_encode_option (sse_encode_string F) (fd_sha256 v) @
       sse_encode_option (sse_encode_string F) (fd_preview v) @
       sse_encode_option (sse_encode_file_metadata F) (fd_metadata v)"

definition sse_decode_file_dto :: "frb \<Rightarrow> file_dto reader" where
  "sse_decode_file_dto F =
     rd_bind (sse_decode_string F) (\<lambda>var_id.
     rd_bind (sse_decode_string F) (\<lambda>var_file_name.
     rd_bind (sse_decode_u64 F) (\<lambda>var_size.
     rd_bind (sse_decode_string F) (\<lambda>var_file_type.
     rd_bind (sse_decode_option (sse_decode_string F)) (\<lambda>var_sha256.
     rd_bind (sse_decode_option (sse_decode_string F)) (\<lambda>var_preview.
     rd_bind (sse_decode_option (sse_decode_file_metadata F)) (\<lambda>var_metadata.
       rd_ret \<lparr>fd_id = var_id, fd_file_name = var_file_name, fd_size = var_size,
         fd_file_type = var_file_type, fd_sha256 = var_sha256, fd_preview = var_preview,
         fd_metadata = var_metadata\<rparr>)))))))"

definition ok_file_dto :: "file_dto \<Rightarrow> bool" where
  "ok_file_dto v \<longleftrightarrow> ok_string (fd_id v) \<and> ok_string (fd_file_name v) \<and>
         ok_string (fd_file_type v) \<and> ok_option ok_string (fd_sha256 v) \<and>
         ok_option ok_string (fd_preview v) \<and> ok_option ok_file_metadata (fd_metadata v)"

lemma file_dto_sse [sse_codecs]:
  "frb_law F \<Longrightarrow>
    sse_codec (sse_encode_file_dto F) (sse_decode_file_dto F) ok_file_dto"
  unfolding sse_decode_file_dto_def
  by (rule sse_codecI)
    (simp_all add: sse_encode_file_dto_def ok_file_dto_def sse_read reader_local)

lemmas [sse_read] = sse_codec.decode_encode [OF file_dto_sse]
  sse_codec.decode_encode [OF map_sse [OF _ file_dto_sse]]
  sse_codec.decode_encode [OF vec_sse [OF _ file_dto_sse]]
lemmas [reader_local] = sse_codec.looks_no_further [OF file_dto_sse]

definition sse_encode_key_pair :: "frb \<Rightarrow> key_pair \<Rightarrow> bytes" where
  "sse_encode_key_pair F v =
     sse_encode_string F (kpr_private_key v) @ sse_encode_string F (kpr_public_key v)"

definition sse_decode_key_pair :: "frb \<Rightarrow> key_pair reader" where
  "sse_decode_key_pair F =
     rd_bind (sse_decode_string F) (\<lambda>var_private_key.
     rd_bind (sse_decode_string F) (\<lambda>var_public_key.
       rd_ret \<lparr>kpr_private_key = var_private_key, kpr_public_key = var_public_key\<rparr>))"

definition ok_key_pair :: "key_pair \<Rightarrow> bool" where
  "ok_key_pair v \<longleftrightarrow> ok_string (kpr_private_key v) \<and> ok_string (kpr_public_key v)"

lemma key_pair_sse [sse_codecs]:
  "frb_law F \<Longrightarrow>
    sse_codec (sse_encode_key_pair F) (sse_decode_key_pair F) ok_key_pair"
  unfolding sse_decode_key_pair_def
  by (rule sse_codecI)
    (simp_all add: sse_encode_key_pair_def ok_key_pair_def sse_read reader_local)

lemmas [sse_read] = sse_codec.decode_encode [OF key_pair_sse]
lemmas [reader_local] = sse_codec.looks_no_further [OF key_pair_sse]

definition sse_encode_pin_config :: "frb \<Rightarrow> pin_config \<Rightarrow> bytes" where
  "sse_encode_pin_config F v =
     sse_encode_string F (pc_pin v) @ sse_encode_u8 (pc_max_tries v)"

definition sse_decode_pin_config :: "frb \<Rightarrow> pin_config reader" where
  "sse_decode_pin_config F =
     rd_bind (sse_decode_string F) (\<lambda>var_pin.
     rd_bind sse_decode_u8 (\<lambda>var_max_tries.
       rd_ret \<lparr>pc_pin = var_pin, pc_max_tries = var_max_tries\<rparr>))"

definition ok_pin_config :: "pin_config \<Rightarrow> bool" where
  "ok_pin_config v \<longleftrightarrow> ok_string (pc_pin v)"

lemma pin_config_sse [sse_codecs]:
  "frb_law F \<Longrightarrow>
    sse_codec (sse_encode_pin_config F) (sse_decode_pin_config F) ok_pin_config"
  unfolding sse_decode_pin_config_def
  by (rule sse_codecI)
    (simp_all add: sse_encode_pin_config_def ok_pin_config_def sse_read reader_local)

lemmas [sse_read] = sse_codec.decode_encode [OF pin_config_sse]
  sse_codec.decode_encode [OF option_sse [OF pin_config_sse]]
lemmas [reader_local] = sse_codec.looks_no_further [OF pin_config_sse]

definition sse_encode_register_dto :: "frb \<Rightarrow> register_dto \<Rightarrow> bytes" where
  "sse_encode_register_dto F v =
     sse_encode_string F (rd_alias v) @ sse_encode_string F (rd_version v) @
       sse_encode_option (sse_encode_string F) (rd_device_model v) @
       sse_encode_option (sse_encode_device_type F) (rd_device_type v) @ sse_encode_string F (rd_token v) @
       sse_encode_u16 F (rd_port v) @ sse_encode_protocol_type F (rd_protocol v) @
       sse_encode_bool (rd_has_web_interface v)"

definition sse_decode_register_dto :: "frb \<Rightarrow> register_dto reader" where
  "sse_decode_register_dto F =
     rd_bind (sse_decode_string F) (\<lambda>var_alias.
     rd_bind (sse_decode_string F) (\<lambda>var_version.
     rd_bind (sse_decode_option (sse_decode_string F)) (\<lambda>var_device_model.
     rd_bind (sse_decode_option (sse_decode_device_type F)) (\<lambda>var_device_type.
     rd_bind (sse_decode_string F) (\<lambda>var_token.
     rd_bind (sse_decode_u16 F) (\<lambda>var_port.
     rd_bind (sse_decode_protocol_type F) (\<lambda>var_protocol.
     rd_bind sse_decode_bool (\<lambda>var_has_web_interface.
       rd_ret \<lparr>rd_alias = var_alias, rd_version = var_version, rd_device_model = var_device_model,
         rd_device_type = var_device_type, rd_token = var_token, rd_port = var_port,
         rd_protocol = var_protocol, rd_has_web_interface = var_has_web_interface\<rparr>))))))))"

definition ok_register_dto :: "register_dto \<Rightarrow> bool" where
  "ok_register_dto v \<longleftrightarrow> ok_string (rd_alias v) \<and> ok_string (rd_version v) \<and>
         ok_option ok_string (rd_device_model v) \<and> ok_string (rd_token v)"

lemma register_dto_sse [sse_codecs]:
  "frb_law F \<Longrightarrow>
    sse_codec (sse_encode_register_dto F) (sse_decode_register_dto F) ok_register_dto"
  unfolding sse_decode_register_dto_def
  by (rule sse_codecI)
    (simp_all add: sse_encode_register_dto_def ok_register_dto_def sse_read reader_local)

lemmas [sse_read] = sse_codec.decode_encode [OF register_dto_sse]
lemmas [reader_local] = sse_codec.looks_no_further [OF register_dto_sse]

definition sse_encode_register_response_dto :: "frb \<Rightarrow> register_response_dto \<Rightarrow> bytes" where
  "sse_encode_register_response_dto F v =
     sse_encode_string F (rr_alias v) @ sse_encode_string F (rr_version v) @
       sse_encode_option (sse_encode_string F) (rr_device_model v) @
       sse_encode_option (sse_encode_device_type F) (rr_device_type v) @ sse_encode_string F (rr_token v) @
       sse_encode_bool (rr_has_web_interface v)"

definition sse_decode_register_response_dto :: "frb \<Rightarrow> register_response_dto reader" where
  "sse_decode_register_response_dto F =
     rd_bind (sse_decode_string F) (\<lambda>var_alias.
     rd_bind (sse_decode_string F) (\<lambda>var_version.
     rd_bind (sse_decode_option (sse_decode_string F)) (\<lambda>var_device_model.
     rd_bind (sse_decode_option (sse_decode_device_type F)) (\<lambda>var_device_type.
     rd_bind (sse_decode_string F) (\<lambda>var_token.
     rd_bind sse_decode_bool (\<lambda>var_has_web_interface.
       rd_ret \<lparr>rr_alias = var_alias, rr_version = var_version, rr_device_model = var_device_model,
         rr_device_type = var_device_type, rr_token = var_token,
         rr_has_web_interface = var_has_web_interface\<rparr>))))))"

definition ok_register_response_dto :: "register_response_dto \<Rightarrow> bool" where
  "ok_register_response_dto v \<longleftrightarrow> ok_string (rr_alias v) \<and>
         ok_string (rr_version v) \<and> ok_option ok_string (rr_device_model v) \<and>
         ok_string (rr_token v)"

lemma register_response_dto_sse [sse_codecs]:
  "frb_law F \<Longrightarrow>
    sse_codec (sse_encode_register_response_dto F) (sse_decode_register_response_dto F) ok_register_response_dto"
  unfolding sse_decode_register_response_dto_def
  by (rule sse_codecI)
    (simp_all add: sse_encode_register_response_dto_def ok_register_response_dto_def sse_read reader_local)

lemmas [sse_read] = sse_codec.decode_encode [OF register_response_dto_sse]
lemmas [reader_local] = sse_codec.looks_no_further [OF register_response_dto_sse]

definition sse_encode_rs_register_result :: "frb \<Rightarrow> rs_register_result \<Rightarrow> bytes" where
  "sse_encode_rs_register_result F v =
     sse_encode_option (sse_encode_string F) (rr_public_key v) @ sse_encode_register_response_dto F (rr_body v)"

definition sse_decode_rs_register_result :: "frb \<Rightarrow> rs_register_result reader" where
  "sse_decode_rs_register_result F =
     rd_bind (sse_decode_option (sse_decode_string F)) (\<lambda>var_public_key.
     rd_bind (sse_decode_register_response_dto F) (\<lambda>var_body.
       rd_ret \<lparr>rr_public_key = var_public_key, rr_body = var_body\<rparr>))"

definition ok_rs_register_result :: "rs_register_result \<Rightarrow> bool" where
  "ok_rs_register_result v \<longleftrightarrow> ok_option ok_string (rr_public_key v) \<and>
         ok_register_response_dto (rr_body v)"

lemma rs_register_result_sse [sse_codecs]:
  "frb_law F \<Longrightarrow>
    sse_codec (sse_encode_rs_register_result F) (sse_decode_rs_register_result F) ok_rs_register_result"
  unfolding sse_decode_rs_register_result_def
  by (rule sse_codecI)
    (simp_all add: sse_encode_rs_register_result_def ok_rs_register_result_def sse_read reader_local)

lemmas [sse_read] = sse_codec.decode_encode [OF rs_register_result_sse]
lemmas [reader_local] = sse_codec.looks_no_further [OF rs_register_result_sse]

definition sse_encode_prepare_upload_request_dto :: "frb \<Rightarrow> prepare_upload_request_dto \<Rightarrow> bytes" where
  "sse_encode_prepare_upload_request_dto F v =
     sse_encode_register_dto F (pu_info v) @ sse_encode_map F (sse_encode_file_dto F) (pu_files v)"

definition sse_decode_prepare_upload_request_dto :: "frb \<Rightarrow> prepare_upload_request_dto reader" where
  "sse_decode_prepare_upload_request_dto F =
     rd_bind (sse_decode_register_dto F) (\<lambda>var_info.
     rd_bind (sse_decode_map F (sse_decode_file_dto F)) (\<lambda>var_files.
       rd_ret \<lparr>pu_info = var_info, pu_files = var_files\<rparr>))"

definition ok_prepare_upload_request_dto :: "prepare_upload_request_dto \<Rightarrow> bool" where
  "ok_prepare_upload_request_dto v \<longleftrightarrow> ok_register_dto (pu_info v) \<and>
         ok_map ok_file_dto (pu_files v)"

lemma prepare_upload_request_dto_sse [sse_codecs]:
  "frb_law F \<Longrightarrow>
    sse_codec (sse_encode_prepare_upload_request_dto F) (sse_decode_prepare_upload_request_dto F) ok_prepare_upload_request_dto"
  unfolding sse_decode_prepare_upload_request_dto_def
  by (rule sse_codecI)
    (simp_all add: sse_encode_prepare_upload_request_dto_def ok_prepare_upload_request_dto_def sse_read reader_local)

lemmas [sse_read] = sse_codec.decode_encode [OF prepare_upload_request_dto_sse]
lemmas [reader_local] = sse_codec.looks_no_further [OF prepare_upload_request_dto_sse]

definition sse_encode_prepare_upload_response_dto :: "frb \<Rightarrow> prepare_upload_response_dto \<Rightarrow> bytes" where
  "sse_encode_prepare_upload_response_dto F v =
     sse_encode_string F (ps_session_id v) @ sse_encode_map F (sse_encode_string F) (ps_files v)"

definition sse_decode_prepare_upload_response_dto :: "frb \<Rightarrow> prepare_upload_response_dto reader" where
  "sse_decode_prepare_upload_response_dto F =
     rd_bind (sse_decode_string F) (\<lambda>var_session_id.
     rd_bind (sse_decode_map F (sse_decode_string F)) (\<lambda>var_files.
       rd_ret \<lparr>ps_session_id = var_session_id, ps_files = var_files\<rparr>))"

definition ok_prepare_upload_response_dto :: "prepare_upload_response_dto \<Rightarrow> bool" where
  "ok_prepare_upload_response_dto v \<longleftrightarrow> ok_string (ps_session_id v) \<and>
         ok_map ok_string (ps_files v)"

lemma prepare_upload_response_dto_sse [sse_codecs]:
  "frb_law F \<Longrightarrow>
    sse_codec (sse_encode_prepare_upload_response_dto F) (sse_decode_prepare_upload_response_dto F) ok_prepare_upload_response_dto"
  unfolding sse_decode_prepare_upload_response_dto_def
  by (rule sse_codecI)
    (simp_all add: sse_encode_prepare_upload_response_dto_def ok_prepare_upload_response_dto_def sse_read reader_local)

lemmas [sse_read] = sse_codec.decode_encode [OF prepare_upload_response_dto_sse]
  sse_codec.decode_encode [OF option_sse [OF prepare_upload_response_dto_sse]]
lemmas [reader_local] = sse_codec.looks_no_further [OF prepare_upload_response_dto_sse]

definition sse_encode_prepare_upload_result :: "frb \<Rightarrow> prepare_upload_result \<Rightarrow> bytes" where
  "sse_encode_prepare_upload_result F v =
     sse_encode_u16 F (pr_status_code v) @
       sse_encode_option (sse_encode_prepare_upload_response_dto F) (pr_response v)"

definition sse_decode_prepare_upload_result :: "frb \<Rightarrow> prepare_upload_result reader" where
  "sse_decode_prepare_upload_result F =
     rd_bind (sse_decode_u16 F) (\<lambda>var_status_code.
     rd_bind (sse_decode_option (sse_decode_prepare_upload_response_dto F)) (\<lambda>var_response.
       rd_ret \<lparr>pr_status_code = var_status_code, pr_response = var_response\<rparr>))"

definition ok_prepare_upload_result :: "prepare_upload_result \<Rightarrow> bool" where
  "ok_prepare_upload_result v \<longleftrightarrow> ok_option ok_prepare_upload_response_dto (pr_response v)"

lemma prepare_upload_result_sse [sse_codecs]:
  "frb_law F \<Longrightarrow>
    sse_codec (sse_encode_prepare_upload_result F) (sse_decode_prepare_upload_result F) ok_prepare_upload_result"
  unfolding sse_decode_prepare_upload_result_def
  by (rule sse_codecI)
    (simp_all add: sse_encode_prepare_upload_result_def ok_prepare_upload_result_def sse_read reader_local)

lemmas [sse_read] = sse_codec.decode_encode [OF prepare_upload_result_sse]
lemmas [reader_local] = sse_codec.looks_no_further [OF prepare_upload_result_sse]

definition sse_encode_rtc_file_error :: "frb \<Rightarrow> rtc_file_error \<Rightarrow> bytes" where
  "sse_encode_rtc_file_error F v =
     sse_encode_string F (fe_file_id v) @ sse_encode_string F (fe_error v)"

definition sse_decode_rtc_file_error :: "frb \<Rightarrow> rtc_file_error reader" where
  "sse_decode_rtc_file_error F =
     rd_bind (sse_decode_string F) (\<lambda>var_file_id.
     rd_bind (sse_decode_string F) (\<lambda>var_error.
       rd_ret \<lparr>fe_file_id = var_file_id, fe_error = var_error\<rparr>))"

definition ok_rtc_file_error :: "rtc_file_error \<Rightarrow> bool" where
  "ok_rtc_file_error v \<longleftrightarrow> ok_string (fe_file_id v) \<and> ok_string (fe_error v)"

lemma rtc_file_error_sse [sse_codecs]:
  "frb_law F \<Longrightarrow>
    sse_codec (sse_encode_rtc_file_error F) (sse_decode_rtc_file_error F) ok_rtc_file_error"
  unfolding sse_decode_rtc_file_error_def
  by (rule sse_codecI)
    (simp_all add: sse_encode_rtc_file_error_def ok_rtc_file_error_def sse_read reader_local)

lemmas [sse_read] = sse_codec.decode_encode [OF rtc_file_error_sse]
lemmas [reader_local] = sse_codec.looks_no_further [OF rtc_file_error_sse]

definition sse_encode_rtc_send_file_response :: "frb \<Rightarrow> rtc_send_file_response \<Rightarrow> bytes" where
  "sse_encode_rtc_send_file_response F v =
     sse_encode_string F (fr_id v) @ sse_encode_bool (fr_success v) @
       sse_encode_option (sse_encode_string F) (fr_error v)"

definition sse_decode_rtc_send_file_response :: "frb \<Rightarrow> rtc_send_file_response reader" where
  "sse_decode_rtc_send_file_response F =
     rd_bind (sse_decode_string F) (\<lambda>var_id.
     rd_bind sse_decode_bool (\<lambda>var_success.
     rd_bind (sse_decode_option (sse_decode_string F)) (\<lambda>var_error.
       rd_ret \<lparr>fr_id = var_id, fr_success = var_success, fr_error = var_error\<rparr>)))"

definition ok_rtc_send_file_response :: "rtc_send_file_response \<Rightarrow> bool" where
  "ok_rtc_send_file_response v \<longleftrightarrow> ok_string (fr_id v) \<and>
         ok_option ok_string (fr_error v)"

lemma rtc_send_file_response_sse [sse_codecs]:
  "frb_law F \<Longrightarrow>
    sse_codec (sse_encode_rtc_send_file_response F) (sse_decode_rtc_send_file_response F) ok_rtc_send_file_response"
  unfolding sse_decode_rtc_send_file_response_def
  by (rule sse_codecI)
    (simp_all add: sse_encode_rtc_send_file_response_def ok_rtc_send_file_response_def sse_read reader_local)

lemmas [sse_read] = sse_codec.decode_encode [OF rtc_send_file_response_sse]
lemmas [reader_local] = sse_codec.looks_no_further [OF rtc_send_file_response_sse]

definition sse_encode_ws_server_sdp_message :: "frb \<Rightarrow> ws_server_sdp_message \<Rightarrow> bytes" where
  "sse_encode_ws_server_sdp_message F v =
     sse_encode_client_info F (ss_peer v) @ sse_encode_string F (ss_session_id v) @
       sse_encode_string F (ss_sdp v)"

definition sse_decode_ws_server_sdp_message :: "frb \<Rightarrow> ws_server_sdp_message reader" where
  "sse_decode_ws_server_sdp_message F =
     rd_bind (sse_decode_client_info F) (\<lambda>var_peer.
     rd_bind (sse_decode_string F) (\<lambda>var_session_id.
     rd_bind (sse_decode_string F) (\<lambda>var_sdp.
       rd_ret \<lparr>ss_peer = var_peer, ss_session_id = var_session_id, ss_sdp = var_sdp\<rparr>)))"

definition ok_ws_server_sdp_message :: "ws_server_sdp_message \<Rightarrow> bool" where
  "ok_ws_server_sdp_message v \<longleftrightarrow> ok_client_info (ss_peer v) \<and>
         ok_string (ss_session_id v) \<and> ok_string (ss_sdp v)"

lemma ws_server_sdp_message_sse [sse_codecs]:
  "frb_law F \<Longrightarrow>
    sse_codec (sse_encode_ws_server_sdp_message F) (sse_decode_ws_server_sdp_message F) ok_ws_server_sdp_message"
  unfolding sse_decode_ws_server_sdp_message_def
  by (rule sse_codecI)
    (simp_all add: sse_encode_ws_server_sdp_message_def ok_ws_server_sdp_message_def sse_read reader_local)

lemmas [sse_read] = sse_codec.decode_encode [OF ws_server_sdp_message_sse]
lemmas [reader_local] = sse_codec.looks_no_further [OF ws_server_sdp_message_sse]

section \<open>Enums with content\<close>

fun sse_encode_rs_http_client_error :: "frb \<Rightarrow> rs_http_client_error \<Rightarrow> bytes" where
  "sse_encode_rs_http_client_error F (RsStatusCode status message) = sse_encode_i32 F 0 @
         sse_encode_u16 F status @ sse_encode_option (sse_encode_string F) message"
| "sse_encode_rs_http_client_error F (RsReqwest field0) = sse_encode_i32 F 1 @ sse_encode_string F field0"
| "sse_encode_rs_http_client_error F (RsJson field0) = sse_encode_i32 F 2 @ sse_encode_string F field0"
| "sse_encode_rs_http_client_error F (RsIo field0) = sse_encode_i32 F 3 @ sse_encode_string F field0"
| "sse_encode_rs_http_client_error F (RsOther field0) = sse_encode_i32 F 4 @ sse_encode_string F field0"

definition sse_decode_rs_http_client_error :: "frb \<Rightarrow> rs_http_client_error reader" where
  "sse_decode_rs_http_client_error F = rd_bind (sse_decode_i32 F) (\<lambda>tag.
     if tag = 0 then rd_bind (sse_decode_u16 F) (\<lambda>status.
         rd_bind (sse_decode_option (sse_decode_string F)) (\<lambda>message.
         rd_ret (RsStatusCode status message)))
     else if tag = 1 then rd_bind (sse_decode_string F) (\<lambda>field0.
         rd_ret (RsReqwest field0))
     else if tag = 2 then rd_bind (sse_decode_string F) (\<lambda>field0.
         rd_ret (RsJson field0))
     else if tag = 3 then rd_bind (sse_decode_string F) (\<lambda>field0.
         rd_ret (RsIo field0))
     else if tag = 4 then rd_bind (sse_decode_string F) (\<lambda>field0.
         rd_ret (RsOther field0))
     else rd_panic)"

fun ok_rs_http_client_error :: "rs_http_client_error \<Rightarrow> bool" where
  "ok_rs_http_client_error (RsStatusCode _ message) = (ok_option ok_string message)"
| "ok_rs_http_client_error (RsReqwest field0) = (ok_string field0)"
| "ok_rs_http_client_error (RsJson field0) = (ok_string field0)"
| "ok_rs_http_client_error (RsIo field0) = (ok_string field0)"
| "ok_rs_http_client_error (RsOther field0) = (ok_string field0)"

lemma rs_http_client_error_sse [sse_codecs]:
  assumes F: "frb_law F"
  shows "sse_codec (sse_encode_rs_http_client_error F) (sse_decode_rs_http_client_error F) ok_rs_http_client_error"
proof (rule sse_codecI)
  show "sse_decode_rs_http_client_error F (sse_encode_rs_http_client_error F v @ rest) = Some (v, rest)"
    if "ok_rs_http_client_error v" for v rest
    using that by (cases v) (simp_all add: F sse_decode_rs_http_client_error_def sse_read)
qed (simp add: F sse_decode_rs_http_client_error_def reader_local)

lemmas [sse_read] = sse_codec.decode_encode [OF rs_http_client_error_sse]
lemmas [reader_local] = sse_codec.looks_no_further [OF rs_http_client_error_sse]

fun sse_encode_rtc_status :: "frb \<Rightarrow> rtc_status \<Rightarrow> bytes" where
  "sse_encode_rtc_status F SdpExchanged = sse_encode_i32 F 0"
| "sse_encode_rtc_status F Connected = sse_encode_i32 F 1"
| "sse_encode_rtc_status F PinRequired = sse_encode_i32 F 2"
| "sse_encode_rtc_status F TooManyAttempts = sse_encode_i32 F 3"
| "sse_encode_rtc_status F Declined = sse_encode_i32 F 4"
| "sse_encode_rtc_status F Sending = sse_encode_i32 F 5"
| "sse_encode_rtc_status F Finished = sse_encode_i32 F 6"
| "sse_encode_rtc_status F (StError field0) = sse_encode_i32 F 7 @ sse_encode_string F field0"

definition sse_decode_rtc_status :: "frb \<Rightarrow> rtc_status reader" where
  "sse_decode_rtc_status F = rd_bind (sse_decode_i32 F) (\<lambda>tag.
     if tag = 0 then rd_ret SdpExchanged
     else if tag = 1 then rd_ret Connected
     else if tag = 2 then rd_ret PinRequired
     else if tag = 3 then rd_ret TooManyAttempts
     else if tag = 4 then rd_ret Declined
     else if tag = 5 then rd_ret Sending
     else if tag = 6 then rd_ret Finished
     else if tag = 7 then rd_bind (sse_decode_string F) (\<lambda>field0.
         rd_ret (StError field0))
     else rd_panic)"

fun ok_rtc_status :: "rtc_status \<Rightarrow> bool" where
  "ok_rtc_status SdpExchanged = True"
| "ok_rtc_status Connected = True"
| "ok_rtc_status PinRequired = True"
| "ok_rtc_status TooManyAttempts = True"
| "ok_rtc_status Declined = True"
| "ok_rtc_status Sending = True"
| "ok_rtc_status Finished = True"
| "ok_rtc_status (StError field0) = (ok_string field0)"

lemma rtc_status_sse [sse_codecs]:
  assumes F: "frb_law F"
  shows "sse_codec (sse_encode_rtc_status F) (sse_decode_rtc_status F) ok_rtc_status"
proof (rule sse_codecI)
  show "sse_decode_rtc_status F (sse_encode_rtc_status F v @ rest) = Some (v, rest)"
    if "ok_rtc_status v" for v rest
    using that by (cases v) (simp_all add: F sse_decode_rtc_status_def sse_read)
qed (simp add: F sse_decode_rtc_status_def reader_local)

lemmas [sse_read] = sse_codec.decode_encode [OF rtc_status_sse]
lemmas [reader_local] = sse_codec.looks_no_further [OF rtc_status_sse]

fun sse_encode_ws_server_message :: "frb \<Rightarrow> ws_server_message \<Rightarrow> bytes" where
  "sse_encode_ws_server_message F (Hello client peers) = sse_encode_i32 F 0 @
         sse_encode_client_info F client @ sse_encode_vec F (sse_encode_client_info F) peers"
| "sse_encode_ws_server_message F (Join peer) = sse_encode_i32 F 1 @ sse_encode_client_info F peer"
| "sse_encode_ws_server_message F (Update peer) = sse_encode_i32 F 2 @ sse_encode_client_info F peer"
| "sse_encode_ws_server_message F (Left peer_id) = sse_encode_i32 F 3 @ sse_encode_uuid F peer_id"
| "sse_encode_ws_server_message F (Offer field0) = sse_encode_i32 F 4 @
       sse_encode_ws_server_sdp_message F field0"
| "sse_encode_ws_server_message F (Answer field0) = sse_encode_i32 F 5 @
       sse_encode_ws_server_sdp_message F field0"
| "sse_encode_ws_server_message F (Error code) = sse_encode_i32 F 6 @ sse_encode_u16 F code"

definition sse_decode_ws_server_message :: "frb \<Rightarrow> ws_server_message reader" where
  "sse_decode_ws_server_message F = rd_bind (sse_decode_i32 F) (\<lambda>tag.
     if tag = 0 then rd_bind (sse_decode_client_info F) (\<lambda>client.
         rd_bind (sse_decode_vec F (sse_decode_client_info F)) (\<lambda>peers.
         rd_ret (Hello client peers)))
     else if tag = 1 then rd_bind (sse_decode_client_info F) (\<lambda>peer.
         rd_ret (Join peer))
     else if tag = 2 then rd_bind (sse_decode_client_info F) (\<lambda>peer.
         rd_ret (Update peer))
     else if tag = 3 then rd_bind (sse_decode_uuid F) (\<lambda>peer_id.
         rd_ret (Left peer_id))
     else if tag = 4 then rd_bind (sse_decode_ws_server_sdp_message F) (\<lambda>field0.
         rd_ret (Offer field0))
     else if tag = 5 then rd_bind (sse_decode_ws_server_sdp_message F) (\<lambda>field0.
         rd_ret (Answer field0))
     else if tag = 6 then rd_bind (sse_decode_u16 F) (\<lambda>code.
         rd_ret (Error code))
     else rd_panic)"

fun ok_ws_server_message :: "ws_server_message \<Rightarrow> bool" where
  "ok_ws_server_message (Hello client peers) = (ok_client_info client \<and> ok_vec ok_client_info peers)"
| "ok_ws_server_message (Join peer) = (ok_client_info peer)"
| "ok_ws_server_message (Update peer) = (ok_client_info peer)"
| "ok_ws_server_message (Left _) = True"
| "ok_ws_server_message (Offer field0) = (ok_ws_server_sdp_message field0)"
| "ok_ws_server_message (Answer field0) = (ok_ws_server_sdp_message field0)"
| "ok_ws_server_message (Error _) = True"

lemma ws_server_message_sse [sse_codecs]:
  assumes F: "frb_law F"
  shows "sse_codec (sse_encode_ws_server_message F) (sse_decode_ws_server_message F) ok_ws_server_message"
proof (rule sse_codecI)
  show "sse_decode_ws_server_message F (sse_encode_ws_server_message F v @ rest) = Some (v, rest)"
    if "ok_ws_server_message v" for v rest
    using that by (cases v) (simp_all add: F sse_decode_ws_server_message_def sse_read)
qed (simp add: F sse_decode_ws_server_message_def reader_local)

lemmas [sse_read] = sse_codec.decode_encode [OF ws_server_message_sse]
lemmas [reader_local] = sse_codec.looks_no_further [OF ws_server_message_sse]

section \<open>Handles in the messages of the app\<close>

text \<open>The app sends the address of an object, the name of a stream, the number of a function.\<close>

lemma opaque_sse [sse_codecs]:
  "frb_law F \<Longrightarrow> sse_codec (sse_encode_usize F) (sse_decode_opaque F) (\<lambda>_. True)"
  "frb_law F \<Longrightarrow> sse_codec (sse_encode_usize F) (sse_decode_owned F) (\<lambda>_. True)"
  "frb_law F \<Longrightarrow> sse_codec (sse_encode_dart_opaque F) (sse_decode_dart_opaque F) (\<lambda>_. True)"
  using usize_sse [of F] unfolding handle_readers sse_encode_dart_opaque_def by (simp_all cong: if_cong)

lemma sink_sse [sse_codecs]:
  "frb_law F \<Longrightarrow> sse_codec (sse_encode_string F) (sse_decode_sink F) ok_string"
  unfolding handle_readers by (rule string_sse)

end
