(* ===== verification/Bridge_Calls.thy ===== *)
theory Bridge_Calls
  imports Bridge_Types
begin

text \<open>
  The calls of the bridge, \<open>app/rust/src/frb_generated.rs\<close>: one \<open>wire_\<close> function for every function
  and method of \<open>app/rust/src/api\<close>, and the two dispatchers that choose among them by number. A
  wire function decodes its arguments from the message of the app, checks that the message is used
  up, locks the object it works on, runs the function, and encodes the result or the error.

  The objects the app holds are in tables by their address. A call that does not wait for anything
  but its locks is one step. A call that awaits a channel (listening to a stream, waiting for a
  one-shot answer, uploading) is started and then goes on step by step, with other calls and events
  in between; it holds the lock of its object until it returns, and a call that needs the lock has
  to wait, which means that it is made again later. What a call puts into a stream of the app, the
  requests it sends and the tasks it spawns are appended to logs.
\<close>

section \<open>Objects, locks, outcomes\<close>

text \<open>
  A call in progress: waiting for an answer that comes, putting into a stream of the app what a
  channel delivers until it is closed (received files become objects on the way), or uploading
  what arrives in a stream. The first component is the locks it holds, and whether exclusively.
\<close>

datatype running =
    Answering "(usize \<times> bool) list" "bytes + bytes"
  | Streaming "(usize \<times> bool) list" string "(anyhow + bytes) list" "bytes + bytes"
  | StreamingFiles "(usize \<times> bool) list" string "(anyhow + file_receiver) list" "bytes + bytes"
  | Uploading "(usize \<times> bool) list" usize "bytes list \<Rightarrow> unit rs_call"

fun running_locks :: "running \<Rightarrow> (usize \<times> bool) list" where
  "running_locks (Answering locks reply) = locks"
| "running_locks (Streaming locks sink items reply) = locks"
| "running_locks (StreamingFiles locks sink items reply) = locks"
| "running_locks (Uploading locks sink call) = locks"

record 'c world =
  w_sinks :: "(usize, dart_stream) hmap"
  w_receivers :: "(usize, usize) hmap"                \<comment> \<open>and the sink at its other end\<close>
  w_clients :: "(usize, 'c rs_http_client) hmap"
  w_connections :: "(usize, unit managed) hmap"
  w_send_controllers :: "(usize, send_controller) hmap"
  w_receive_controllers :: "(usize, receive_controller) hmap"
  w_file_senders :: "(usize, dart_stream) hmap"
  w_file_receivers :: "(usize, file_receiver) hmap"
  w_orphans :: "(usize, dart_stream) hmap"            \<comment> \<open>streams whose sink the app has dropped\<close>
  w_running :: "(nat, running) hmap"                  \<comment> \<open>calls in progress\<close>
  w_started :: nat
  w_allocated :: nat
  w_streamed :: "(string \<times> (anyhow + bytes)) list"    \<comment> \<open>stream, and \<open>add_error\<close> or \<open>add\<close>\<close>
  w_requests :: "http_request list"
  w_tasks :: "unit prog list"
  w_decided :: "(usize \<times> string list option) list"    \<comment> \<open>what reached a transfer: the selection\<close>
  w_pins :: "(usize \<times> string) list"                   \<comment> \<open>and the PINs\<close>

definition held :: "(nat, running) hmap \<Rightarrow> (usize \<times> bool) list" where
  "held calls = concat (map running_locks (hm_values calls))"

definition w_holds :: "('c, 'x) world_scheme \<Rightarrow> (usize \<times> bool) list" where
  "w_holds w = held (w_running w)"

text \<open>The crates, and what the network, the allocator and the transfers will do.\<close>

record ('z, 'cert, 'key, 'i, 'c, 'd) host =
  ho_frb :: frb
  ho_crates :: "'z crates_scheme"
  ho_zlib :: zlib
  ho_x509 :: "('cert, 'key) x509"
  ho_reqwest :: "'i reqwest"
  ho_lru :: "'c lru_cache"
  ho_parsers :: key_parsers
  ho_now :: "anyhow + u64"
  ho_net :: "string \<Rightarrow> anyhow + ws_frame list"
  ho_generated_key :: signing_token_key
  ho_logging :: "anyhow + unit"
  ho_signaling_open :: "usize \<Rightarrow> bool"
  ho_dart_fn :: "usize \<Rightarrow> usize \<times> 32 word \<Rightarrow> bytes"   \<comment> \<open>the answer of a function of the app\<close>
  ho_address :: "nat \<Rightarrow> usize \<times> 32 word"             \<comment> \<open>address and size of the \<open>n\<close>th object\<close>
  ho_env :: env
  ho_peer :: "'d peer_env"
  ho_sending :: "string list \<Rightarrow> pin_config option \<Rightarrow> file_dto list
    \<Rightarrow> env \<Rightarrow> signing_token_key \<Rightarrow> verifying_token_key option \<Rightarrow> select_result"
  ho_receiving :: "string list \<Rightarrow> pin_config option
    \<Rightarrow> env \<Rightarrow> signing_token_key \<Rightarrow> verifying_token_key option \<Rightarrow> select_result"
  ho_send_controller :: send_controller               \<comment> \<open>what the new channels will deliver\<close>
  ho_receive_controller :: receive_controller

datatype 'w outcome =
    Panicked 'w
  | BadHandle
  | Waiting
  | Replied "bytes + bytes" 'w
  | Started nat 'w

text \<open>The arguments are decoded and \<open>deserializer.end()\<close> is called before anything else.\<close>

definition serve_call :: "frb \<Rightarrow> 'a reader \<Rightarrow> ('a \<Rightarrow> 'w \<Rightarrow> 'w outcome) \<Rightarrow> bytes \<Rightarrow> 'w \<Rightarrow> 'w outcome" where
  "serve_call F args body message w =
     (case args message of
        None \<Rightarrow> Panicked w
      | Some (a, rest) \<Rightarrow> if fb_end F rest then body a w else Panicked w)"

definition lock_free :: "(usize \<times> bool) list \<Rightarrow> usize \<Rightarrow> bool \<Rightarrow> bool" where
  "lock_free holds h exclusive \<longleftrightarrow> list_all (\<lambda>(h', e). h' = h \<longrightarrow> \<not> e \<and> \<not> exclusive) holds"

text \<open>
  \<open>lockable_decode_async_ref\<close> (shared) or \<open>_ref_mut\<close> (exclusive) on the one object of a call. An
  address that is not of a live object has no meaning in the code.
\<close>

definition on_object ::
    "('c world \<Rightarrow> (usize, 'o) hmap) \<Rightarrow> usize \<Rightarrow> bool \<Rightarrow> ('o \<Rightarrow> 'c world outcome) \<Rightarrow> 'c world \<Rightarrow> 'c world outcome"
  where
  "on_object table h exclusive f w =
     (case hm_get (table w) h of
        None \<Rightarrow> BadHandle
      | Some obj \<Rightarrow> if lock_free (w_holds w) h exclusive then f obj else Waiting)"

text \<open>A call that goes on: it is in progress under a new number.\<close>

definition start :: "running \<Rightarrow> 'c world \<Rightarrow> 'c world outcome" where
  "start r w = Started (w_started w)
     (w\<lparr>w_running := hm_insert (w_started w) r (w_running w), w_started := Suc (w_started w)\<rparr>)"

definition transform_result :: "('e \<Rightarrow> bytes) \<Rightarrow> ('a \<Rightarrow> bytes) \<Rightarrow> 'e + 'a \<Rightarrow> bytes + bytes" where
  "transform_result enc_err enc_ok r = map_sum enc_err enc_ok r"

definition infallible :: "'a \<Rightarrow> unit + 'a" where
  "infallible x = Inr x"

definition allocate :: "('z, 'cert, 'key, 'i, 'c, 'd) host \<Rightarrow> 'c world \<Rightarrow> (usize \<times> 32 word) \<times> 'c world" where
  "allocate H w = (ho_address H (w_allocated w), w\<lparr>w_allocated := Suc (w_allocated w)\<rparr>)"

definition stream_to ::
    "string \<Rightarrow> ('a \<Rightarrow> bytes) \<Rightarrow> (anyhow + 'a) list \<Rightarrow> 'c world \<Rightarrow> 'c world" where
  "stream_to sink enc items w =
     w\<lparr>w_streamed := w_streamed w @ map (\<lambda>x. (sink, map_sum (\<lambda>e. e) enc x)) items\<rparr>"

text \<open>What a one-shot sender of a controller delivered, if it did.\<close>

definition delivered :: "usize \<Rightarrow> 'v option \<Rightarrow> (usize \<times> 'v) list" where
  "delivered that sent = (case sent of Some v \<Rightarrow> [(that, v)] | None \<Rightarrow> [])"

section \<open>Streams (api/stream.rs)\<close>

definition wire_stream_sink_add ::
    "('z, 'cert, 'key, 'i, 'c, 'd) host \<Rightarrow> bytes \<Rightarrow> 'c world \<Rightarrow> 'c world outcome" where
  "wire_stream_sink_add H =
     (let F = ho_frb H in
      serve_call F
        (rd_bind (sse_decode_opaque F) (\<lambda>that.
         rd_bind (sse_decode_bytes F) (\<lambda>data.
         rd_ret (that, data))))
        (\<lambda>(that, data) w. on_object w_sinks that True (\<lambda>sink.
           case add_data data sink of
             None \<Rightarrow> Waiting
           | Some (r, sink') \<Rightarrow>
               Replied (transform_result (sse_encode_string F) sse_encode_unit r)
                 (w\<lparr>w_sinks := hm_insert that sink' (w_sinks w)\<rparr>)) w))"

definition wire_create_stream ::
    "('z, 'cert, 'key, 'i, 'c, 'd) host \<Rightarrow> bytes \<Rightarrow> 'c world \<Rightarrow> 'c world outcome" where
  "wire_create_stream H =
     (let F = ho_frb H in
      serve_call F (rd_ret ())
        (\<lambda>_ w.
           let (sink, w1) = allocate H w; (receiver, w2) = allocate H w1
           in Replied
             (transform_result sse_encode_unit (sse_encode_pair (sse_encode_owned F) (sse_encode_owned F))
                (infallible (sink, receiver)))
             (w2\<lparr>w_sinks := hm_insert (fst sink) create_stream (w_sinks w2),
                w_receivers := hm_insert (fst receiver) (fst sink) (w_receivers w2)\<rparr>)))"

section \<open>The HTTP client (api/http.rs)\<close>

definition wire_create_client ::
    "('z, 'cert, 'key, 'i, 'c, 'd) host \<Rightarrow> bytes \<Rightarrow> 'c world \<Rightarrow> 'c world outcome" where
  "wire_create_client H =
     (let F = ho_frb H in
      serve_call F
        (rd_bind (sse_decode_string F) (\<lambda>private_key.
         rd_bind (sse_decode_string F) (\<lambda>cert.
         rd_bind (sse_decode_ls_version F) (\<lambda>version.
         rd_ret (private_key, cert, version)))))
        (\<lambda>(private_key, cert, version) w.
           case create_client (ho_reqwest H) (ho_lru H) private_key cert version of
             Inl e \<Rightarrow> Replied (Inl (sse_encode_rs_http_client_error F e)) w
           | Inr client \<Rightarrow>
               let (new, w') = allocate H w
               in Replied (Inr (sse_encode_owned F new))
                    (w'\<lparr>w_clients := hm_insert (fst new) client (w_clients w')\<rparr>)))"

text \<open>The reply to a call of the HTTP client, which leaves the object as it is.\<close>

definition http_reply :: "frb \<Rightarrow> ('a \<Rightarrow> bytes) \<Rightarrow> 'a rs_call \<Rightarrow> 'c world \<Rightarrow> 'c world outcome" where
  "http_reply F enc call w =
     Replied (transform_result (sse_encode_rs_http_client_error F) enc (snd call))
       (w\<lparr>w_requests := w_requests w @ fst call\<rparr>)"

definition wire_cancel ::
    "('z, 'cert, 'key, 'i, 'c, 'd) host \<Rightarrow> bytes \<Rightarrow> 'c world \<Rightarrow> 'c world outcome" where
  "wire_cancel H =
     (let F = ho_frb H in
      serve_call F
        (rd_bind (sse_decode_opaque F) (\<lambda>that.
         rd_bind (sse_decode_protocol_type F) (\<lambda>protocol.
         rd_bind (sse_decode_string F) (\<lambda>ip.
         rd_bind (sse_decode_u16 F) (\<lambda>port.
         rd_bind (sse_decode_string F) (\<lambda>session_id.
         rd_ret (that, protocol, ip, port, session_id)))))))
        (\<lambda>(that, protocol, ip, port, session_id) w. on_object w_clients that False (\<lambda>client.
           http_reply F sse_encode_unit (rs_cancel client protocol ip port session_id) w) w))"

definition wire_prepare_upload ::
    "('z, 'cert, 'key, 'i, 'c, 'd) host \<Rightarrow> bytes \<Rightarrow> 'c world \<Rightarrow> 'c world outcome" where
  "wire_prepare_upload H =
     (let F = ho_frb H in
      serve_call F
        (rd_bind (sse_decode_opaque F) (\<lambda>that.
         rd_bind (sse_decode_protocol_type F) (\<lambda>protocol.
         rd_bind (sse_decode_string F) (\<lambda>ip.
         rd_bind (sse_decode_u16 F) (\<lambda>port.
         rd_bind (sse_decode_prepare_upload_request_dto F) (\<lambda>payload.
         rd_bind (sse_decode_option (sse_decode_string F)) (\<lambda>public_key.
         rd_bind (sse_decode_option (sse_decode_string F)) (\<lambda>pin.
         rd_ret (that, protocol, ip, port, payload, public_key, pin)))))))))
        (\<lambda>(that, protocol, ip, port, payload, public_key, pin) w. on_object w_clients that False (\<lambda>client.
           http_reply F (sse_encode_prepare_upload_result F)
             (rs_prepare_upload (ho_crates H) (ho_x509 H) client protocol ip port payload public_key pin)
             w) w))"

definition wire_register ::
    "('z, 'cert, 'key, 'i, 'c, 'd) host \<Rightarrow> bytes \<Rightarrow> 'c world \<Rightarrow> 'c world outcome" where
  "wire_register H =
     (let F = ho_frb H in
      serve_call F
        (rd_bind (sse_decode_opaque F) (\<lambda>that.
         rd_bind (sse_decode_protocol_type F) (\<lambda>protocol.
         rd_bind (sse_decode_string F) (\<lambda>ip.
         rd_bind (sse_decode_u16 F) (\<lambda>port.
         rd_bind (sse_decode_register_dto F) (\<lambda>payload.
         rd_ret (that, protocol, ip, port, payload)))))))
        (\<lambda>(that, protocol, ip, port, payload) w. on_object w_clients that False (\<lambda>client.
           http_reply F (sse_encode_rs_register_result F)
             (rs_register (ho_crates H) (ho_x509 H) client protocol ip port payload) w) w))"

text \<open>
  The receiver of the stream is taken over by the call, which goes on until the body of its request
  is complete or the request has failed.
\<close>

definition wire_upload ::
    "('z, 'cert, 'key, 'i, 'c, 'd) host \<Rightarrow> bytes \<Rightarrow> 'c world \<Rightarrow> 'c world outcome" where
  "wire_upload H =
     (let F = ho_frb H in
      serve_call F
        (rd_bind (sse_decode_opaque F) (\<lambda>that.
         rd_bind (sse_decode_protocol_type F) (\<lambda>protocol.
         rd_bind (sse_decode_string F) (\<lambda>ip.
         rd_bind (sse_decode_u16 F) (\<lambda>port.
         rd_bind (sse_decode_option (sse_decode_string F)) (\<lambda>public_key.
         rd_bind (sse_decode_string F) (\<lambda>session_id.
         rd_bind (sse_decode_string F) (\<lambda>file_id.
         rd_bind (sse_decode_string F) (\<lambda>token.
         rd_bind (sse_decode_owned F) (\<lambda>binary.
         rd_ret (that, protocol, ip, port, public_key, session_id, file_id, token, binary)))))))))))
        (\<lambda>(that, protocol, ip, port, public_key, session_id, file_id, token, binary) w.
           case hm_get (w_receivers w) binary of
             None \<Rightarrow> BadHandle
           | Some sink \<Rightarrow> on_object w_clients that False (\<lambda>client.
               start (Uploading [(that, False)] sink
                   (rs_upload (ho_crates H) (ho_x509 H) client protocol ip port public_key session_id
                     file_id token))
                 (w\<lparr>w_receivers := hm_remove binary (w_receivers w)\<rparr>)) w))"

section \<open>The signaling connection (api/webrtc.rs)\<close>

definition wire_update_info ::
    "('z, 'cert, 'key, 'i, 'c, 'd) host \<Rightarrow> bytes \<Rightarrow> 'c world \<Rightarrow> 'c world outcome" where
  "wire_update_info H =
     (let F = ho_frb H in
      serve_call F
        (rd_bind (sse_decode_opaque F) (\<lambda>that.
         rd_bind (sse_decode_client_info_without_id F) (\<lambda>info.
         rd_ret (that, info))))
        (\<lambda>(that, info) w. on_object w_connections that False (\<lambda>inner.
           case update_info (ho_signaling_open H that) info inner of
             Inl e \<Rightarrow> Replied (transform_result (sse_encode_anyhow F) sse_encode_unit (Inl e)) w
           | Inr inner' \<Rightarrow> Replied (transform_result (sse_encode_anyhow F) sse_encode_unit (Inr ()))
               (w\<lparr>w_connections := hm_insert that inner' (w_connections w)\<rparr>)) w))"

text \<open>The spawned transfer is logged; the reply is the handle of its controller.\<close>

definition wire_send_offer ::
    "('z, 'cert, 'key, 'i, 'c, 'd) host \<Rightarrow> bytes \<Rightarrow> 'c world \<Rightarrow> 'c world outcome" where
  "wire_send_offer H =
     (let F = ho_frb H in
      serve_call F
        (rd_bind (sse_decode_opaque F) (\<lambda>that.
         rd_bind (sse_decode_vec F (sse_decode_string F)) (\<lambda>stun_servers.
         rd_bind (sse_decode_uuid F) (\<lambda>target.
         rd_bind (sse_decode_string F) (\<lambda>private_key.
         rd_bind (sse_decode_option (sse_decode_expecting_public_key F)) (\<lambda>expecting_public_key.
         rd_bind (sse_decode_option (sse_decode_pin_config F)) (\<lambda>pin.
         rd_bind (sse_decode_vec F (sse_decode_file_dto F)) (\<lambda>files.
         rd_ret (that, stun_servers, target, private_key, expecting_public_key, pin, files)))))))))
        (\<lambda>(that, stun_servers, target, private_key, expecting_public_key, pin, files) w. on_object w_connections that False (\<lambda>inner.
           case app_send_offer (ho_env H) (ho_crates H) (ho_zlib H) (ho_parsers H) (ho_peer H) target private_key
               expecting_public_key (ho_sending H stun_servers pin files) of
             Inl e \<Rightarrow> Replied (Inl (sse_encode_anyhow F e)) w
           | Inr task \<Rightarrow>
               let (new, w') = allocate H w
               in Replied (Inr (sse_encode_owned F new))
                    (w'\<lparr>w_tasks := w_tasks w' @ [task], w_send_controllers :=
                       hm_insert (fst new) (ho_send_controller H) (w_send_controllers w')\<rparr>)) w))"

definition wire_accept_offer ::
    "('z, 'cert, 'key, 'i, 'c, 'd) host \<Rightarrow> bytes \<Rightarrow> 'c world \<Rightarrow> 'c world outcome" where
  "wire_accept_offer H =
     (let F = ho_frb H in
      serve_call F
        (rd_bind (sse_decode_opaque F) (\<lambda>that.
         rd_bind (sse_decode_vec F (sse_decode_string F)) (\<lambda>stun_servers.
         rd_bind (sse_decode_ws_server_sdp_message F) (\<lambda>offer.
         rd_bind (sse_decode_string F) (\<lambda>private_key.
         rd_bind (sse_decode_option (sse_decode_expecting_public_key F)) (\<lambda>expecting_public_key.
         rd_bind (sse_decode_option (sse_decode_pin_config F)) (\<lambda>pin.
         rd_ret (that, stun_servers, offer, private_key, expecting_public_key, pin))))))))
        (\<lambda>(that, stun_servers, offer, private_key, expecting_public_key, pin) w. on_object w_connections that False (\<lambda>inner.
           case app_accept_offer (ho_env H) (ho_crates H) (ho_zlib H) (ho_parsers H) (ho_peer H) offer private_key
               expecting_public_key (ho_receiving H stun_servers pin) of
             Inl e \<Rightarrow> Replied (Inl (sse_encode_anyhow F e)) w
           | Inr task \<Rightarrow>
               let (new, w') = allocate H w
               in Replied (Inr (sse_encode_owned F new))
                    (w'\<lparr>w_tasks := w_tasks w' @ [task], w_receive_controllers :=
                       hm_insert (fst new) (ho_receive_controller H) (w_receive_controllers w')\<rparr>)) w))"

text \<open>
  The answer of a function of the app: nothing, or an error, which is a panic here (\<open>expect\<close>), as
  is anything else.
\<close>

definition dart_fn_answer :: "frb \<Rightarrow> bytes \<Rightarrow> unit option" where
  "dart_fn_answer F message =
     (case rd_bind sse_decode_u8 (\<lambda>action.
         if action = 0 then rd_bind sse_decode_unit (\<lambda>u. rd_ret (Inr u))
         else if action = 1 then rd_bind (sse_decode_anyhow F) (\<lambda>e. rd_ret (Inl e))
         else rd_panic) message of
        None \<Rightarrow> None
      | Some (ans, rest) \<Rightarrow> if fb_end F rest then (case ans of Inr u \<Rightarrow> Some u | Inl _ \<Rightarrow> None) else None)"

text \<open>
  \<open>connect\<close> returns when the connection ends. It hands the connection to the app before the first
  message is forwarded; \<open>app_connect\<close> gives either one error or the messages, a \<open>Hello\<close> among them.
\<close>

definition wire_connect ::
    "('z, 'cert, 'key, 'i, 'c, 'd) host \<Rightarrow> bytes \<Rightarrow> 'c world \<Rightarrow> 'c world outcome" where
  "wire_connect H =
     (let F = ho_frb H in
      serve_call F
        (rd_bind (sse_decode_sink F) (\<lambda>sink.
         rd_bind (sse_decode_string F) (\<lambda>uri.
         rd_bind (sse_decode_proposing_client_info F) (\<lambda>info.
         rd_bind (sse_decode_string F) (\<lambda>private_key.
         rd_bind (sse_decode_dart_opaque F) (\<lambda>on_connection.
         rd_ret (sink, uri, info, private_key, on_connection)))))))
        (\<lambda>(sink, uri, info, private_key, on_connection) w. 
           case app_connect (ho_crates H) (ho_parsers H) (ho_now H) (ho_net H) uri info private_key of
             None \<Rightarrow> Panicked w
           | Some items \<Rightarrow>
               (case first_hello [m. Inr m \<leftarrow> items] of
                  None \<Rightarrow> Replied (transform_result sse_encode_unit sse_encode_unit (infallible ()))
                    (stream_to sink (sse_encode_ws_server_message F) items w)
                | Some client \<Rightarrow>
                    let (new, w1) = allocate H w;
                        w2 = w1\<lparr>w_connections := hm_insert (fst new)
                          (start_listener \<lparr>sg_client = client, sg_rx = [m. Inr m \<leftarrow> items]\<rparr>) (w_connections w1)\<rparr>
                    in (case dart_fn_answer F (ho_dart_fn H on_connection new) of
                          None \<Rightarrow> Panicked w2
                        | Some _ \<Rightarrow> start (Streaming [] sink
                            (map (map_sum (\<lambda>e. e) (sse_encode_ws_server_message F)) items)
                            (transform_result sse_encode_unit sse_encode_unit (infallible ()))) w2))))"


section \<open>Files in transfer (api/webrtc.rs)\<close>

definition wire_get_file_id ::
    "('z, 'cert, 'key, 'i, 'c, 'd) host \<Rightarrow> bytes \<Rightarrow> 'c world \<Rightarrow> 'c world outcome" where
  "wire_get_file_id H =
     (let F = ho_frb H in
      serve_call F
        (rd_bind (sse_decode_opaque F) (\<lambda>that.
         rd_ret that))
        (\<lambda>that w. on_object w_file_receivers that False (\<lambda>file.
           Replied (transform_result sse_encode_unit (sse_encode_string F) (infallible (get_file_id file))) w) w))"

definition wire_receive ::
    "('z, 'cert, 'key, 'i, 'c, 'd) host \<Rightarrow> bytes \<Rightarrow> 'c world \<Rightarrow> 'c world outcome" where
  "wire_receive H =
     (let F = ho_frb H in
      serve_call F
        (rd_bind (sse_decode_opaque F) (\<lambda>that.
         rd_bind (sse_decode_sink F) (\<lambda>sink.
         rd_ret (that, sink))))
        (\<lambda>(that, sink) w. on_object w_file_receivers that False (\<lambda>file.
           let (r, file') = fr_receive file; w' = w\<lparr>w_file_receivers := hm_insert that file' (w_file_receivers w)\<rparr>
           in (case r of
                 Inl e \<Rightarrow> Replied (Inl (sse_encode_anyhow F e)) w'
               | Inr blocks \<Rightarrow> start (Streaming [(that, False)] sink (map (\<lambda>b. Inr (sse_encode_bytes F b)) blocks)
                   (Inr (sse_encode_unit ()))) w')) w))"

definition wire_file_send ::
    "('z, 'cert, 'key, 'i, 'c, 'd) host \<Rightarrow> bytes \<Rightarrow> 'c world \<Rightarrow> 'c world outcome" where
  "wire_file_send H =
     (let F = ho_frb H in
      serve_call F
        (rd_bind (sse_decode_opaque F) (\<lambda>that.
         rd_bind (sse_decode_bytes F) (\<lambda>data.
         rd_ret (that, data))))
        (\<lambda>(that, data) w. on_object w_file_senders that False (\<lambda>sender.
           case file_sender_send data sender of
             None \<Rightarrow> Waiting
           | Some (r, sender') \<Rightarrow> Replied (transform_result (sse_encode_anyhow F) sse_encode_unit r)
               (w\<lparr>w_file_senders := hm_insert that sender' (w_file_senders w)\<rparr>)) w))"

section \<open>The controller of a receiving transfer\<close>

definition wire_rc_decline ::
    "('z, 'cert, 'key, 'i, 'c, 'd) host \<Rightarrow> bytes \<Rightarrow> 'c world \<Rightarrow> 'c world outcome" where
  "wire_rc_decline H =
     (let F = ho_frb H in
      serve_call F
        (rd_bind (sse_decode_opaque F) (\<lambda>that.
         rd_ret that))
        (\<lambda>that w. on_object w_receive_controllers that False (\<lambda>c.
           let (r, c', sent) = rv_decline c
           in Replied (transform_result (sse_encode_anyhow F) sse_encode_unit r)
                (w\<lparr>w_receive_controllers := hm_insert that c' (w_receive_controllers w),
                   w_decided := w_decided w @ delivered that sent\<rparr>)) w))"

definition wire_rc_listen_error ::
    "('z, 'cert, 'key, 'i, 'c, 'd) host \<Rightarrow> bytes \<Rightarrow> 'c world \<Rightarrow> 'c world outcome" where
  "wire_rc_listen_error H =
     (let F = ho_frb H in
      serve_call F
        (rd_bind (sse_decode_opaque F) (\<lambda>that.
         rd_bind (sse_decode_sink F) (\<lambda>sink.
         rd_ret (that, sink))))
        (\<lambda>(that, sink) w. on_object w_receive_controllers that False (\<lambda>c.
           let (items, c') = rv_listen_error c
           in start (Streaming [(that, False)] sink (map (map_sum (\<lambda>e. e) (sse_encode_rtc_file_error F)) items)
                  (transform_result sse_encode_unit sse_encode_unit (infallible ())))
                (w\<lparr>w_receive_controllers := hm_insert that c' (w_receive_controllers w)\<rparr>)) w))"

definition wire_rc_listen_files ::
    "('z, 'cert, 'key, 'i, 'c, 'd) host \<Rightarrow> bytes \<Rightarrow> 'c world \<Rightarrow> 'c world outcome" where
  "wire_rc_listen_files H =
     (let F = ho_frb H in
      serve_call F
        (rd_bind (sse_decode_opaque F) (\<lambda>that.
         rd_ret that))
        (\<lambda>that w. on_object w_receive_controllers that False (\<lambda>c.
           let (r, c') = rv_listen_files c;
               reply = transform_result (sse_encode_anyhow F) (sse_encode_vec F (sse_encode_file_dto F)) r;
               w' = w\<lparr>w_receive_controllers := hm_insert that c' (w_receive_controllers w)\<rparr>
           in if rv_files_rx c = None then Replied reply w' else start (Answering [(that, False)] reply) w') w))"

definition wire_rc_listen_receiving ::
    "('z, 'cert, 'key, 'i, 'c, 'd) host \<Rightarrow> bytes \<Rightarrow> 'c world \<Rightarrow> 'c world outcome" where
  "wire_rc_listen_receiving H =
     (let F = ho_frb H in
      serve_call F
        (rd_bind (sse_decode_opaque F) (\<lambda>that.
         rd_bind (sse_decode_sink F) (\<lambda>sink.
         rd_ret (that, sink))))
        (\<lambda>(that, sink) w. on_object w_receive_controllers that False (\<lambda>c.
           let (items, c') = rv_listen_receiving c
           in start (StreamingFiles [(that, False)] sink items
                  (transform_result sse_encode_unit sse_encode_unit (infallible ())))
                (w\<lparr>w_receive_controllers := hm_insert that c' (w_receive_controllers w)\<rparr>)) w))"

definition wire_rc_listen_status ::
    "('z, 'cert, 'key, 'i, 'c, 'd) host \<Rightarrow> bytes \<Rightarrow> 'c world \<Rightarrow> 'c world outcome" where
  "wire_rc_listen_status H =
     (let F = ho_frb H in
      serve_call F
        (rd_bind (sse_decode_opaque F) (\<lambda>that.
         rd_bind (sse_decode_sink F) (\<lambda>sink.
         rd_ret (that, sink))))
        (\<lambda>(that, sink) w. on_object w_receive_controllers that False (\<lambda>c.
           let (items, c') = rv_listen_status c
           in start (Streaming [(that, False)] sink (map (map_sum (\<lambda>e. e) (sse_encode_rtc_status F)) items)
                  (transform_result sse_encode_unit sse_encode_unit (infallible ())))
                (w\<lparr>w_receive_controllers := hm_insert that c' (w_receive_controllers w)\<rparr>)) w))"

definition wire_rc_send_file_status ::
    "('z, 'cert, 'key, 'i, 'c, 'd) host \<Rightarrow> bytes \<Rightarrow> 'c world \<Rightarrow> 'c world outcome" where
  "wire_rc_send_file_status H =
     (let F = ho_frb H in
      serve_call F
        (rd_bind (sse_decode_opaque F) (\<lambda>that.
         rd_bind (sse_decode_rtc_send_file_response F) (\<lambda>status.
         rd_ret (that, status))))
        (\<lambda>(that, status) w. on_object w_receive_controllers that False (\<lambda>c.
           let (r, c') = rv_send_file_status status c
           in Replied (transform_result (sse_encode_anyhow F) sse_encode_unit r)
                (w\<lparr>w_receive_controllers := hm_insert that c' (w_receive_controllers w)\<rparr>)) w))"

definition wire_rc_send_pin ::
    "('z, 'cert, 'key, 'i, 'c, 'd) host \<Rightarrow> bytes \<Rightarrow> 'c world \<Rightarrow> 'c world outcome" where
  "wire_rc_send_pin H =
     (let F = ho_frb H in
      serve_call F
        (rd_bind (sse_decode_opaque F) (\<lambda>that.
         rd_bind (sse_decode_string F) (\<lambda>pin.
         rd_ret (that, pin))))
        (\<lambda>(that, pin) w. on_object w_receive_controllers that False (\<lambda>c.
           let (r, c', sent) = rv_send_pin pin c
           in Replied (transform_result (sse_encode_anyhow F) sse_encode_unit r)
                (w\<lparr>w_receive_controllers := hm_insert that c' (w_receive_controllers w),
                   w_pins := w_pins w @ delivered that sent\<rparr>)) w))"

definition wire_rc_send_selection ::
    "('z, 'cert, 'key, 'i, 'c, 'd) host \<Rightarrow> bytes \<Rightarrow> 'c world \<Rightarrow> 'c world outcome" where
  "wire_rc_send_selection H =
     (let F = ho_frb H in
      serve_call F
        (rd_bind (sse_decode_opaque F) (\<lambda>that.
         rd_bind (sse_decode_set F) (\<lambda>selection.
         rd_ret (that, selection))))
        (\<lambda>(that, selection) w. on_object w_receive_controllers that False (\<lambda>c.
           let (r, c', sent) = rv_send_selection selection c
           in Replied (transform_result (sse_encode_anyhow F) sse_encode_unit r)
                (w\<lparr>w_receive_controllers := hm_insert that c' (w_receive_controllers w),
                   w_decided := w_decided w @ delivered that sent\<rparr>)) w))"

section \<open>The controller of a sending transfer\<close>

text \<open>
  The two methods that listen to a channel without taking it borrow the controller mutably: the
  exclusive lock is theirs until the channel is closed.
\<close>

definition wire_sc_listen_error ::
    "('z, 'cert, 'key, 'i, 'c, 'd) host \<Rightarrow> bytes \<Rightarrow> 'c world \<Rightarrow> 'c world outcome" where
  "wire_sc_listen_error H =
     (let F = ho_frb H in
      serve_call F
        (rd_bind (sse_decode_opaque F) (\<lambda>that.
         rd_bind (sse_decode_sink F) (\<lambda>sink.
         rd_ret (that, sink))))
        (\<lambda>(that, sink) w. on_object w_send_controllers that True (\<lambda>c.
           let (items, c') = sc_listen_error c
           in start (Streaming [(that, True)] sink (map (map_sum (\<lambda>e. e) (sse_encode_rtc_file_error F)) items)
                  (transform_result sse_encode_unit sse_encode_unit (infallible ())))
                (w\<lparr>w_send_controllers := hm_insert that c' (w_send_controllers w)\<rparr>)) w))"

definition wire_sc_listen_selected_files ::
    "('z, 'cert, 'key, 'i, 'c, 'd) host \<Rightarrow> bytes \<Rightarrow> 'c world \<Rightarrow> 'c world outcome" where
  "wire_sc_listen_selected_files H =
     (let F = ho_frb H in
      serve_call F
        (rd_bind (sse_decode_opaque F) (\<lambda>that.
         rd_ret that))
        (\<lambda>that w. on_object w_send_controllers that False (\<lambda>c.
           let (r, c') = sc_listen_selected_files c;
               reply = transform_result (sse_encode_anyhow F) (sse_encode_set F) r;
               w' = w\<lparr>w_send_controllers := hm_insert that c' (w_send_controllers w)\<rparr>
           in if sc_selected_rx c = None then Replied reply w' else start (Answering [(that, False)] reply) w') w))"

definition wire_sc_listen_status ::
    "('z, 'cert, 'key, 'i, 'c, 'd) host \<Rightarrow> bytes \<Rightarrow> 'c world \<Rightarrow> 'c world outcome" where
  "wire_sc_listen_status H =
     (let F = ho_frb H in
      serve_call F
        (rd_bind (sse_decode_opaque F) (\<lambda>that.
         rd_bind (sse_decode_sink F) (\<lambda>sink.
         rd_ret (that, sink))))
        (\<lambda>(that, sink) w. on_object w_send_controllers that True (\<lambda>c.
           let (items, c') = sc_listen_status c
           in start (Streaming [(that, True)] sink (map (map_sum (\<lambda>e. e) (sse_encode_rtc_status F)) items)
                  (transform_result sse_encode_unit sse_encode_unit (infallible ())))
                (w\<lparr>w_send_controllers := hm_insert that c' (w_send_controllers w)\<rparr>)) w))"

definition wire_sc_send_file ::
    "('z, 'cert, 'key, 'i, 'c, 'd) host \<Rightarrow> bytes \<Rightarrow> 'c world \<Rightarrow> 'c world outcome" where
  "wire_sc_send_file H =
     (let F = ho_frb H in
      serve_call F
        (rd_bind (sse_decode_opaque F) (\<lambda>that.
         rd_bind (sse_decode_string F) (\<lambda>file_id.
         rd_ret (that, file_id))))
        (\<lambda>(that, file_id) w. on_object w_send_controllers that False (\<lambda>c.
           case sc_send_file file_id c of
             (Inl e, c') \<Rightarrow> Replied (Inl (sse_encode_anyhow F e))
               (w\<lparr>w_send_controllers := hm_insert that c' (w_send_controllers w)\<rparr>)
           | (Inr stream, c') \<Rightarrow>
               let (new, w') = allocate H w
               in Replied (Inr (sse_encode_owned F new))
                    (w'\<lparr>w_send_controllers := hm_insert that c' (w_send_controllers w'),
                       w_file_senders := hm_insert (fst new) stream (w_file_senders w')\<rparr>)) w))"

definition wire_sc_send_pin ::
    "('z, 'cert, 'key, 'i, 'c, 'd) host \<Rightarrow> bytes \<Rightarrow> 'c world \<Rightarrow> 'c world outcome" where
  "wire_sc_send_pin H =
     (let F = ho_frb H in
      serve_call F
        (rd_bind (sse_decode_opaque F) (\<lambda>that.
         rd_bind (sse_decode_string F) (\<lambda>pin.
         rd_ret (that, pin))))
        (\<lambda>(that, pin) w. on_object w_send_controllers that False (\<lambda>c.
           let (r, c', sent) = sc_send_pin pin c
           in Replied (transform_result (sse_encode_anyhow F) sse_encode_unit r)
                (w\<lparr>w_send_controllers := hm_insert that c' (w_send_controllers w),
                   w_pins := w_pins w @ delivered that sent\<rparr>)) w))"

section \<open>Logging and keys (api/logging.rs, api/crypto.rs)\<close>

definition enable_debug_logging :: "anyhow + unit \<Rightarrow> anyhow + unit" where
  "enable_debug_logging try_init = bind_ok (map_err (\<lambda>e. e) try_init) (\<lambda>_. Inr ())"

definition wire_enable_debug_logging ::
    "('z, 'cert, 'key, 'i, 'c, 'd) host \<Rightarrow> bytes \<Rightarrow> 'c world \<Rightarrow> 'c world outcome" where
  "wire_enable_debug_logging H =
     (let F = ho_frb H in
      serve_call F
        (rd_ret ())
        (\<lambda>_ w. 
           Replied (transform_result (sse_encode_anyhow F) sse_encode_unit (enable_debug_logging (ho_logging H))) w))"

definition wire_generate_key_pair ::
    "('z, 'cert, 'key, 'i, 'c, 'd) host \<Rightarrow> bytes \<Rightarrow> 'c world \<Rightarrow> 'c world outcome" where
  "wire_generate_key_pair H =
     (let F = ho_frb H in
      serve_call F
        (rd_ret ())
        (\<lambda>_ w. 
           Replied (transform_result (sse_encode_anyhow F) (sse_encode_key_pair F) (generate_key_pair (ho_generated_key H))) w))"

definition wire_verify_cert ::
    "('z, 'cert, 'key, 'i, 'c, 'd) host \<Rightarrow> bytes \<Rightarrow> 'c world \<Rightarrow> 'c world outcome" where
  "wire_verify_cert H =
     (let F = ho_frb H in
      serve_call F
        (rd_bind (sse_decode_string F) (\<lambda>cert.
         rd_bind (sse_decode_string F) (\<lambda>public_key.
         rd_ret (cert, public_key))))
        (\<lambda>(cert, public_key) w. 
           Replied (transform_result (sse_encode_anyhow F) sse_encode_unit (verify_cert (ho_x509 H) cert public_key)) w))"

section \<open>The dispatchers\<close>

definition pde_ffi_dispatcher_primary ::
    "('z, 'cert, 'key, 'i, 'c, 'd) host \<Rightarrow> int \<Rightarrow> bytes \<Rightarrow> 'c world \<Rightarrow> 'c world outcome" where
  "pde_ffi_dispatcher_primary H func_id message w =
     (if func_id = 1 then wire_stream_sink_add H message w
      else if func_id = 2 then wire_accept_offer H message w
      else if func_id = 3 then wire_send_offer H message w
      else if func_id = 4 then wire_update_info H message w
      else if func_id = 5 then wire_cancel H message w
      else if func_id = 6 then wire_prepare_upload H message w
      else if func_id = 7 then wire_register H message w
      else if func_id = 8 then wire_upload H message w
      else if func_id = 9 then wire_get_file_id H message w
      else if func_id = 10 then wire_receive H message w
      else if func_id = 11 then wire_file_send H message w
      else if func_id = 12 then wire_rc_decline H message w
      else if func_id = 13 then wire_rc_listen_error H message w
      else if func_id = 14 then wire_rc_listen_files H message w
      else if func_id = 15 then wire_rc_listen_receiving H message w
      else if func_id = 16 then wire_rc_listen_status H message w
      else if func_id = 17 then wire_rc_send_file_status H message w
      else if func_id = 18 then wire_rc_send_pin H message w
      else if func_id = 19 then wire_rc_send_selection H message w
      else if func_id = 20 then wire_sc_listen_error H message w
      else if func_id = 21 then wire_sc_listen_selected_files H message w
      else if func_id = 22 then wire_sc_listen_status H message w
      else if func_id = 23 then wire_sc_send_file H message w
      else if func_id = 24 then wire_sc_send_pin H message w
      else if func_id = 25 then wire_connect H message w
      else if func_id = 27 then wire_create_stream H message w
      else if func_id = 28 then wire_enable_debug_logging H message w
      else if func_id = 29 then wire_generate_key_pair H message w
      else if func_id = 30 then wire_verify_cert H message w
      else Panicked w)"

definition pde_ffi_dispatcher_sync ::
    "('z, 'cert, 'key, 'i, 'c, 'd) host \<Rightarrow> int \<Rightarrow> bytes \<Rightarrow> 'c world \<Rightarrow> 'c world outcome" where
  "pde_ffi_dispatcher_sync H func_id message w =
     (if func_id = 26 then wire_create_client H message w else Panicked w)"

section \<open>Calls in progress\<close>

text \<open>
  One step of a call in progress. A stream of the app gets the next item of the channel, and the
  call returns when the channel is closed. An upload takes the next chunk of its stream; its
  body is complete when the sink has been dropped and the stream is empty.
\<close>

definition the_stream :: "'c world \<Rightarrow> usize \<Rightarrow> dart_stream option" where
  "the_stream w sink = (case hm_get (w_sinks w) sink of Some s \<Rightarrow> Some s | None \<Rightarrow> hm_get (w_orphans w) sink)"

definition set_stream :: "usize \<Rightarrow> dart_stream \<Rightarrow> 'c world \<Rightarrow> 'c world" where
  "set_stream sink s w =
     (case hm_get (w_sinks w) sink of
        Some _ \<Rightarrow> w\<lparr>w_sinks := hm_insert sink s (w_sinks w)\<rparr>
      | None \<Rightarrow> w\<lparr>w_orphans := hm_insert sink s (w_orphans w)\<rparr>)"

definition returns :: "nat \<Rightarrow> 'c world \<Rightarrow> 'c world" where
  "returns k w = w\<lparr>w_running := hm_remove k (w_running w)\<rparr>"

definition continues :: "nat \<Rightarrow> running \<Rightarrow> 'c world \<Rightarrow> 'c world" where
  "continues k r w = w\<lparr>w_running := hm_insert k r (w_running w)\<rparr>"

text \<open>
  The end of an upload: the server has seen the chunks taken so far, and answers. The receiver is
  dropped, with what is still in the channel.
\<close>

definition upload_returns ::
    "('z, 'cert, 'key, 'i, 'c, 'd) host \<Rightarrow> nat \<Rightarrow> usize \<Rightarrow> (bytes list \<Rightarrow> unit rs_call) \<Rightarrow> dart_stream
      \<Rightarrow> 'c world \<Rightarrow> (bytes + bytes) option \<times> 'c world" where
  "upload_returns H k sink call s w =
     (let (requests, result) = call (ds_received s);
          w' = set_stream sink (s\<lparr>ds_queue := [], ds_open := False\<rparr>) (returns k w)
      in (Some (transform_result (sse_encode_rs_http_client_error (ho_frb H)) sse_encode_unit result),
          w'\<lparr>w_requests := w_requests w' @ requests\<rparr>))"

definition proceed ::
    "('z, 'cert, 'key, 'i, 'c, 'd) host \<Rightarrow> nat \<Rightarrow> 'c world \<Rightarrow> (bytes + bytes) option \<times> 'c world" where
  "proceed H k w =
     (case hm_get (w_running w) k of
        None \<Rightarrow> (None, w)
      | Some (Answering locks reply) \<Rightarrow> (Some reply, returns k w)
      | Some (Streaming locks sink items reply) \<Rightarrow>
          (case items of
             [] \<Rightarrow> (Some reply, returns k w)
           | x # rest \<Rightarrow> (None, continues k (Streaming locks sink rest reply)
               (w\<lparr>w_streamed := w_streamed w @ [(sink, x)]\<rparr>)))
      | Some (StreamingFiles locks sink items reply) \<Rightarrow>
          (case items of
             [] \<Rightarrow> (Some reply, returns k w)
           | Inl e # rest \<Rightarrow> (None, continues k (StreamingFiles locks sink rest reply)
               (w\<lparr>w_streamed := w_streamed w @ [(sink, Inl e)]\<rparr>))
           | Inr file # rest \<Rightarrow>
               let (new, w') = allocate H w
               in (None, continues k (StreamingFiles locks sink rest reply)
                    (w'\<lparr>w_streamed := w_streamed w' @ [(sink, Inr (sse_encode_owned (ho_frb H) new))],
                       w_file_receivers := hm_insert (fst new) file (w_file_receivers w')\<rparr>)))
      | Some (Uploading locks sink call) \<Rightarrow>
          (case the_stream w sink of
             None \<Rightarrow> (None, w)
           | Some s \<Rightarrow>
               if ds_queue s \<noteq> [] then (None, set_stream sink (take_data s) w)
               else if hm_get (w_sinks w) sink = None then upload_returns H k sink call s w
               else (None, w)))"

text \<open>An upload whose request fails, or is answered, before its body is complete.\<close>

definition break_upload ::
    "('z, 'cert, 'key, 'i, 'c, 'd) host \<Rightarrow> nat \<Rightarrow> 'c world \<Rightarrow> (bytes + bytes) option \<times> 'c world" where
  "break_upload H k w =
     (case hm_get (w_running w) k of
        Some (Uploading locks sink call) \<Rightarrow>
          (case the_stream w sink of None \<Rightarrow> (None, w) | Some s \<Rightarrow> upload_returns H k sink call s w)
      | _ \<Rightarrow> (None, w))"

section \<open>The app, its calls and the tasks in the background\<close>

text \<open>
  What can happen next: the app calls a function, a call in progress goes on or is cut off, the app
  drops the sink of a stream, the background task of a controller puts the sender of a new PIN
  request into its handle, or a receiving transfer ends and drops its receivers.
\<close>

datatype bridge_event =
    AppCalls int bytes
  | Proceeds nat
  | Breaks nat
  | SinkDropped usize
  | ReceiverWantsPin usize
  | SenderWantsPin usize
  | TransferEnds usize

fun bridge_step ::
    "('z, 'cert, 'key, 'i, 'c, 'd) host \<Rightarrow> bridge_event \<Rightarrow> 'c world \<Rightarrow> (bytes + bytes) option \<times> 'c world" where
  "bridge_step H (AppCalls i m) w =
     (case pde_ffi_dispatcher_primary H i m w of
        Replied reply w' \<Rightarrow> (Some reply, w')
      | Started k w' \<Rightarrow> (None, w')
      | Panicked w' \<Rightarrow> (None, w')
      | Waiting \<Rightarrow> (None, w)
      | BadHandle \<Rightarrow> (None, w))"
| "bridge_step H (Proceeds k) w = proceed H k w"
| "bridge_step H (Breaks k) w = break_upload H k w"
| "bridge_step H (SinkDropped sink) w =
     (None, case hm_get (w_sinks w) sink of
        None \<Rightarrow> w
      | Some s \<Rightarrow> w\<lparr>w_sinks := hm_remove sink (w_sinks w), w_orphans := hm_insert sink s (w_orphans w)\<rparr>)"
| "bridge_step H (ReceiverWantsPin that) w =
     (None, case hm_get (w_receive_controllers w) that of
        None \<Rightarrow> w
      | Some c \<Rightarrow> w\<lparr>w_receive_controllers := hm_insert that (rv_forward_pin c) (w_receive_controllers w)\<rparr>)"
| "bridge_step H (SenderWantsPin that) w =
     (None, case hm_get (w_send_controllers w) that of
        None \<Rightarrow> w
      | Some c \<Rightarrow> w\<lparr>w_send_controllers := hm_insert that (sc_forward_pin c) (w_send_controllers w)\<rparr>)"
| "bridge_step H (TransferEnds that) w =
     (None, case hm_get (w_receive_controllers w) that of
        None \<Rightarrow> w
      | Some c \<Rightarrow> w\<lparr>w_receive_controllers := hm_insert that (rv_transfer_ends c) (w_receive_controllers w)\<rparr>)"

fun bridge_run ::
    "('z, 'cert, 'key, 'i, 'c, 'd) host \<Rightarrow> bridge_event list \<Rightarrow> 'c world
      \<Rightarrow> (bytes + bytes) option list \<times> 'c world" where
  "bridge_run H [] w = ([], w)"
| "bridge_run H (e # es) w =
     (let (r, w') = bridge_step H e w; (rs, w'') = bridge_run H es w' in (r # rs, w''))"

end
