(* ===== verification/Bridge_Properties.thy ===== *)
theory Bridge_Properties
  imports Bridge_Calls
begin

text \<open>
  What the bridge guarantees: values survive the passage in either direction and incomplete messages
  are noticed; a call reaches the function it names with the arguments it was given, and its
  result comes back; the one-shot handles and the upload stream keep their promises towards the app;
  and the controller of a sending transfer is blocked while its status is listened to.
\<close>

section \<open>Messages and what becomes of them\<close>

context sse_codec
begin

lemma serve_encoded:
  "frb_law F \<Longrightarrow> good a \<Longrightarrow> serve_call F dec body (enc a) w = body a w"
  by (simp add: serve_call_def decode_encode_all frb_law_def)

lemma serve_truncated:
  "good a \<Longrightarrow> enc a = p @ s \<Longrightarrow> s \<noteq> [] \<Longrightarrow> serve_call F dec body p w = Panicked w"
  by (simp add: serve_call_def truncated_panics)

lemma serve_trailing:
  "frb_law F \<Longrightarrow> good a \<Longrightarrow> s \<noteq> [] \<Longrightarrow> serve_call F dec body (enc a @ s) w = Panicked w"
  by (simp add: serve_call_def decode_encode frb_law_def)

end

lemmas [sse_read] = sse_codec.decode_encode [OF opaque_sse(1)] sse_codec.decode_encode [OF opaque_sse(2)]
  sse_codec.decode_encode [OF opaque_sse(3)] sse_codec.decode_encode [OF sink_sse]

lemmas [reader_local] = sse_codec.looks_no_further [OF opaque_sse(1)]
  sse_codec.looks_no_further [OF opaque_sse(2)] sse_codec.looks_no_further [OF opaque_sse(3)]
  sse_codec.looks_no_further [OF sink_sse]

lemma sample_frb_sel [simp]:
  "ne_write_u16 sample_frb = (\<lambda>x. to_le 2 (unat x))"
  "ne_write_i32 sample_frb = (\<lambda>x. to_le 4 (unat x))"
  "ne_write_u64 sample_frb = (\<lambda>x. to_le 8 (unat x))"
  "fb_debug sample_frb e = e"
  by (simp_all only: sample_frb_def frb.simps)

lemma to_le_numeral [simp]:
  "to_le (numeral k) n = word_of_nat n # to_le (pred_numeral k) (n div 256)"
  by (simp only: numeral_eq_Suc [of k] to_le.simps)

text \<open>The samples of the crates and of everything outside; the app holds one object of each kind used.\<close>

definition sample_host :: "(unit, bytes, bytes, unit, unit, string) host" where
  "sample_host = \<lparr>ho_frb = sample_frb, ho_crates = sample_crates, ho_zlib = sample_zlib,
     ho_x509 = sample_x509, ho_reqwest = \<lparr>rq_identity_from_pem = (\<lambda>_. Inr ()), rq_build = (\<lambda>_. Inl ''none'')\<rparr>,
     ho_lru = \<lparr>lru_new = (\<lambda>_. ()), lru_put = (\<lambda>_ _ _. ()), lru_peek = (\<lambda>_ _. None)\<rparr>,
     ho_parsers = sample_parsers, ho_now = Inr 0, ho_net = (\<lambda>_. Inl ''offline''),
     ho_generated_key = sample_key, ho_logging = Inr (), ho_signaling_open = (\<lambda>_. True),
     ho_dart_fn = (\<lambda>_ _. [0]), ho_address = (\<lambda>n. (of_nat (100 + n mod 1000), 8)), ho_env = calm_env,
     ho_peer = sample_peer_env, ho_sending = (\<lambda>_ _ _ _ _ _. Disconnected),
     ho_receiving = (\<lambda>_ _ _ _ _. Disconnected),
     ho_send_controller = \<lparr>sc_status_rx = [], sc_selected_rx = None, sc_error_rx = [],
       sc_pin_tx = None, sc_send_open = True, sc_files_sent = []\<rparr>,
     ho_receive_controller = sample_controller\<rparr>"

definition sample_world :: "unit world" where
  "sample_world = \<lparr>w_sinks = [(1, create_stream)], w_receivers = [(2, 1)],
     w_clients = [(3, \<lparr>rs_inner = V2Client (\<lambda>_. Inl ''down'')\<rparr>)], w_connections = [],
     w_send_controllers = [(4, ho_send_controller sample_host)],
     w_receive_controllers = [(5, sample_controller)], w_file_senders = [], w_file_receivers = [],
     w_orphans = [], w_running = [(0, Streaming [(5, False)] ''s'' [] (Inr []))], w_started = 1,
     w_allocated = 0, w_streamed = [], w_requests = [], w_tasks = [],
     w_decided = [], w_pins = []\<rparr>"

lemma sample_addresses: "x < 100 \<Longrightarrow> fst (ho_address sample_host n) \<noteq> x"
proof
  assume x: "x < 100" and "fst (ho_address sample_host n) = x"
  then have "of_nat (100 + n mod 1000) = x" by (simp add: sample_host_def)
  then have "unat (of_nat (100 + n mod 1000) :: usize) = unat x" by (rule arg_cong)
  moreover have "unat (of_nat (100 + n mod 1000) :: usize) = 100 + n mod 1000"
    by (simp only: unat_of_nat) simp
  moreover have "unat x < 100" using x by (simp add: word_less_nat_alt)
  ultimately show False by simp
qed

text \<open>
  C39. Every value that crosses the bridge arrives as it was sent: what is read from the encoding of
  a message of the signaling server, a status, a file list, a request or a result, followed by
  anything, is that value, and exactly the bytes that follow are left; and of an encoding of any of
  the five that was cut off nothing is read. This holds for strings of UTF-8, which all strings of the library are,
  and for strings and lists shorter than \<open>2 ^ 31\<close>.
\<close>

theorem bridge_values_survive:
  assumes F: "frb_law F"
    and "ok_ws_server_message m" and "ok_rtc_status st" and "ok_vec ok_file_dto files"
    and "ok_prepare_upload_request_dto q" and "ok_prepare_upload_result r"
  shows "sse_decode_ws_server_message F (sse_encode_ws_server_message F m @ rest) = Some (m, rest)
    \<and> sse_decode_rtc_status F (sse_encode_rtc_status F st @ rest) = Some (st, rest)
    \<and> sse_decode_vec F (sse_decode_file_dto F) (sse_encode_vec F (sse_encode_file_dto F) files @ rest)
        = Some (files, rest)
    \<and> sse_decode_prepare_upload_request_dto F (sse_encode_prepare_upload_request_dto F q @ rest)
        = Some (q, rest)
    \<and> sse_decode_prepare_upload_result F (sse_encode_prepare_upload_result F r @ rest) = Some (r, rest)
    \<and> (\<forall>p s. s \<noteq> [] \<longrightarrow>
        (sse_encode_ws_server_message F m = p @ s \<longrightarrow> sse_decode_ws_server_message F p = None)
      \<and> (sse_encode_rtc_status F st = p @ s \<longrightarrow> sse_decode_rtc_status F p = None)
      \<and> (sse_encode_vec F (sse_encode_file_dto F) files = p @ s \<longrightarrow>
          sse_decode_vec F (sse_decode_file_dto F) p = None)
      \<and> (sse_encode_prepare_upload_request_dto F q = p @ s \<longrightarrow>
          sse_decode_prepare_upload_request_dto F p = None)
      \<and> (sse_encode_prepare_upload_result F r = p @ s \<longrightarrow> sse_decode_prepare_upload_result F p = None))"
proof -
  have cut: "\<lbrakk>s \<noteq> []; sse_encode_vec F (sse_encode_file_dto F) files = p @ s\<rbrakk> \<Longrightarrow>
      sse_decode_vec F (sse_decode_file_dto F) p = None" for p s
    by (rule sse_codec.truncated_panics [OF vec_sse [OF F file_dto_sse [OF F]] assms(4)])
  show ?thesis
    using assms cut sse_codec.truncated_panics [OF ws_server_message_sse [OF F]]
      sse_codec.truncated_panics [OF rtc_status_sse [OF F]]
      sse_codec.truncated_panics [OF prepare_upload_request_dto_sse [OF F]]
      sse_codec.truncated_panics [OF prepare_upload_result_sse [OF F]]
    by (simp add: sse_read)
qed

lemma bridge_values_survive_witness:
  "sse_decode_ws_server_message sample_frb (sse_encode_ws_server_message sample_frb (Error 429) @ [7])
     = Some (Error 429, [7])
   \<and> sse_decode_rtc_status sample_frb (sse_encode_rtc_status sample_frb (StError ''e'') @ [7])
     = Some (StError ''e'', [7])
   \<and> sse_decode_ws_server_message sample_frb (butlast (sse_encode_ws_server_message sample_frb (Error 429))) = None"
proof -
  have r: "ok_prepare_upload_request_dto \<lparr>pu_info = sample_register, pu_files = []\<rparr>"
    and f: "ok_prepare_upload_result \<lparr>pr_status_code = 204, pr_response = None\<rparr>"
    and s: "ok_rtc_status (StError ''e'')" and v: "ok_vec ok_file_dto []"
    by (simp_all add: ok_prepare_upload_request_dto_def ok_register_dto_def sample_register_def
        ok_string_def as_bytes_def ok_option_def ok_map_def ok_vec_def ok_prepare_upload_result_def)
  have "sse_encode_ws_server_message sample_frb (Error 429) = [6, 0, 0, 0, 173, 1]"
    by (simp add: sse_encode_i32_def sse_encode_u16_def)
  then have "sse_encode_ws_server_message sample_frb (Error 429)
      = butlast (sse_encode_ws_server_message sample_frb (Error 429)) @ [1]"
    by simp
  moreover have "ok_ws_server_message (Error 429)"
    by simp
  ultimately show ?thesis
    using bridge_values_survive [OF sample_frb_law _ s v r f, of "Error 429" "[7]"] by blast
qed


section \<open>A call reaches the function it names\<close>

text \<open>The message the app sends for \<open>prepare_upload\<close>: its arguments, one after the other.\<close>

definition prepare_upload_message ::
    "frb \<Rightarrow> usize \<times> protocol_type \<times> string \<times> u16 \<times> prepare_upload_request_dto \<times> string option \<times> string option \<Rightarrow> bytes"
  where
  "prepare_upload_message F = (\<lambda>(that, protocol, ip, port, payload, public_key, pin).
     sse_encode_usize F that @ sse_encode_protocol_type F protocol @ sse_encode_string F ip @
     sse_encode_u16 F port @ sse_encode_prepare_upload_request_dto F payload @
     sse_encode_option (sse_encode_string F) public_key @ sse_encode_option (sse_encode_string F) pin)"

lemma prepare_upload_args:
  "frb_law F \<Longrightarrow> sse_codec (prepare_upload_message F)
     (rd_bind (sse_decode_opaque F) (\<lambda>that.
      rd_bind (sse_decode_protocol_type F) (\<lambda>protocol.
      rd_bind (sse_decode_string F) (\<lambda>ip.
      rd_bind (sse_decode_u16 F) (\<lambda>port.
      rd_bind (sse_decode_prepare_upload_request_dto F) (\<lambda>payload.
      rd_bind (sse_decode_option (sse_decode_string F)) (\<lambda>public_key.
      rd_bind (sse_decode_option (sse_decode_string F)) (\<lambda>pin.
      rd_ret (that, protocol, ip, port, payload, public_key, pin)))))))))
     (\<lambda>(that, protocol, ip, port, payload, public_key, pin). ok_string ip
        \<and> ok_prepare_upload_request_dto payload \<and> ok_option ok_string public_key \<and> ok_option ok_string pin)"
  by (rule sse_codecI) (auto simp: prepare_upload_message_def sse_read reader_local split: prod.splits)

text \<open>
  C38. A call over the bridge does what it names, and only when it is complete: the message that
  encodes the arguments of \<open>prepare_upload\<close> makes the dispatcher call exactly this function, on the
  client with this address and with these arguments; it sends the requests of that call and
  changes nothing else, and what the app decodes from the reply is the result, or the error, of the
  call. A message that was cut off, or has anything after it, is a panic and sends nothing.
\<close>

theorem prepare_upload_over_the_bridge:
  assumes F: "frb_law (ho_frb H)" and client: "hm_get (w_clients w) that = Some client"
    and free: "lock_free (w_holds w) that False"
    and good: "ok_string ip" "ok_prepare_upload_request_dto payload" "ok_option ok_string key"
      "ok_option ok_string pin"
    and call: "call = rs_prepare_upload (ho_crates H) (ho_x509 H) client protocol ip port payload key pin"
    and msg: "msg = prepare_upload_message (ho_frb H) (that, protocol, ip, port, payload, key, pin)"
  shows "(\<exists>reply. pde_ffi_dispatcher_primary H 6 msg w
        = Replied reply (w\<lparr>w_requests := w_requests w @ fst call\<rparr>)
      \<and> (case snd call of
           Inr r \<Rightarrow> \<exists>bs. reply = Inr bs \<and> (ok_prepare_upload_result r \<longrightarrow>
             sse_decode_prepare_upload_result (ho_frb H) bs = Some (r, []))
         | Inl e \<Rightarrow> \<exists>bs. reply = Inl bs \<and> (ok_rs_http_client_error e \<longrightarrow>
             sse_decode_rs_http_client_error (ho_frb H) bs = Some (e, []))))
    \<and> (\<forall>p s. msg = p @ s \<and> s \<noteq> [] \<longrightarrow> pde_ffi_dispatcher_primary H 6 p w = Panicked w)
    \<and> (\<forall>s. s \<noteq> [] \<longrightarrow> pde_ffi_dispatcher_primary H 6 (msg @ s) w = Panicked w)"
proof (intro conjI allI impI)
  note args = prepare_upload_args [OF F]
  have six: "pde_ffi_dispatcher_primary H 6 m w = wire_prepare_upload H m w" for m
    by (simp add: pde_ffi_dispatcher_primary_def)
  have ok: "(case (that, protocol, ip, port, payload, key, pin) of (that, protocol, ip, port, payload, public_key, pin) \<Rightarrow>
      ok_string ip \<and> ok_prepare_upload_request_dto payload \<and> ok_option ok_string public_key \<and> ok_option ok_string pin)"
    using good by simp
  have "pde_ffi_dispatcher_primary H 6 msg w
      = http_reply (ho_frb H) (sse_encode_prepare_upload_result (ho_frb H)) call w"
    unfolding six wire_prepare_upload_def Let_def msg call sse_codec.serve_encoded [OF args F ok]
    using client free by (simp add: on_object_def)
  then show "\<exists>reply. pde_ffi_dispatcher_primary H 6 msg w
        = Replied reply (w\<lparr>w_requests := w_requests w @ fst call\<rparr>)
      \<and> (case snd call of
           Inr r \<Rightarrow> \<exists>bs. reply = Inr bs \<and> (ok_prepare_upload_result r \<longrightarrow>
             sse_decode_prepare_upload_result (ho_frb H) bs = Some (r, []))
         | Inl e \<Rightarrow> \<exists>bs. reply = Inl bs \<and> (ok_rs_http_client_error e \<longrightarrow>
             sse_decode_rs_http_client_error (ho_frb H) bs = Some (e, [])))"
    using sse_codec.decode_encode_all [OF prepare_upload_result_sse [OF F]]
      sse_codec.decode_encode_all [OF rs_http_client_error_sse [OF F]]
    by (auto simp: http_reply_def transform_result_def split: sum.split)
  show "pde_ffi_dispatcher_primary H 6 p w = Panicked w" if "msg = p @ s \<and> s \<noteq> []" for p s
    unfolding six wire_prepare_upload_def Let_def
    by (rule sse_codec.serve_truncated [OF args ok, where s = s]) (use that msg in auto)
  show "pde_ffi_dispatcher_primary H 6 (msg @ s) w = Panicked w" if "s \<noteq> []" for s
    unfolding six wire_prepare_upload_def Let_def msg
    by (rule sse_codec.serve_trailing [OF args F ok that])
qed


lemma prepare_upload_over_the_bridge_witness:
  "let q = \<lparr>pu_info = sample_register, pu_files = []\<rparr>;
       msg = prepare_upload_message sample_frb (3, Http, ''h'', 1, q, None, None);
       call = rs_prepare_upload sample_crates sample_x509 \<lparr>rs_inner = V2Client (\<lambda>_. Inl ''down'') :: unit ls_http_client\<rparr>
         Http ''h'' 1 q None None
   in (\<exists>reply. pde_ffi_dispatcher_primary sample_host 6 msg sample_world
        = Replied reply (sample_world\<lparr>w_requests := fst call\<rparr>))
    \<and> pde_ffi_dispatcher_primary sample_host 6 (msg @ [0]) sample_world = Panicked sample_world"
proof -
  let ?q = "\<lparr>pu_info = sample_register, pu_files = []\<rparr>"
  have good: "ok_string ''h''" "ok_prepare_upload_request_dto ?q" "ok_option ok_string None"
    by (simp_all add: ok_prepare_upload_request_dto_def ok_register_dto_def sample_register_def
        ok_string_def as_bytes_def ok_option_def ok_map_def ok_vec_def)
  have host: "ho_frb sample_host = sample_frb" "ho_crates sample_host = sample_crates"
      "ho_x509 sample_host = sample_x509"
    and world: "w_requests sample_world = []" "hm_get (w_clients sample_world) 3
        = Some \<lparr>rs_inner = V2Client (\<lambda>_. Inl ''down'')\<rparr>" "lock_free (w_holds sample_world) 3 False"
    by (simp_all add: sample_host_def sample_world_def hm_get_def lock_free_def w_holds_def held_def hm_values_def)
  have "frb_law (ho_frb sample_host)"
    by (simp add: host sample_frb_law)
  note claim = prepare_upload_over_the_bridge [OF this world(2,3) good good(3) refl refl, of Http 1]
  show ?thesis
    unfolding Let_def using claim unfolding host world append_Nil by blast
qed

section \<open>What a call leaves\<close>

text \<open>What holds of the state a call leaves, if it comes to an end or is started.\<close>

definition leaves :: "('w \<Rightarrow> bool) \<Rightarrow> 'w outcome \<Rightarrow> bool" where
  "leaves P r = (case r of Panicked w \<Rightarrow> P w | Replied _ w \<Rightarrow> P w | Started _ w \<Rightarrow> P w | _ \<Rightarrow> True)"

lemma leaves_simps [simp]:
  "leaves P (Panicked w) = P w" "leaves P (Replied r w) = P w" "leaves P (Started k w) = P w"
  "leaves P Waiting" "leaves P BadHandle"
  by (simp_all add: leaves_def)

lemma leaves_serve:
  "P w \<Longrightarrow> (\<And>a rest. args message = Some (a, rest) \<Longrightarrow> leaves P (body a w)) \<Longrightarrow>
   leaves P (serve_call F args body message w)"
  by (simp add: serve_call_def split: option.split prod.split)

lemma leaves_on_object:
  "(\<And>obj. hm_get (table w) h = Some obj \<Longrightarrow> lock_free (w_holds w) h exclusive \<Longrightarrow> leaves P (f obj)) \<Longrightarrow>
   leaves P (on_object table h exclusive f w)"
  by (simp add: on_object_def split: option.split)

lemmas wire_defs = wire_stream_sink_add_def wire_accept_offer_def wire_send_offer_def wire_update_info_def
  wire_cancel_def wire_prepare_upload_def wire_register_def wire_upload_def wire_get_file_id_def
  wire_receive_def wire_file_send_def wire_rc_decline_def wire_rc_listen_error_def wire_rc_listen_files_def
  wire_rc_listen_receiving_def wire_rc_listen_status_def wire_rc_send_file_status_def wire_rc_send_pin_def
  wire_rc_send_selection_def wire_sc_listen_error_def wire_sc_listen_selected_files_def
  wire_sc_listen_status_def wire_sc_send_file_def wire_sc_send_pin_def wire_connect_def
  wire_create_stream_def wire_enable_debug_logging_def wire_generate_key_pair_def wire_verify_cert_def

lemmas rv_defs = rv_listen_status_def rv_listen_files_def rv_listen_error_def rv_listen_receiving_def
  rv_send_file_status_def rv_forward_pin_def rv_transfer_ends_def

lemma listening_keeps_handles:
  "rv_listen_status c = (x1, c') \<Longrightarrow> rv_selected_tx c' = rv_selected_tx c \<and> rv_pin_tx c' = rv_pin_tx c"
  "rv_listen_error c = (x2, c') \<Longrightarrow> rv_selected_tx c' = rv_selected_tx c \<and> rv_pin_tx c' = rv_pin_tx c"
  "rv_listen_files c = (x3, c') \<Longrightarrow> rv_selected_tx c' = rv_selected_tx c \<and> rv_pin_tx c' = rv_pin_tx c"
  "rv_listen_receiving c = (x4, c') \<Longrightarrow> rv_selected_tx c' = rv_selected_tx c \<and> rv_pin_tx c' = rv_pin_tx c"
  "rv_send_file_status st c = (x5, c') \<Longrightarrow> rv_selected_tx c' = rv_selected_tx c \<and> rv_pin_tx c' = rv_pin_tx c"
  by (auto simp: rv_defs Let_def split: prod.splits if_splits)

text \<open>Locks of the calls in progress.\<close>

lemma lock_free_held:
  "lock_free (held calls) h exclusive \<longleftrightarrow>
     (\<forall>k r e. (k, r) \<in> set calls \<longrightarrow> (h, e) \<in> set (running_locks r) \<longrightarrow> \<not> e \<and> \<not> exclusive)"
  unfolding lock_free_def held_def hm_values_def list_all_iff by fastforce

lemma set_hm_insert: "set (hm_insert k v m) \<subseteq> insert (k, v) (set m)"
  by (induction m) auto

lemma lock_free_insert:
  "lock_free (held calls) h exclusive \<Longrightarrow>
   (\<And>e. (h, e) \<in> set (running_locks r) \<Longrightarrow> \<not> e \<and> \<not> exclusive) \<Longrightarrow>
   lock_free (held (hm_insert k r calls)) h exclusive"
  using set_hm_insert [of k r calls] unfolding lock_free_held by blast

lemma lock_free_remove: "lock_free (held calls) h exclusive \<Longrightarrow> lock_free (held (hm_remove k calls)) h exclusive"
  by (auto simp: lock_free_held hm_remove_def)

lemma running_locks_get:
  "hm_get calls k = Some r \<Longrightarrow> lock_free (held calls) h exclusive \<Longrightarrow>
   (h, e) \<in> set (running_locks r) \<Longrightarrow> \<not> e \<and> \<not> exclusive"
  unfolding lock_free_held hm_get_def by (blast dest: map_of_SomeD)

lemma lock_free_continue:
  "hm_get calls k = Some r \<Longrightarrow> lock_free (held calls) h exclusive \<Longrightarrow> running_locks r' = running_locks r \<Longrightarrow>
   lock_free (held (hm_insert k r' calls)) h exclusive"
  using running_locks_get lock_free_insert by metis

lemma lock_free_streaming:
  "hm_get calls k = Some (Streaming locks s xs reply) \<Longrightarrow> lock_free (held calls) h exclusive \<Longrightarrow>
   lock_free (held (hm_insert k (Streaming locks s ys reply) calls)) h exclusive"
  "hm_get calls k = Some (StreamingFiles locks s fs reply) \<Longrightarrow> lock_free (held calls) h exclusive \<Longrightarrow>
   lock_free (held (hm_insert k (StreamingFiles locks s gs reply) calls)) h exclusive"
  by (erule (1) lock_free_continue; simp)+

lemma lock_held:
  "hm_get calls k = Some r \<Longrightarrow> (h, True) \<in> set (running_locks r) \<Longrightarrow> \<not> lock_free (held calls) h exclusive"
  using running_locks_get by blast

section \<open>One-shot handles over the bridge\<close>

text \<open>
  A receive controller and the state of its two handles: what is at the other end of the selection
  and of the PIN, and what has reached the transfer. No call holds its lock exclusively, and new objects
  get other addresses.
\<close>

definition reached :: "usize \<Rightarrow> (usize \<times> 'v) list \<Rightarrow> 'v list" where
  "reached that log = [x. (h, x) \<leftarrow> log, h = that]"

lemma reached_append [simp]: "reached that (xs @ ys) = reached that xs @ reached that ys"
  by (simp add: reached_def)

lemma reached_delivered [simp]:
  "reached that (delivered h v) = (if h = that then (case v of Some x \<Rightarrow> [x] | None \<Rightarrow> []) else [])"
  by (simp add: reached_def delivered_def split: option.split)

definition rc_at :: "('z, 'cert, 'key, 'i, 'c, 'd) host \<Rightarrow> usize \<Rightarrow> bool option \<Rightarrow> bool option
    \<Rightarrow> string list option list \<Rightarrow> string list \<Rightarrow> 'c world \<Rightarrow> bool" where
  "rc_at H that sel pin decisions pins w \<longleftrightarrow>
     (\<exists>c. hm_get (w_receive_controllers w) that = Some c \<and> rv_selected_tx c = sel \<and> rv_pin_tx c = pin)
     \<and> lock_free (held (w_running w)) that False \<and> hm_get (w_send_controllers w) that = None
     \<and> (\<forall>n \<ge> w_allocated w. fst (ho_address H n) \<noteq> that)
     \<and> reached that (w_decided w) = decisions \<and> reached that (w_pins w) = pins"

text \<open>Every call leaves the handles of a controller alone that is not aimed at them.\<close>

definition aimed_at :: "frb \<Rightarrow> usize \<Rightarrow> bytes \<Rightarrow> bool" where
  "aimed_at F that message \<longleftrightarrow> map_option fst (sse_decode_opaque F message) = Some that"

lemma wire_leaves_rc_at:
  assumes b: "rc_at H that sel pin ds ps w"
  shows "leaves (rc_at H that sel pin ds ps) (wire_stream_sink_add H m w)"
    and "leaves (rc_at H that sel pin ds ps) (wire_accept_offer H m w)"
    and "leaves (rc_at H that sel pin ds ps) (wire_send_offer H m w)"
    and "leaves (rc_at H that sel pin ds ps) (wire_update_info H m w)"
    and "leaves (rc_at H that sel pin ds ps) (wire_cancel H m w)"
    and "leaves (rc_at H that sel pin ds ps) (wire_prepare_upload H m w)"
    and "leaves (rc_at H that sel pin ds ps) (wire_register H m w)"
    and "leaves (rc_at H that sel pin ds ps) (wire_upload H m w)"
    and "leaves (rc_at H that sel pin ds ps) (wire_get_file_id H m w)"
    and "leaves (rc_at H that sel pin ds ps) (wire_receive H m w)"
    and "leaves (rc_at H that sel pin ds ps) (wire_file_send H m w)"
    and "leaves (rc_at H that sel pin ds ps) (wire_rc_listen_error H m w)"
    and "leaves (rc_at H that sel pin ds ps) (wire_rc_listen_files H m w)"
    and "leaves (rc_at H that sel pin ds ps) (wire_rc_listen_receiving H m w)"
    and "leaves (rc_at H that sel pin ds ps) (wire_rc_listen_status H m w)"
    and "leaves (rc_at H that sel pin ds ps) (wire_rc_send_file_status H m w)"
    and "leaves (rc_at H that sel pin ds ps) (wire_sc_listen_error H m w)"
    and "leaves (rc_at H that sel pin ds ps) (wire_sc_listen_selected_files H m w)"
    and "leaves (rc_at H that sel pin ds ps) (wire_sc_listen_status H m w)"
    and "leaves (rc_at H that sel pin ds ps) (wire_sc_send_file H m w)"
    and "leaves (rc_at H that sel pin ds ps) (wire_sc_send_pin H m w)"
    and "leaves (rc_at H that sel pin ds ps) (wire_connect H m w)"
    and "leaves (rc_at H that sel pin ds ps) (wire_create_stream H m w)"
    and "leaves (rc_at H that sel pin ds ps) (wire_enable_debug_logging H m w)"
    and "leaves (rc_at H that sel pin ds ps) (wire_generate_key_pair H m w)"
    and "leaves (rc_at H that sel pin ds ps) (wire_verify_cert H m w)"
  unfolding wire_defs Let_def
  by (use b in \<open>auto intro!: leaves_serve leaves_on_object
      simp: http_reply_def allocate_def start_def stream_to_def split: option.split sum.split prod.split\<close>)
    (auto simp: rc_at_def map_simps intro!: lock_free_insert dest!: listening_keeps_handles split: if_splits)

lemma aimed_elsewhere:
  "\<not> aimed_at F that m \<Longrightarrow> sse_decode_opaque F m = Some (h, rest) \<Longrightarrow> h \<noteq> that"
  by (auto simp: aimed_at_def)

lemma wire_elsewhere_leaves_rc_at:
  assumes b: "rc_at H that sel pin ds ps w" and m: "\<not> aimed_at (ho_frb H) that m"
  shows "leaves (rc_at H that sel pin ds ps) (wire_rc_decline H m w)"
    and "leaves (rc_at H that sel pin ds ps) (wire_rc_send_pin H m w)"
    and "leaves (rc_at H that sel pin ds ps) (wire_rc_send_selection H m w)"
  unfolding wire_defs Let_def
  by (use b in \<open>auto intro!: leaves_serve leaves_on_object split: prod.split\<close>)
    (auto simp: rc_at_def map_simps rd_bind_def rd_ret_def dest: aimed_elsewhere [OF m] split: option.splits)

lemma dispatcher_leaves_rc_at:
  assumes "rc_at H that sel pin ds ps w" and "i \<in> {12, 18, 19} \<Longrightarrow> \<not> aimed_at (ho_frb H) that m"
  shows "leaves (rc_at H that sel pin ds ps) (pde_ffi_dispatcher_primary H i m w)"
  using wire_elsewhere_leaves_rc_at [OF assms(1)] assms
  by (simp add: pde_ffi_dispatcher_primary_def wire_leaves_rc_at [OF assms(1)])

lemma proceed_leaves_rc_at:
  assumes "rc_at H that sel pin ds ps w" and "proceed H k w = (r, w')"
  shows "rc_at H that sel pin ds ps w'"
  using assms
  by (auto simp: proceed_def rc_at_def returns_def continues_def upload_returns_def set_stream_def allocate_def
      map_simps Let_def intro!: lock_free_remove dest: lock_free_streaming
      split: option.splits running.splits list.splits sum.splits if_splits prod.splits) (metis Suc_leD)

lemma break_leaves_rc_at:
  assumes "rc_at H that sel pin ds ps w" and "break_upload H k w = (r, w')"
  shows "rc_at H that sel pin ds ps w'"
  using assms
  by (auto simp: break_upload_def rc_at_def returns_def upload_returns_def set_stream_def
      Let_def intro!: lock_free_remove split: option.splits running.splits prod.splits)

text \<open>Events that leave the handles of a receive controller alone: anything but its decision and PINs.\<close>

fun apart :: "frb \<Rightarrow> usize \<Rightarrow> bridge_event \<Rightarrow> bool" where
  "apart F that (AppCalls i m) \<longleftrightarrow> (i \<in> {12, 18, 19} \<longrightarrow> \<not> aimed_at F that m)"
| "apart F that (ReceiverWantsPin h) \<longleftrightarrow> h \<noteq> that"
| "apart F that (TransferEnds h) \<longleftrightarrow> h \<noteq> that"
| "apart F that e \<longleftrightarrow> True"

lemma apart_leaves_rc_at:
  assumes "rc_at H that sel pin ds ps w" and "apart (ho_frb H) that e" and "bridge_step H e w = (r, w')"
  shows "rc_at H that sel pin ds ps w'"
proof (cases e)
  case (AppCalls i m)
  then show ?thesis
    using assms dispatcher_leaves_rc_at [OF assms(1), of i m] by (auto split: outcome.splits)
next
  case (Proceeds k)
  then show ?thesis using assms proceed_leaves_rc_at by fastforce
next
  case (Breaks k)
  then show ?thesis using assms break_leaves_rc_at by fastforce
qed (use assms in \<open>auto simp: rc_at_def map_simps split: option.splits\<close>)

text \<open>
  What the user does: select files or decline (calls 19 and 12), enter a PIN (call 18). Meanwhile
  the transfer asks for a PIN, and anything else happens.
\<close>

datatype user_action = Chooses "string list option" | EntersPin string | PinIsWanted | Meanwhile bridge_event

definition decision_call :: "frb \<Rightarrow> usize \<Rightarrow> string list option \<Rightarrow> bridge_event" where
  "decision_call F that choice = (case choice of
     Some selection \<Rightarrow> AppCalls 19 (sse_encode_usize F that @ sse_encode_set F selection)
   | None \<Rightarrow> AppCalls 12 (sse_encode_usize F that))"

definition pin_call :: "frb \<Rightarrow> usize \<Rightarrow> string \<Rightarrow> bridge_event" where
  "pin_call F that pin = AppCalls 18 (sse_encode_usize F that @ sse_encode_string F pin)"

fun action_event :: "frb \<Rightarrow> usize \<Rightarrow> user_action \<Rightarrow> bridge_event" where
  "action_event F that (Chooses choice) = decision_call F that choice"
| "action_event F that (EntersPin pin) = pin_call F that pin"
| "action_event F that PinIsWanted = ReceiverWantsPin that"
| "action_event F that (Meanwhile e) = e"

fun ok_action :: "frb \<Rightarrow> usize \<Rightarrow> user_action \<Rightarrow> bool" where
  "ok_action F that (Chooses choice) \<longleftrightarrow> (case choice of Some selection \<Rightarrow> ok_set selection | None \<Rightarrow> True)"
| "ok_action F that (EntersPin pin) \<longleftrightarrow> ok_string pin"
| "ok_action F that PinIsWanted \<longleftrightarrow> True"
| "ok_action F that (Meanwhile e) \<longleftrightarrow> apart F that e"

text \<open>Which decisions and which PINs are taken: the first decision; a PIN that is asked for.\<close>

fun decisions :: "bool \<Rightarrow> user_action list \<Rightarrow> (bool \<times> string list option) list" where
  "decisions open [] = []"
| "decisions open (Chooses choice # acts) = (open, choice) # decisions False acts"
| "decisions open (_ # acts) = decisions open acts"

fun pins :: "bool \<Rightarrow> user_action list \<Rightarrow> (bool \<times> string) list" where
  "pins wanted [] = []"
| "pins wanted (EntersPin pin # acts) = (wanted, pin) # pins False acts"
| "pins wanted (PinIsWanted # acts) = pins True acts"
| "pins wanted (_ # acts) = pins wanted acts"

definition taken_ones :: "(bool \<times> 'v) list \<Rightarrow> 'v list" where
  "taken_ones xs = [x. (b, x) \<leftarrow> xs, b]"

definition reply_of :: "frb \<Rightarrow> anyhow \<Rightarrow> bool \<Rightarrow> (bytes + bytes) option" where
  "reply_of F err taken = Some (if taken then Inr [] else Inl (sse_encode_anyhow F err))"

abbreviation handle :: "bool \<Rightarrow> bool option" where
  "handle full \<equiv> (if full then Some True else None)"

lemma decision_step:
  assumes F: "frb_law (ho_frb H)" and w: "rc_at H that (handle full) pin ds ps w"
    and good: "case choice of Some selection \<Rightarrow> ok_set selection | None \<Rightarrow> True"
  shows "\<exists>w'. bridge_step H (decision_call (ho_frb H) that choice) w
      = (reply_of (ho_frb H) ''Selected files already sent'' full, w')
    \<and> rc_at H that None pin (ds @ (if full then [choice] else [])) ps w'"
proof -
  have "fb_end (ho_frb H) []" using F by (simp add: frb_law_def)
  then show ?thesis
    using w good sse_codec.decode_encode [OF set_sse [OF F], of _ "[]"]
      sse_codec.decode_encode [OF opaque_sse(1) [OF F], of that "[]"]
    by (cases choice) (auto simp: decision_call_def pde_ffi_dispatcher_primary_def serve_call_def wire_defs
        Let_def sse_read F on_object_def rc_at_def w_holds_def rv_send_selection_def rv_decline_def send_once_def
        reply_of_def transform_result_def sse_encode_unit_def map_simps)
qed

lemma pin_call_step:
  assumes F: "frb_law (ho_frb H)" and w: "rc_at H that sel (handle full) ds ps w" and good: "ok_string p"
  shows "\<exists>w'. bridge_step H (pin_call (ho_frb H) that p) w = (reply_of (ho_frb H) ''Pin already sent'' full, w')
    \<and> rc_at H that sel None ds (ps @ (if full then [p] else [])) w'"
proof -
  have "fb_end (ho_frb H) []" using F by (simp add: frb_law_def)
  then show ?thesis
    using w good sse_codec.decode_encode [OF string_sse [OF F], of p "[]"]
    by (auto simp: pin_call_def pde_ffi_dispatcher_primary_def serve_call_def wire_defs
        Let_def sse_read F on_object_def rc_at_def w_holds_def rv_send_pin_def send_once_def
        reply_of_def transform_result_def sse_encode_unit_def map_simps)
qed

lemma wanted_step:
  "rc_at H that sel pin ds ps w \<Longrightarrow> rc_at H that sel (Some True) ds ps (snd (bridge_step H (ReceiverWantsPin that) w))"
  by (auto simp: rc_at_def rv_forward_pin_def map_simps)

lemma handles_over_the_bridge:
  assumes F: "frb_law (ho_frb H)" and "rc_at H that (handle open) (handle wanted) ds ps w"
    and "list_all (ok_action (ho_frb H) that) acts"
    and "bridge_run H (map (action_event (ho_frb H) that) acts) w = (replies, w')"
  shows "[r. (Chooses choice, r) \<leftarrow> zip acts replies]
      = map (reply_of (ho_frb H) ''Selected files already sent'' \<circ> fst) (decisions open acts)
    \<and> [r. (EntersPin pin, r) \<leftarrow> zip acts replies]
      = map (reply_of (ho_frb H) ''Pin already sent'' \<circ> fst) (pins wanted acts)
    \<and> reached that (w_decided w') = ds @ taken_ones (decisions open acts)
    \<and> reached that (w_pins w') = ps @ taken_ones (pins wanted acts)"
  using assms(2-)
proof (induction acts arbitrary: "open" wanted ds ps w replies)
  case Nil
  then show ?case by (simp add: rc_at_def taken_ones_def)
next
  case (Cons a acts)
  obtain r w1 where step: "bridge_step H (action_event (ho_frb H) that a) w = (r, w1)"
    by force
  obtain rs where run: "bridge_run H (map (action_event (ho_frb H) that) acts) w1 = (rs, w')"
    and replies: "replies = r # rs"
    using Cons.prems(3) by (auto simp: step split: prod.splits)
  have good: "list_all (ok_action (ho_frb H) that) acts"
    using Cons.prems(2) by simp
  note ih = Cons.IH [OF _ good run]
  show ?case
  proof (cases a)
    case (Chooses choice)
    with Cons.prems decision_step [OF F Cons.prems(1), of choice] step
    have "r = reply_of (ho_frb H) ''Selected files already sent'' open"
      and "rc_at H that (handle False) (handle wanted) (ds @ (if open then [choice] else [])) ps w1"
      by auto
    with ih [OF this(2)] show ?thesis by (simp add: Chooses replies taken_ones_def)
  next
    case (EntersPin p)
    with Cons.prems pin_call_step [OF F Cons.prems(1), of p] step
    have "r = reply_of (ho_frb H) ''Pin already sent'' wanted"
      and "rc_at H that (handle open) (handle False) ds (ps @ (if wanted then [p] else [])) w1"
      by auto
    with ih [OF this(2)] show ?thesis by (simp add: EntersPin replies taken_ones_def)
  next
    case PinIsWanted
    with wanted_step [OF Cons.prems(1)] step have "rc_at H that (handle open) (handle True) ds ps w1"
      by simp
    from ih [OF this] show ?thesis by (simp add: PinIsWanted replies)
  next
    case (Meanwhile e)
    with Cons.prems step have "rc_at H that (handle open) (handle wanted) ds ps w1"
      using apart_leaves_rc_at [OF Cons.prems(1), of e] by simp
    from ih [OF this] show ?thesis by (simp add: Meanwhile replies)
  qed
qed

text \<open>
  C33. The user decides once, also over the bridge, and answers every PIN request once: whatever the
  app calls and whatever happens meanwhile (it listens to the streams of the transfer, other
  transfers are decided, the transfer asks for PINs), as long as the transfer goes on, the
  first call that selects files or declines is answered with success and is what reaches the
  transfer, and all later ones are answered with an error and do not reach it; and a PIN is answered
  with success, and reaches the transfer, exactly if a request has been put into the handle since the PIN
  before it. (Distinct objects have distinct addresses; no call holds the controller exclusively, and
  none can come to.)
\<close>

theorem bridge_decision_is_final:
  assumes F: "frb_law (ho_frb H)" and rc: "hm_get (w_receive_controllers w) that = Some rc"
    and tx: "rv_selected_tx rc = Some True" "rv_pin_tx rc = (if wanted then Some True else None)"
    and free: "lock_free (w_holds w) that False" and only: "hm_get (w_send_controllers w) that = None"
    and fresh: "\<forall>n \<ge> w_allocated w. fst (ho_address H n) \<noteq> that"
    and acts: "list_all (ok_action (ho_frb H) that) acts"
    and run: "bridge_run H (map (action_event (ho_frb H) that) acts) w = (replies, w')"
  shows "(let choices = [choice. Chooses choice \<leftarrow> acts] in
        [r. (Chooses choice, r) \<leftarrow> zip acts replies]
          = map (\<lambda>_. Some (Inr [])) (take 1 choices)
            @ map (\<lambda>_. Some (Inl (sse_encode_anyhow (ho_frb H) ''Selected files already sent''))) (drop 1 choices)
      \<and> [x. (h, x) \<leftarrow> w_decided w', h = that] = [x. (h, x) \<leftarrow> w_decided w, h = that] @ take 1 choices)
    \<and> [r. (EntersPin pin, r) \<leftarrow> zip acts replies]
        = map (\<lambda>(b, _). Some (if b then Inr [] else Inl (sse_encode_anyhow (ho_frb H) ''Pin already sent'')))
            (pins wanted acts)
    \<and> [x. (h, x) \<leftarrow> w_pins w', h = that] = [x. (h, x) \<leftarrow> w_pins w, h = that] @ [p. (b, p) \<leftarrow> pins wanted acts, b]"
proof -
  have closed: "decisions False acts = map (Pair False) [choice. Chooses choice \<leftarrow> acts]" for acts
    by (induction False acts rule: decisions.induct) auto
  have d: "decisions True acts = map (Pair True) (take 1 [choice. Chooses choice \<leftarrow> acts])
      @ map (Pair False) (drop 1 [choice. Chooses choice \<leftarrow> acts])" for acts
    by (induction True acts rule: decisions.induct) (auto simp: closed)
  have "rc_at H that (handle True) (handle wanted) (reached that (w_decided w)) (reached that (w_pins w)) w"
    using rc tx free only fresh by (simp add: rc_at_def w_holds_def)
  from handles_over_the_bridge [OF F this acts run] show ?thesis
    by (simp add: Let_def d reached_def taken_ones_def reply_of_def comp_def case_prod_beta)
qed

lemma bridge_decision_is_final_witness:
  "\<exists>replies w'. bridge_run sample_host (map (action_event sample_frb 5)
        [Chooses None, PinIsWanted, EntersPin ''1'', EntersPin ''2'', Meanwhile (Proceeds 0), Chooses (Some [''f''])])
      sample_world = (replies, w')
    \<and> [x. (h, x) \<leftarrow> w_decided w', h = 5] = [None] \<and> [x. (h, x) \<leftarrow> w_pins w', h = 5] = [''1'']"
proof -
  let ?acts = "[Chooses None, PinIsWanted, EntersPin ''1'', EntersPin ''2'', Meanwhile (Proceeds 0),
    Chooses (Some [''f''])]"
  have host: "ho_frb sample_host = sample_frb" and F: "frb_law (ho_frb sample_host)"
    by (simp_all add: sample_host_def sample_frb_law)
  have world: "hm_get (w_receive_controllers sample_world) 5 = Some sample_controller"
      "lock_free (w_holds sample_world) 5 False" "hm_get (w_send_controllers sample_world) 5 = None"
      "w_decided sample_world = []" "w_pins sample_world = []"
    by (simp_all add: sample_world_def hm_get_def lock_free_def w_holds_def held_def hm_values_def)
  have tx: "rv_selected_tx sample_controller = Some True" "rv_pin_tx sample_controller = (if True then Some True else None)"
    by (simp_all add: sample_controller_def)
  have good: "list_all (ok_action (ho_frb sample_host) 5) ?acts"
    by (simp add: ok_set_def ok_vec_def ok_string_def as_bytes_def)
  have fresh: "\<forall>n \<ge> w_allocated sample_world. fst (ho_address sample_host n) \<noteq> 5"
    using sample_addresses by simp
  obtain replies w' where run: "bridge_run sample_host (map (action_event (ho_frb sample_host) 5) ?acts) sample_world
      = (replies, w')" by force
  show ?thesis
    using bridge_decision_is_final [OF F world(1) tx world(2,3) fresh good run] run by (simp add: world host)
qed

section \<open>An upload over the bridge\<close>

text \<open>
  What happens to the stream of an upload in progress: calls of \<open>add\<close>, and steps of the upload.
  \<open>feed\<close> gives the chunks whose \<open>add\<close> returned success.
\<close>

datatype feeding = AppAdds bytes | UploadGoesOn

definition add_call :: "frb \<Rightarrow> usize \<Rightarrow> bytes \<Rightarrow> bridge_event" where
  "add_call F sink data = AppCalls 1 (sse_encode_usize F sink @ sse_encode_bytes F data)"

fun feeding_call :: "frb \<Rightarrow> usize \<Rightarrow> nat \<Rightarrow> feeding \<Rightarrow> bridge_event" where
  "feeding_call F sink k (AppAdds data) = add_call F sink data"
| "feeding_call F sink k UploadGoesOn = Proceeds k"

definition accepted_chunks :: "feeding list \<Rightarrow> (bytes + bytes) option list \<Rightarrow> bytes list" where
  "accepted_chunks steps replies = [data. (AppAdds data, Some (Inr _)) \<leftarrow> zip steps replies]"

fun ok_feeding :: "feeding \<Rightarrow> bool" where
  "ok_feeding (AppAdds data) = ok_bytes data"
| "ok_feeding UploadGoesOn = True"

text \<open>
  An upload in progress: the chunks its call has taken, the (at most one) chunk in the channel, and
  the requests of calls that ended before.
\<close>

definition uploading :: "nat \<Rightarrow> usize \<Rightarrow> usize \<Rightarrow> (bytes list \<Rightarrow> unit rs_call) \<Rightarrow> dart_stream
    \<Rightarrow> http_request list \<Rightarrow> 'c world \<Rightarrow> bool" where
  "uploading k that sink call s qs w \<longleftrightarrow>
     hm_get (w_running w) k = Some (Uploading [(that, False)] sink call) \<and> hm_get (w_sinks w) sink = Some s
     \<and> ds_open s \<and> length (ds_queue s) \<le> 1 \<and> lock_free (held (w_running w)) sink True
     \<and> w_requests w = qs"

lemma add_over_the_bridge:
  assumes F: "frb_law (ho_frb H)" and s: "hm_get (w_sinks w) sink = Some s"
    and free: "lock_free (held (w_running w)) sink True" and good: "ok_bytes data"
  shows "bridge_step H (add_call (ho_frb H) sink data) w =
    (case add_data data s of None \<Rightarrow> (None, w)
     | Some (r, s') \<Rightarrow> (Some (transform_result (sse_encode_string (ho_frb H)) sse_encode_unit r),
         w\<lparr>w_sinks := hm_insert sink s' (w_sinks w)\<rparr>))"
proof -
  have "fb_end (ho_frb H) []" using F by (simp add: frb_law_def)
  then show ?thesis
    using sse_codec.decode_encode [OF bytes_sse [OF F], of data "[]"] s free good
    by (simp add: pde_ffi_dispatcher_primary_def wire_stream_sink_add_def Let_def serve_call_def add_call_def
        sse_read F on_object_def w_holds_def split: option.split)
qed

lemma feeding_step:
  assumes F: "frb_law (ho_frb H)" and w: "uploading k that sink call s qs w" and good: "ok_feeding e"
    and step: "bridge_step H (feeding_call (ho_frb H) sink k e) w = (r, w')"
  shows "\<exists>s'. uploading k that sink call s' qs w'
    \<and> ds_received s' @ ds_queue s' = ds_received s @ ds_queue s @ accepted_chunks [e] [r]"
proof (cases e)
  case (AppAdds data)
  with assms add_over_the_bridge [OF F, of w sink s data] show ?thesis
    by (cases "ds_queue s") (auto simp: uploading_def add_data_def transform_result_def accepted_chunks_def map_simps)
next
  case UploadGoesOn
  with assms show ?thesis
    by (cases "ds_queue s")
      (auto simp: uploading_def proceed_def the_stream_def set_stream_def take_data_def accepted_chunks_def map_simps)
qed

lemma accepted_chunks_Cons: "accepted_chunks (e # es) (r # rs) = accepted_chunks [e] [r] @ accepted_chunks es rs"
  by (simp add: accepted_chunks_def)

lemma feeding_run:
  assumes F: "frb_law (ho_frb H)" and "uploading k that sink call s qs w" and "list_all ok_feeding steps"
    and "bridge_run H (map (feeding_call (ho_frb H) sink k) steps) w = (replies, w')"
  shows "\<exists>s'. uploading k that sink call s' qs w'
    \<and> ds_received s' @ ds_queue s' = ds_received s @ ds_queue s @ accepted_chunks steps replies"
  using assms(2-)
proof (induction steps arbitrary: s w replies)
  case Nil
  then show ?case by (auto simp: accepted_chunks_def)
next
  case (Cons e steps)
  obtain r w1 where step: "bridge_step H (feeding_call (ho_frb H) sink k e) w = (r, w1)" by force
  obtain rs where run: "bridge_run H (map (feeding_call (ho_frb H) sink k) steps) w1 = (rs, w')"
    and replies: "replies = r # rs"
    using Cons.prems(3) by (auto simp: step split: prod.splits)
  obtain t where t: "uploading k that sink call t qs w1"
    "ds_received t @ ds_queue t = ds_received s @ ds_queue s @ accepted_chunks [e] [r]"
    using feeding_step [OF F Cons.prems(1) _ step] Cons.prems(2) by auto
  obtain s' where "uploading k that sink call s' qs w'"
    "ds_received s' @ ds_queue s' = ds_received t @ ds_queue t @ accepted_chunks steps rs"
    using Cons.IH [OF t(1) _ run] Cons.prems(2) by auto
  with t(2) show ?case
    unfolding replies accepted_chunks_Cons [of e steps] by auto
qed

text \<open>How an upload ends: by itself once the app has dropped the sink, or early.\<close>

lemma upload_completes:
  assumes "uploading k that sink call s qs w"
  shows "\<exists>replies w'. bridge_run H [SinkDropped sink, Proceeds k, Proceeds k] w = (replies, w')
    \<and> Some (transform_result (sse_encode_rs_http_client_error (ho_frb H)) sse_encode_unit
        (snd (call (ds_received s @ ds_queue s)))) \<in> set replies
    \<and> w_requests w' = qs @ fst (call (ds_received s @ ds_queue s)) \<and> hm_get (w_running w') k = None"
proof (cases "ds_queue s")
  case Nil
  with assms show ?thesis
    by (auto simp: uploading_def proceed_def the_stream_def set_stream_def upload_returns_def returns_def
        map_simps case_prod_beta)
next
  case (Cons c q)
  with assms show ?thesis
    by (auto simp: uploading_def proceed_def the_stream_def set_stream_def upload_returns_def returns_def
        take_data_def map_simps case_prod_beta)
qed

lemma upload_breaks:
  assumes F: "frb_law (ho_frb H)" and "uploading k that sink call s qs w" and "ok_bytes data"
  shows "\<exists>w'. bridge_run H [Breaks k, add_call (ho_frb H) sink data] w
      = ([Some (transform_result (sse_encode_rs_http_client_error (ho_frb H)) sse_encode_unit
            (snd (call (ds_received s)))),
          Some (Inl (sse_encode_string (ho_frb H) ''Failed to send data''))], w')
    \<and> w_requests w' = qs @ fst (call (ds_received s)) \<and> hm_get (w_running w') k = None"
proof -
  obtain w1 where "bridge_step H (Breaks k) w = (Some (transform_result
      (sse_encode_rs_http_client_error (ho_frb H)) sse_encode_unit (snd (call (ds_received s)))), w1)"
    and "hm_get (w_sinks w1) sink = Some (s\<lparr>ds_queue := [], ds_open := False\<rparr>)"
    and "lock_free (held (w_running w1)) sink True" and "w_requests w1 = qs @ fst (call (ds_received s))"
    and "hm_get (w_running w1) k = None"
    using assms(2) by (auto simp: uploading_def break_upload_def the_stream_def set_stream_def upload_returns_def
        returns_def map_simps case_prod_beta intro: lock_free_remove)
  then show ?thesis
    using add_over_the_bridge [OF F, of w1 sink _ data] assms(3)
    by (simp add: add_data_def transform_result_def)
qed

definition upload_message ::
    "frb \<Rightarrow> usize \<times> protocol_type \<times> string \<times> u16 \<times> string option \<times> string \<times> string \<times> string \<times> usize \<Rightarrow> bytes"
  where
  "upload_message F = (\<lambda>(that, protocol, ip, port, public_key, session_id, file_id, token, binary).
     sse_encode_usize F that @ sse_encode_protocol_type F protocol @ sse_encode_string F ip @
     sse_encode_u16 F port @ sse_encode_option (sse_encode_string F) public_key @
     sse_encode_string F session_id @ sse_encode_string F file_id @ sse_encode_string F token @
     sse_encode_usize F binary)"

lemma upload_args:
  "frb_law F \<Longrightarrow> sse_codec (upload_message F)
     (rd_bind (sse_decode_opaque F) (\<lambda>that.
      rd_bind (sse_decode_protocol_type F) (\<lambda>protocol.
      rd_bind (sse_decode_string F) (\<lambda>ip.
      rd_bind (sse_decode_u16 F) (\<lambda>port.
      rd_bind (sse_decode_option (sse_decode_string F)) (\<lambda>public_key.
      rd_bind (sse_decode_string F) (\<lambda>session_id.
      rd_bind (sse_decode_string F) (\<lambda>file_id.
      rd_bind (sse_decode_string F) (\<lambda>token.
      rd_bind (sse_decode_owned F) (\<lambda>binary.
      rd_ret (that, protocol, ip, port, public_key, session_id, file_id, token, binary)))))))))))
     (\<lambda>(that, protocol, ip, port, public_key, session_id, file_id, token, binary).
        ok_string ip \<and> ok_option ok_string public_key \<and> ok_string session_id \<and> ok_string file_id \<and> ok_string token)"
  by (rule sse_codecI) (auto simp: upload_message_def sse_read reader_local split: prod.splits)

lemma upload_starts:
  assumes F: "frb_law (ho_frb H)" and sink: "hm_get (w_sinks w) sink = Some s"
    and stream: "ds_open s" "length (ds_queue s) \<le> 1"
    and receiver: "hm_get (w_receivers w) binary = Some sink"
    and client: "hm_get (w_clients w) that = Some client"
    and free: "lock_free (w_holds w) sink True" "lock_free (w_holds w) that False" "that \<noteq> sink"
    and good: "ok_string ip" "ok_option ok_string key" "ok_string sid" "ok_string fid" "ok_string token"
    and call: "call = rs_upload (ho_crates H) (ho_x509 H) client protocol ip port key sid fid token"
  shows "\<exists>k w1. pde_ffi_dispatcher_primary H 8
        (upload_message (ho_frb H) (that, protocol, ip, port, key, sid, fid, token, binary)) w = Started k w1
    \<and> hm_get (w_receivers w1) binary = None \<and> uploading k that sink call s (w_requests w) w1"
proof -
  have ok: "(case (that, protocol, ip, port, key, sid, fid, token, binary) of
      (that, protocol, ip, port, public_key, session_id, file_id, token, binary) \<Rightarrow> ok_string ip
        \<and> ok_option ok_string public_key \<and> ok_string session_id \<and> ok_string file_id \<and> ok_string token)"
    using good by simp
  have eight: "pde_ffi_dispatcher_primary H 8 msg w = wire_upload H msg w" for msg
    by (simp add: pde_ffi_dispatcher_primary_def)
  show ?thesis
    unfolding eight wire_upload_def Let_def sse_codec.serve_encoded [OF upload_args [OF F] F ok]
    using sink stream receiver client free
    by (auto simp: on_object_def start_def call uploading_def w_holds_def map_simps intro!: lock_free_insert)
qed

text \<open>
  C37. From the app to the wire: the upload call starts with the chunk that is already in the stream and
  goes on while the app adds chunks; it has sent no request that is complete until it ends. If
  the app drops the sink, the call ends with the result of one request, whose body consists of exactly
  the chunks whose \<open>add\<close> was answered with success, in that order. If the request ends earlier, its body is a
  prefix of them that lacks at most the last one, the chunk in the channel, and later calls of
  \<open>add\<close> are answered with an error. Either way the receiver is used up, so that no other upload can send
  the stream again. (Client and sink are distinct objects, and no other call in progress holds the
  sink.)
\<close>

theorem upload_over_the_bridge:
  assumes F: "frb_law (ho_frb H)" and sink: "hm_get (w_sinks w) sink = Some s"
    and stream: "ds_open s" "ds_received s = []" "length (ds_queue s) \<le> 1"
    and receiver: "hm_get (w_receivers w) binary = Some sink"
    and client: "hm_get (w_clients w) that = Some client"
    and free: "lock_free (w_holds w) sink True" "lock_free (w_holds w) that False" "that \<noteq> sink"
    and good: "ok_string ip" "ok_option ok_string key" "ok_string sid" "ok_string fid" "ok_string token"
      "ok_bytes data"
    and call: "call = rs_upload (ho_crates H) (ho_x509 H) client protocol ip port key sid fid token"
  shows "\<exists>k w1. pde_ffi_dispatcher_primary H 8
        (upload_message (ho_frb H) (that, protocol, ip, port, key, sid, fid, token, binary)) w = Started k w1
    \<and> hm_get (w_receivers w1) binary = None
    \<and> (\<forall>steps replies w2. list_all ok_feeding steps \<longrightarrow>
        bridge_run H (map (feeding_call (ho_frb H) sink k) steps) w1 = (replies, w2) \<longrightarrow>
        (let accepted = ds_queue s @ [data. (AppAdds data, Some (Inr _)) \<leftarrow> zip steps replies];
             answer = (\<lambda>body. Some (transform_result (sse_encode_rs_http_client_error (ho_frb H)) sse_encode_unit
               (snd (call body))))
         in w_requests w2 = w_requests w
          \<and> (\<exists>ends q w3. bridge_run H [SinkDropped sink, Proceeds k, Proceeds k] w2 = (ends, w3)
              \<and> answer accepted \<in> set ends \<and> w_requests w3 = w_requests w @ [q]
              \<and> hq_method q = Post \<and> hq_body q = StreamBody accepted \<and> hm_get (w_running w3) k = None)
          \<and> (\<exists>body lost q w3. accepted = body @ lost \<and> length lost \<le> 1
              \<and> bridge_run H [Breaks k, add_call (ho_frb H) sink data] w2
                = ([answer body, Some (Inl (sse_encode_string (ho_frb H) ''Failed to send data''))], w3)
              \<and> w_requests w3 = w_requests w @ [q] \<and> hq_body q = StreamBody body
              \<and> hm_get (w_running w3) k = None)))"
proof -
  have request: "\<exists>q. fst (call body) = [q] \<and> hq_method q = Post \<and> hq_body q = StreamBody body" for body
    by (cases "rs_inner client")
      (simp_all add: call rs_upload_def ls_upload_def upload_v2_def upload_v3_def upload_request_def)
  obtain k w1 where started: "pde_ffi_dispatcher_primary H 8
      (upload_message (ho_frb H) (that, protocol, ip, port, key, sid, fid, token, binary)) w = Started k w1"
    and gone: "hm_get (w_receivers w1) binary = None" and up: "uploading k that sink call s (w_requests w) w1"
    using upload_starts [OF F sink stream(1,3) receiver client free good(1-5) call] by blast
  show ?thesis
  proof (intro exI [of _ k] exI [of _ w1] conjI started gone allI impI, unfold Let_def)
    fix steps replies w2
    assume "list_all ok_feeding steps"
      and "bridge_run H (map (feeding_call (ho_frb H) sink k) steps) w1 = (replies, w2)"
    from feeding_run [OF F up this] obtain t where t: "uploading k that sink call t (w_requests w) w2"
      and chunks: "ds_queue s @ [data. (AppAdds data, Some (Inr _)) \<leftarrow> zip steps replies]
        = ds_received t @ ds_queue t"
      using stream(2) by (auto simp: accepted_chunks_def)
    have "w_requests w2 = w_requests w" "length (ds_queue t) \<le> 1"
      using t by (simp_all add: uploading_def)
    with upload_completes [OF t, of H] upload_breaks [OF F t good(6)] request [of "ds_received t @ ds_queue t"]
      request [of "ds_received t"]
    show "w_requests w2 = w_requests w
      \<and> (\<exists>ends q w3. bridge_run H [SinkDropped sink, Proceeds k, Proceeds k] w2 = (ends, w3)
          \<and> Some (transform_result (sse_encode_rs_http_client_error (ho_frb H)) sse_encode_unit (snd (call
              (ds_queue s @ [data. (AppAdds data, Some (Inr _)) \<leftarrow> zip steps replies])))) \<in> set ends
          \<and> w_requests w3 = w_requests w @ [q] \<and> hq_method q = Post
          \<and> hq_body q = StreamBody (ds_queue s @ [data. (AppAdds data, Some (Inr _)) \<leftarrow> zip steps replies])
          \<and> hm_get (w_running w3) k = None)
      \<and> (\<exists>body lost q w3. ds_queue s @ [data. (AppAdds data, Some (Inr _)) \<leftarrow> zip steps replies] = body @ lost
          \<and> length lost \<le> 1
          \<and> bridge_run H [Breaks k, add_call (ho_frb H) sink data] w2
            = ([Some (transform_result (sse_encode_rs_http_client_error (ho_frb H)) sse_encode_unit (snd (call body))),
                Some (Inl (sse_encode_string (ho_frb H) ''Failed to send data''))], w3)
          \<and> w_requests w3 = w_requests w @ [q] \<and> hq_body q = StreamBody body
          \<and> hm_get (w_running w3) k = None)"
      unfolding chunks by (elim exE conjE) (intro conjI exI; assumption?; simp)
  qed
qed

lemma upload_over_the_bridge_witness:
  "\<exists>k w1 replies w2 q w3. pde_ffi_dispatcher_primary sample_host 8
        (upload_message sample_frb (3, Http, ''h'', 1, None, ''s'', ''f'', ''t'', 2)) sample_world = Started k w1
    \<and> bridge_run sample_host [add_call sample_frb 1 [1], add_call sample_frb 1 [9], Proceeds k,
        add_call sample_frb 1 [2]] w1 = (replies, w2)
    \<and> snd (bridge_run sample_host [SinkDropped 1, Proceeds k, Proceeds k] w2) = w3
    \<and> w_requests w3 = [q] \<and> hq_body q = StreamBody [data. (AppAdds data, Some (Inr _)) \<leftarrow>
        zip [AppAdds [1], AppAdds [9], UploadGoesOn, AppAdds [2]] replies]"
proof -
  let ?steps = "[AppAdds [1], AppAdds [9], UploadGoesOn, AppAdds [2]]"
  have host: "ho_frb sample_host = sample_frb" and F: "frb_law (ho_frb sample_host)"
    by (simp_all add: sample_host_def sample_frb_law)
  have world: "hm_get (w_sinks sample_world) 1 = Some create_stream"
      "hm_get (w_receivers sample_world) 2 = Some 1"
      "hm_get (w_clients sample_world) 3 = Some \<lparr>rs_inner = V2Client (\<lambda>_. Inl ''down'')\<rparr>"
      "lock_free (w_holds sample_world) 1 True" "lock_free (w_holds sample_world) 3 False" "(3 :: usize) \<noteq> 1"
    and none: "w_requests sample_world = []"
    by (simp_all add: sample_world_def hm_get_def lock_free_def w_holds_def held_def hm_values_def)
  have stream: "ds_open create_stream" "ds_received create_stream = []" "length (ds_queue create_stream) \<le> 1"
    and empty: "ds_queue create_stream = []"
    by (simp_all add: create_stream_def)
  have steps: "list_all ok_feeding ?steps"
    by (simp add: ok_bytes_def)
  have good: "ok_string ''h''" "ok_option ok_string None" "ok_string ''s''" "ok_string ''f''"
      "ok_string ''t''" "ok_bytes [0]"
    by (simp_all add: ok_string_def as_bytes_def ok_option_def ok_bytes_def)
  obtain k w1 where started: "pde_ffi_dispatcher_primary sample_host 8
      (upload_message sample_frb (3, Http, ''h'', 1, None, ''s'', ''f'', ''t'', 2)) sample_world = Started k w1"
    and runs: "\<And>replies w2. bridge_run sample_host (map (feeding_call sample_frb 1 k) ?steps) w1 = (replies, w2) \<Longrightarrow>
      \<exists>ends q w3. bridge_run sample_host [SinkDropped 1, Proceeds k, Proceeds k] w2 = (ends, w3)
        \<and> w_requests w3 = [q]
        \<and> hq_body q = StreamBody [data. (AppAdds data, Some (Inr _)) \<leftarrow> zip ?steps replies]"
    using upload_over_the_bridge [OF F world(1) stream world(2-6) good refl, of Http 1] steps
    unfolding host none empty Let_def append_Nil by blast
  obtain replies w2 where run: "bridge_run sample_host (map (feeding_call sample_frb 1 k) ?steps) w1 = (replies, w2)"
    by force
  from runs [OF run] obtain ends q w3 where
    "bridge_run sample_host [SinkDropped 1, Proceeds k, Proceeds k] w2 = (ends, w3)" and "w_requests w3 = [q]"
    and "hq_body q = StreamBody [data. (AppAdds data, Some (Inr _)) \<leftarrow> zip ?steps replies]"
    by blast
  moreover have "bridge_run sample_host [add_call sample_frb 1 [1], add_call sample_frb 1 [9], Proceeds k,
      add_call sample_frb 1 [2]] w1 = (replies, w2)"
    using run unfolding list.map feeding_call.simps .
  ultimately show ?thesis
    using started by (metis snd_conv)
qed

section \<open>Listening to the status of a sending transfer\<close>

text \<open>
  A send controller that a call in progress borrows: the call is listening and holds the exclusive
  lock. Only the handle of the PIN can change, which the background task fills.
\<close>

definition borrowed :: "('z, 'cert, 'key, 'i, 'c, 'd) host \<Rightarrow> usize \<Rightarrow> send_controller \<Rightarrow> nat \<Rightarrow> nat
    \<Rightarrow> 'c world \<Rightarrow> bool" where
  "borrowed H that c k n w \<longleftrightarrow> (\<exists>pin. hm_get (w_send_controllers w) that = Some (c\<lparr>sc_pin_tx := pin\<rparr>))
     \<and> k < w_started w \<and> (\<forall>n \<ge> w_allocated w. fst (ho_address H n) \<noteq> that)
     \<and> (\<exists>sink items reply. hm_get (w_running w) k = Some (Streaming [(that, True)] sink items reply)
          \<and> length items = n)"

lemma borrowed_locked: "borrowed H that c k n w \<Longrightarrow> \<not> lock_free (w_holds w) that exclusive"
  by (auto simp: borrowed_def w_holds_def dest!: lock_held [of _ _ _ that])

lemma wire_leaves_borrowed:
  assumes b: "borrowed H that c k n w"
  shows "leaves (borrowed H that c k n) (wire_stream_sink_add H m w)"
    and "leaves (borrowed H that c k n) (wire_accept_offer H m w)"
    and "leaves (borrowed H that c k n) (wire_send_offer H m w)"
    and "leaves (borrowed H that c k n) (wire_update_info H m w)"
    and "leaves (borrowed H that c k n) (wire_cancel H m w)"
    and "leaves (borrowed H that c k n) (wire_prepare_upload H m w)"
    and "leaves (borrowed H that c k n) (wire_register H m w)"
    and "leaves (borrowed H that c k n) (wire_upload H m w)"
    and "leaves (borrowed H that c k n) (wire_get_file_id H m w)"
    and "leaves (borrowed H that c k n) (wire_receive H m w)"
    and "leaves (borrowed H that c k n) (wire_file_send H m w)"
    and "leaves (borrowed H that c k n) (wire_rc_decline H m w)"
    and "leaves (borrowed H that c k n) (wire_rc_listen_error H m w)"
    and "leaves (borrowed H that c k n) (wire_rc_listen_files H m w)"
    and "leaves (borrowed H that c k n) (wire_rc_listen_receiving H m w)"
    and "leaves (borrowed H that c k n) (wire_rc_listen_status H m w)"
    and "leaves (borrowed H that c k n) (wire_rc_send_file_status H m w)"
    and "leaves (borrowed H that c k n) (wire_rc_send_pin H m w)"
    and "leaves (borrowed H that c k n) (wire_rc_send_selection H m w)"
    and "leaves (borrowed H that c k n) (wire_sc_listen_error H m w)"
    and "leaves (borrowed H that c k n) (wire_sc_listen_selected_files H m w)"
    and "leaves (borrowed H that c k n) (wire_sc_listen_status H m w)"
    and "leaves (borrowed H that c k n) (wire_sc_send_file H m w)"
    and "leaves (borrowed H that c k n) (wire_sc_send_pin H m w)"
    and "leaves (borrowed H that c k n) (wire_connect H m w)"
    and "leaves (borrowed H that c k n) (wire_create_stream H m w)"
    and "leaves (borrowed H that c k n) (wire_enable_debug_logging H m w)"
    and "leaves (borrowed H that c k n) (wire_generate_key_pair H m w)"
    and "leaves (borrowed H that c k n) (wire_verify_cert H m w)"
  unfolding wire_defs Let_def
  by (use b in \<open>auto intro!: leaves_serve leaves_on_object
      simp: http_reply_def allocate_def start_def stream_to_def split: option.split sum.split prod.split\<close>)
    (use borrowed_locked [OF b] in \<open>auto simp: borrowed_def map_simps split: if_splits\<close>)

lemma dispatcher_leaves_borrowed:
  "borrowed H that c k n w \<Longrightarrow> leaves (borrowed H that c k n) (pde_ffi_dispatcher_primary H i m w)"
  by (simp add: pde_ffi_dispatcher_primary_def wire_leaves_borrowed)

text \<open>The call itself goes on item by item, and returns after the last one.\<close>

lemma proceed_borrowed:
  "borrowed H that c k (Suc n) w \<Longrightarrow> borrowed H that c k n (snd (proceed H k w))"
  "borrowed H that c k 0 w \<Longrightarrow> hm_get (w_running (snd (proceed H k w))) k = None
     \<and> (\<exists>reply. fst (proceed H k w) = Some reply)"
  by (auto simp: borrowed_def proceed_def returns_def continues_def map_simps length_Suc_conv)

lemma proceed_other_borrowed:
  assumes "borrowed H that c k n w" and "j \<noteq> k"
  shows "borrowed H that c k n (snd (proceed H j w))"
  using assms
  by (auto simp: borrowed_def proceed_def returns_def continues_def upload_returns_def set_stream_def allocate_def
      map_simps Let_def split: option.split running.split list.split sum.split prod.split dest: Suc_leD)

lemma event_leaves_borrowed:
  assumes b: "borrowed H that c k n w" and "e \<noteq> Proceeds k"
  shows "borrowed H that c k n (snd (bridge_step H e w))"
proof (cases e)
  case (AppCalls i m)
  then show ?thesis
    using b dispatcher_leaves_borrowed [OF b, of i m] by (auto split: outcome.splits)
next
  case (Proceeds j)
  then show ?thesis using assms proceed_other_borrowed by simp
next
  case (Breaks j)
  then show ?thesis
    using b by (auto simp: borrowed_def break_upload_def returns_def upload_returns_def set_stream_def map_simps
        Let_def split: option.split running.split prod.split)
qed (use b in \<open>auto simp: borrowed_def sc_forward_pin_def map_simps split: option.split\<close>)

lemma run_leaves_borrowed:
  "borrowed H that c k (count_list es (Proceeds k) + n) w \<Longrightarrow> borrowed H that c k n (snd (bridge_run H es w))"
proof (induction es arbitrary: w)
  case (Cons e es)
  show ?case
  proof (cases "e = Proceeds k")
    case True
    with Cons proceed_borrowed(1) [of H that c k "count_list es (Proceeds k) + n" w] show ?thesis
      by (simp add: case_prod_beta Let_def)
  next
    case False
    with Cons event_leaves_borrowed [OF _ False, of H that c _ w] show ?thesis
      by (simp add: case_prod_beta Let_def)
  qed
qed simp

definition listen_message :: "frb \<Rightarrow> usize \<Rightarrow> string \<Rightarrow> bytes" where
  "listen_message F that sink = sse_encode_usize F that @ sse_encode_string F sink"

lemma listening_starts:
  assumes F: "frb_law (ho_frb H)" and c: "hm_get (w_send_controllers w) that = Some c"
    and free: "lock_free (w_holds w) that True" and good: "ok_string sink"
    and listening: "(call, due) \<in> {(20, length (sc_error_rx c)), (22, length (sc_status_rx c))}"
    and fresh: "\<forall>n \<ge> w_allocated w. fst (ho_address H n) \<noteq> that"
  shows "\<exists>w1 c1. pde_ffi_dispatcher_primary H call (listen_message (ho_frb H) that sink) w = Started (w_started w) w1
    \<and> borrowed H that c1 (w_started w) due w1
    \<and> sc_selected_rx c1 = sc_selected_rx c \<and> sc_files_sent c1 = sc_files_sent c"
proof -
  have "fb_end (ho_frb H) []" using F by (simp add: frb_law_def)
  then have starts: "pde_ffi_dispatcher_primary H 20 (listen_message (ho_frb H) that sink) w
      = start (Streaming [(that, True)] sink
            (map (map_sum (\<lambda>e. e) (sse_encode_rtc_file_error (ho_frb H))) (fst (sc_listen_error c))) (Inr []))
          (w\<lparr>w_send_controllers := hm_insert that (snd (sc_listen_error c)) (w_send_controllers w)\<rparr>)"
    "pde_ffi_dispatcher_primary H 22 (listen_message (ho_frb H) that sink) w
      = start (Streaming [(that, True)] sink
            (map (map_sum (\<lambda>e. e) (sse_encode_rtc_status (ho_frb H))) (fst (sc_listen_status c))) (Inr []))
          (w\<lparr>w_send_controllers := hm_insert that (snd (sc_listen_status c)) (w_send_controllers w)\<rparr>)"
    using c free good sse_codec.decode_encode [OF sink_sse [OF F], of sink "[]"]
    by (simp_all add: pde_ffi_dispatcher_primary_def wire_sc_listen_error_def wire_sc_listen_status_def
        listen_message_def serve_call_def Let_def sse_read F on_object_def transform_result_def infallible_def
        sse_encode_unit_def case_prod_beta)
  have "borrowed H that (snd (sc_listen_error c)) (w_started w) (length (sc_error_rx c))
      (w\<lparr>w_send_controllers := hm_insert that (snd (sc_listen_error c)) (w_send_controllers w),
        w_running := hm_insert (w_started w) (Streaming [(that, True)] sink
            (map (map_sum (\<lambda>e. e) (sse_encode_rtc_file_error (ho_frb H))) (fst (sc_listen_error c))) (Inr []))
          (w_running w), w_started := Suc (w_started w)\<rparr>)"
    and "borrowed H that (snd (sc_listen_status c)) (w_started w) (length (sc_status_rx c))
      (w\<lparr>w_send_controllers := hm_insert that (snd (sc_listen_status c)) (w_send_controllers w),
        w_running := hm_insert (w_started w) (Streaming [(that, True)] sink
            (map (map_sum (\<lambda>e. e) (sse_encode_rtc_status (ho_frb H))) (fst (sc_listen_status c))) (Inr []))
          (w_running w), w_started := Suc (w_started w)\<rparr>)"
    using fresh by (auto simp: borrowed_def map_simps sc_listen_error_def sc_listen_status_def
        intro: exI [of _ "sc_pin_tx c"])
  then show ?thesis
    using listening starts by (fastforce simp: start_def sc_listen_error_def sc_listen_status_def)
qed

lemma borrowed_waits:
  assumes F: "frb_law (ho_frb H)" and good: "ok_string sink" "ok_string file_id" "ok_string pin"
    and now: "borrowed H that c k n w"
  shows "pde_ffi_dispatcher_primary H 20 (listen_message (ho_frb H) that sink) w = Waiting"
    and "pde_ffi_dispatcher_primary H 21 (sse_encode_usize (ho_frb H) that) w = Waiting"
    and "pde_ffi_dispatcher_primary H 22 (listen_message (ho_frb H) that sink) w = Waiting"
    and "pde_ffi_dispatcher_primary H 23 (sse_encode_usize (ho_frb H) that @ sse_encode_string (ho_frb H) file_id) w = Waiting"
    and "pde_ffi_dispatcher_primary H 24 (sse_encode_usize (ho_frb H) that @ sse_encode_string (ho_frb H) pin) w = Waiting"
proof -
  obtain c' where "hm_get (w_send_controllers w) that = Some c'" and "\<not> lock_free (w_holds w) that exclusive" for exclusive
    using now borrowed_locked [OF now] by (auto simp: borrowed_def)
  moreover have "fb_end (ho_frb H) []"
    using F by (simp add: frb_law_def)
  moreover note sse_codec.decode_encode [OF opaque_sse(1) [OF F], of that "[]"]
    sse_codec.decode_encode [OF string_sse [OF F], of _ "[]"]
    sse_codec.decode_encode [OF sink_sse [OF F], of sink "[]"]
  ultimately show "pde_ffi_dispatcher_primary H 20 (listen_message (ho_frb H) that sink) w = Waiting"
    "pde_ffi_dispatcher_primary H 21 (sse_encode_usize (ho_frb H) that) w = Waiting"
    "pde_ffi_dispatcher_primary H 22 (listen_message (ho_frb H) that sink) w = Waiting"
    "pde_ffi_dispatcher_primary H 23 (sse_encode_usize (ho_frb H) that @ sse_encode_string (ho_frb H) file_id) w = Waiting"
    "pde_ffi_dispatcher_primary H 24 (sse_encode_usize (ho_frb H) that @ sse_encode_string (ho_frb H) pin) w = Waiting"
    by (simp_all add: pde_ffi_dispatcher_primary_def wire_defs Let_def serve_call_def sse_read F good on_object_def
        listen_message_def)
qed

text \<open>
  C40. While the app listens to the status (or the errors) of a sending transfer, nothing else reaches
  it: the call takes the exclusive lock of the controller and keeps it until its channel is closed,
  that is, as long as it has not gone on more often than there are items still to come; and
  whatever the app calls and whatever happens meanwhile, no files have been selected or sent through the
  controller, and asking for the selected files, sending a file, sending a PIN and listening all
  wait. The next step after the last item is the one in which the call returns. The channel of the
  status is closed when the transfer ends, which the files and the PIN are needed for. (No call in
  progress holds the controller at first, and new objects get other addresses.)
\<close>

theorem listening_blocks_the_sender:
  assumes F: "frb_law (ho_frb H)" and c: "hm_get (w_send_controllers w) that = Some c"
    and free: "lock_free (w_holds w) that True"
    and listening: "(call, due) \<in> {(20, length (sc_error_rx c)), (22, length (sc_status_rx c))}"
    and fresh: "\<forall>n \<ge> w_allocated w. fst (ho_address H n) \<noteq> that"
    and good: "ok_string sink" "ok_string file_id" "ok_string pin"
  shows "\<exists>k w1. pde_ffi_dispatcher_primary H call (listen_message (ho_frb H) that sink) w = Started k w1
    \<and> (\<forall>es replies w'. bridge_run H es w1 = (replies, w') \<longrightarrow> count_list es (Proceeds k) \<le> due \<longrightarrow>
        (\<exists>c'. hm_get (w_send_controllers w') that = Some c' \<and> sc_selected_rx c' = sc_selected_rx c
          \<and> sc_files_sent c' = sc_files_sent c)
      \<and> pde_ffi_dispatcher_primary H 20 (listen_message (ho_frb H) that sink) w' = Waiting
      \<and> pde_ffi_dispatcher_primary H 21 (sse_encode_usize (ho_frb H) that) w' = Waiting
      \<and> pde_ffi_dispatcher_primary H 22 (listen_message (ho_frb H) that sink) w' = Waiting
      \<and> pde_ffi_dispatcher_primary H 23 (sse_encode_usize (ho_frb H) that @ sse_encode_string (ho_frb H) file_id) w'
          = Waiting
      \<and> pde_ffi_dispatcher_primary H 24 (sse_encode_usize (ho_frb H) that @ sse_encode_string (ho_frb H) pin) w'
          = Waiting
      \<and> (count_list es (Proceeds k) = due \<longrightarrow>
          (\<exists>reply w''. bridge_step H (Proceeds k) w' = (Some reply, w'') \<and> hm_get (w_running w'') k = None)))"
proof -
  obtain k w1 c1 where started: "pde_ffi_dispatcher_primary H call (listen_message (ho_frb H) that sink) w = Started k w1"
    and b: "borrowed H that c1 k due w1"
    and c1: "sc_selected_rx c1 = sc_selected_rx c" "sc_files_sent c1 = sc_files_sent c"
    using listening_starts [OF F c free good(1) listening fresh] by blast
  show ?thesis
  proof (intro exI [of _ k] exI [of _ w1] conjI started allI impI)
    fix es replies w'
    assume run: "bridge_run H es w1 = (replies, w')" and few: "count_list es (Proceeds k) \<le> due"
    then have now: "borrowed H that c1 k (due - count_list es (Proceeds k)) w'"
      using run_leaves_borrowed [of H that c1 k es "due - count_list es (Proceeds k)" w1] b by simp
    note waits = borrowed_waits [OF F good now]
    from now show "\<exists>c'. hm_get (w_send_controllers w') that = Some c' \<and> sc_selected_rx c' = sc_selected_rx c
        \<and> sc_files_sent c' = sc_files_sent c"
      using c1 by (auto simp: borrowed_def)
    show "pde_ffi_dispatcher_primary H 20 (listen_message (ho_frb H) that sink) w' = Waiting"
      "pde_ffi_dispatcher_primary H 21 (sse_encode_usize (ho_frb H) that) w' = Waiting"
      "pde_ffi_dispatcher_primary H 22 (listen_message (ho_frb H) that sink) w' = Waiting"
      "pde_ffi_dispatcher_primary H 23 (sse_encode_usize (ho_frb H) that @ sse_encode_string (ho_frb H) file_id) w' = Waiting"
      "pde_ffi_dispatcher_primary H 24 (sse_encode_usize (ho_frb H) that @ sse_encode_string (ho_frb H) pin) w' = Waiting"
      using waits by simp_all
    show "\<exists>reply w''. bridge_step H (Proceeds k) w' = (Some reply, w'') \<and> hm_get (w_running w'') k = None"
      if "count_list es (Proceeds k) = due"
      using proceed_borrowed(2) [of H that c1 k w'] now that by (cases "proceed H k w'") auto
  qed
qed

lemma listening_blocks_the_sender_witness:
  "\<exists>k w1. pde_ffi_dispatcher_primary sample_host 22 (listen_message sample_frb 4 ''s'') sample_world = Started k w1
    \<and> pde_ffi_dispatcher_primary sample_host 23 (sse_encode_usize sample_frb 4 @ sse_encode_string sample_frb ''f'')
        (snd (bridge_run sample_host [AppCalls 27 [], SenderWantsPin 4, AppCalls 29 []] w1)) = Waiting"
proof -
  let ?es = "[AppCalls 27 [], SenderWantsPin 4, AppCalls 29 []]"
  have host: "ho_frb sample_host = sample_frb" and F: "frb_law (ho_frb sample_host)"
    by (simp_all add: sample_host_def sample_frb_law)
  have c: "hm_get (w_send_controllers sample_world) 4 = Some (ho_send_controller sample_host)"
    and free: "lock_free (w_holds sample_world) 4 True"
    by (simp_all add: sample_world_def hm_get_def lock_free_def w_holds_def held_def hm_values_def)
  have listening: "(22, 0) \<in> {(20 :: int, length (sc_error_rx (ho_send_controller sample_host))),
      (22, length (sc_status_rx (ho_send_controller sample_host)))}"
    by (simp add: sample_host_def)
  have good: "ok_string ''s''" "ok_string ''f''" "ok_string ''1''"
    by (simp_all add: ok_string_def as_bytes_def)
  have fresh: "\<forall>n \<ge> w_allocated sample_world. fst (ho_address sample_host n) \<noteq> 4"
    using sample_addresses by simp
  have none: "count_list ?es (Proceeds k) \<le> 0" for k
    by simp
  show ?thesis
    using listening_blocks_the_sender [OF F c free listening fresh good] none prod.collapse
    unfolding host by metis
qed

end
