(* ===== verification/Bridge_Dart.thy ===== *)
theory Bridge_Dart
  imports Bridge_Types
begin

text \<open>
  The other conversion of \<open>app/rust/src/frb_generated.rs\<close>: \<open>IntoDart\<close>, into the values of the Dart
  interface. The conversions of the basic types, options, lists and maps are the bridge
  library's; here are those of the types of the app's interface, and the agreement of the two
  conversions on the numbers of enum variants.
\<close>

section \<open>Values of the Dart interface\<close>

record 'd dart_abi =
  da_i32 :: "32 word \<Rightarrow> 'd"
  da_u8 :: "u8 \<Rightarrow> 'd"
  da_u16 :: "u16 \<Rightarrow> 'd"
  da_u64 :: "u64 \<Rightarrow> 'd"
  da_bool :: "bool \<Rightarrow> 'd"
  da_string :: "string \<Rightarrow> 'd"
  da_uuid :: "uuid \<Rightarrow> 'd"
  da_option :: "'d option \<Rightarrow> 'd"
  da_vec :: "'d list \<Rightarrow> 'd"
  da_map :: "('d \<times> 'd) list \<Rightarrow> 'd"
  da_array :: "'d list \<Rightarrow> 'd"
  da_opaque :: "usize \<times> 32 word \<Rightarrow> 'd"

text \<open>The eight kinds of objects: what is converted is the handle of the object.\<close>

definition into_dart_object :: "'d dart_abi \<Rightarrow> usize \<times> 32 word \<Rightarrow> 'd" where
  "into_dart_object D handle = da_opaque D handle"

section \<open>Structures and enums\<close>

definition into_dart_device_type :: "'d dart_abi \<Rightarrow> device_type \<Rightarrow> 'd" where
  "into_dart_device_type D v = (case v of
     Mobile \<Rightarrow> da_i32 D 0 | Desktop \<Rightarrow> da_i32 D 1 | Web \<Rightarrow> da_i32 D 2 | Headless \<Rightarrow> da_i32 D 3 | Server \<Rightarrow> da_i32 D 4)"

definition into_dart_protocol_type :: "'d dart_abi \<Rightarrow> protocol_type \<Rightarrow> 'd" where
  "into_dart_protocol_type D v = (case v of
     Http \<Rightarrow> da_i32 D 0 | Https \<Rightarrow> da_i32 D 1)"

definition into_dart_ls_version :: "'d dart_abi \<Rightarrow> ls_http_client_version \<Rightarrow> 'd" where
  "into_dart_ls_version D v = (case v of
     ClientV2 \<Rightarrow> da_i32 D 0 | ClientV3 \<Rightarrow> da_i32 D 1)"

definition into_dart_client_info :: "'d dart_abi \<Rightarrow> client_info \<Rightarrow> 'd" where
  "into_dart_client_info D v = da_array D [
     da_uuid D (ci_id v),
     da_string D (ci_alias v),
     da_string D (ci_version v),
     da_option D (map_option (da_string D) (ci_device_model v)),
     da_option D (map_option (into_dart_device_type D) (ci_device_type v)),
     da_string D (ci_token v)]"

definition into_dart_client_info_without_id :: "'d dart_abi \<Rightarrow> client_info_without_id \<Rightarrow> 'd" where
  "into_dart_client_info_without_id D v = da_array D [
     da_string D (cw_alias v),
     da_string D (cw_version v),
     da_option D (map_option (da_string D) (cw_device_model v)),
     da_option D (map_option (into_dart_device_type D) (cw_device_type v)),
     da_string D (cw_token v)]"

definition into_dart_proposing_client_info :: "'d dart_abi \<Rightarrow> proposing_client_info \<Rightarrow> 'd" where
  "into_dart_proposing_client_info D v = da_array D [
     da_string D (pi_alias v),
     da_string D (pi_version v),
     da_option D (map_option (da_string D) (pi_device_model v)),
     da_option D (map_option (into_dart_device_type D) (pi_device_type v))]"

definition into_dart_expecting_public_key :: "'d dart_abi \<Rightarrow> expecting_public_key \<Rightarrow> 'd" where
  "into_dart_expecting_public_key D v = da_array D [
     da_string D (ep_public_key v),
     da_string D (ep_kind v)]"

definition into_dart_file_metadata :: "'d dart_abi \<Rightarrow> file_metadata \<Rightarrow> 'd" where
  "into_dart_file_metadata D v = da_array D [
     da_option D (map_option (da_string D) (fm_modified v)),
     da_option D (map_option (da_string D) (fm_accessed v))]"

definition into_dart_file_dto :: "'d dart_abi \<Rightarrow> file_dto \<Rightarrow> 'd" where
  "into_dart_file_dto D v = da_array D [
     da_string D (fd_id v),
     da_string D (fd_file_name v),
     da_u64 D (fd_size v),
     da_string D (fd_file_type v),
     da_option D (map_option (da_string D) (fd_sha256 v)),
     da_option D (map_option (da_string D) (fd_preview v)),
     da_option D (map_option (into_dart_file_metadata D) (fd_metadata v))]"

definition into_dart_key_pair :: "'d dart_abi \<Rightarrow> key_pair \<Rightarrow> 'd" where
  "into_dart_key_pair D v = da_array D [
     da_string D (kpr_private_key v),
     da_string D (kpr_public_key v)]"

definition into_dart_pin_config :: "'d dart_abi \<Rightarrow> pin_config \<Rightarrow> 'd" where
  "into_dart_pin_config D v = da_array D [
     da_string D (pc_pin v),
     da_u8 D (pc_max_tries v)]"

definition into_dart_register_dto :: "'d dart_abi \<Rightarrow> register_dto \<Rightarrow> 'd" where
  "into_dart_register_dto D v = da_array D [
     da_string D (rd_alias v),
     da_string D (rd_version v),
     da_option D (map_option (da_string D) (rd_device_model v)),
     da_option D (map_option (into_dart_device_type D) (rd_device_type v)),
     da_string D (rd_token v),
     da_u16 D (rd_port v),
     into_dart_protocol_type D (rd_protocol v),
     da_bool D (rd_has_web_interface v)]"

definition into_dart_register_response_dto :: "'d dart_abi \<Rightarrow> register_response_dto \<Rightarrow> 'd" where
  "into_dart_register_response_dto D v = da_array D [
     da_string D (rr_alias v),
     da_string D (rr_version v),
     da_option D (map_option (da_string D) (rr_device_model v)),
     da_option D (map_option (into_dart_device_type D) (rr_device_type v)),
     da_string D (rr_token v),
     da_bool D (rr_has_web_interface v)]"

definition into_dart_rs_register_result :: "'d dart_abi \<Rightarrow> rs_register_result \<Rightarrow> 'd" where
  "into_dart_rs_register_result D v = da_array D [
     da_option D (map_option (da_string D) (rr_public_key v)),
     into_dart_register_response_dto D (rr_body v)]"

definition into_dart_prepare_upload_request_dto :: "'d dart_abi \<Rightarrow> prepare_upload_request_dto \<Rightarrow> 'd" where
  "into_dart_prepare_upload_request_dto D v = da_array D [
     into_dart_register_dto D (pu_info v),
     da_map D (map (map_prod (da_string D) (into_dart_file_dto D)) (pu_files v))]"

definition into_dart_prepare_upload_response_dto :: "'d dart_abi \<Rightarrow> prepare_upload_response_dto \<Rightarrow> 'd" where
  "into_dart_prepare_upload_response_dto D v = da_array D [
     da_string D (ps_session_id v),
     da_map D (map (map_prod (da_string D) (da_string D)) (ps_files v))]"

definition into_dart_prepare_upload_result :: "'d dart_abi \<Rightarrow> prepare_upload_result \<Rightarrow> 'd" where
  "into_dart_prepare_upload_result D v = da_array D [
     da_u16 D (pr_status_code v),
     da_option D (map_option (into_dart_prepare_upload_response_dto D) (pr_response v))]"

definition into_dart_rtc_file_error :: "'d dart_abi \<Rightarrow> rtc_file_error \<Rightarrow> 'd" where
  "into_dart_rtc_file_error D v = da_array D [
     da_string D (fe_file_id v),
     da_string D (fe_error v)]"

definition into_dart_rtc_send_file_response :: "'d dart_abi \<Rightarrow> rtc_send_file_response \<Rightarrow> 'd" where
  "into_dart_rtc_send_file_response D v = da_array D [
     da_string D (fr_id v),
     da_bool D (fr_success v),
     da_option D (map_option (da_string D) (fr_error v))]"

definition into_dart_ws_server_sdp_message :: "'d dart_abi \<Rightarrow> ws_server_sdp_message \<Rightarrow> 'd" where
  "into_dart_ws_server_sdp_message D v = da_array D [
     into_dart_client_info D (ss_peer v),
     da_string D (ss_session_id v),
     da_string D (ss_sdp v)]"

fun into_dart_rs_http_client_error :: "'d dart_abi \<Rightarrow> rs_http_client_error \<Rightarrow> 'd" where
  "into_dart_rs_http_client_error D (RsStatusCode status message) = da_array D [da_i32 D 0, da_u16 D status, da_option D (map_option (da_string D) message)]"
| "into_dart_rs_http_client_error D (RsReqwest field0) = da_array D [da_i32 D 1, da_string D field0]"
| "into_dart_rs_http_client_error D (RsJson field0) = da_array D [da_i32 D 2, da_string D field0]"
| "into_dart_rs_http_client_error D (RsIo field0) = da_array D [da_i32 D 3, da_string D field0]"
| "into_dart_rs_http_client_error D (RsOther field0) = da_array D [da_i32 D 4, da_string D field0]"

fun into_dart_rtc_status :: "'d dart_abi \<Rightarrow> rtc_status \<Rightarrow> 'd" where
  "into_dart_rtc_status D SdpExchanged = da_array D [da_i32 D 0]"
| "into_dart_rtc_status D Connected = da_array D [da_i32 D 1]"
| "into_dart_rtc_status D PinRequired = da_array D [da_i32 D 2]"
| "into_dart_rtc_status D TooManyAttempts = da_array D [da_i32 D 3]"
| "into_dart_rtc_status D Declined = da_array D [da_i32 D 4]"
| "into_dart_rtc_status D Sending = da_array D [da_i32 D 5]"
| "into_dart_rtc_status D Finished = da_array D [da_i32 D 6]"
| "into_dart_rtc_status D (StError field0) = da_array D [da_i32 D 7, da_string D field0]"

fun into_dart_ws_server_message :: "'d dart_abi \<Rightarrow> ws_server_message \<Rightarrow> 'd" where
  "into_dart_ws_server_message D (Hello client peers) = da_array D [da_i32 D 0, into_dart_client_info D client, da_vec D (map (into_dart_client_info D) peers)]"
| "into_dart_ws_server_message D (Join peer) = da_array D [da_i32 D 1, into_dart_client_info D peer]"
| "into_dart_ws_server_message D (Update peer) = da_array D [da_i32 D 2, into_dart_client_info D peer]"
| "into_dart_ws_server_message D (Left peer_id) = da_array D [da_i32 D 3, da_uuid D peer_id]"
| "into_dart_ws_server_message D (Offer field0) = da_array D [da_i32 D 4, into_dart_ws_server_sdp_message D field0]"
| "into_dart_ws_server_message D (Answer field0) = da_array D [da_i32 D 5, into_dart_ws_server_sdp_message D field0]"
| "into_dart_ws_server_message D (Error code) = da_array D [da_i32 D 6, da_u16 D code]"

section \<open>The two conversions agree\<close>

text \<open>
  A value of an enum with content starts, in either conversion, with the same number; one without
  content is that number.
\<close>

definition same_number :: "frb \<Rightarrow> 'd dart_abi \<Rightarrow> ('a \<Rightarrow> bytes) \<Rightarrow> ('a \<Rightarrow> 'd) \<Rightarrow> 'a \<Rightarrow> bool" where
  "same_number F D enc conv v \<longleftrightarrow> (\<exists>n bs ds. enc v = sse_encode_i32 F n @ bs
     \<and> conv v = da_array D (da_i32 D n # ds))"

lemma ws_server_message_conversions_agree:
  "same_number F D (sse_encode_ws_server_message F) (into_dart_ws_server_message D) m"
  by (cases m; simp add: same_number_def; blast)

lemma rtc_status_conversions_agree:
  "same_number F D (sse_encode_rtc_status F) (into_dart_rtc_status D) s"
  unfolding same_number_def by (cases s) (fastforce intro: exI [of _ "[]"])+

lemma rs_http_client_error_conversions_agree:
  "same_number F D (sse_encode_rs_http_client_error F) (into_dart_rs_http_client_error D) e"
  by (cases e; simp add: same_number_def; blast)

lemma device_type_conversions_agree:
  "\<exists>n. sse_encode_device_type F d = sse_encode_i32 F n \<and> into_dart_device_type D d = da_i32 D n"
  unfolding sse_encode_device_type_def into_dart_device_type_def by (cases d) auto

lemma protocol_type_conversions_agree:
  "\<exists>n. sse_encode_protocol_type F p = sse_encode_i32 F n \<and> into_dart_protocol_type D p = da_i32 D n"
  unfolding sse_encode_protocol_type_def into_dart_protocol_type_def by (cases p) auto

lemma ls_version_conversions_agree:
  "\<exists>n. sse_encode_ls_version F v = sse_encode_i32 F n \<and> into_dart_ls_version D v = da_i32 D n"
  unfolding sse_encode_ls_version_def into_dart_ls_version_def by (cases v) auto

end
