(* ===== verification/Spec2Isabelle.thy ===== *)
theory Spec2Isabelle
  imports Ws_Startup Call_Exchange Rtc_Lockout Unit_Tests Test_Driver Http_Download App_Properties Bridge_Properties Bridge_Dart
begin

text \<open>
  A verification development of the Rust code of this repository: the core library
  (\<open>src/core\<close>), the signaling server (\<open>src/server\<close>) and the part of the app written in Rust
  (\<open>src/app/rust\<close>). Two devices send files to each other, either over HTTP in the local network or
  over a WebRTC data channel that is set up through a signaling server.

  \<^bold>\<open>How the parts interact.\<close> A client registers at the signaling server with information about itself
  and a signed token (\<open>crypto/token.rs\<close>); the server groups clients by IP address and forwards
  offers and answers inside a group (\<open>ws_controller.rs\<close>). With an offer and an answer two clients
  open a data channel (\<open>webrtc.rs\<close>) on which they exchange nonces, prove their keys with tokens, ask
  for PINs, agree on files and transfer them. Over HTTP (\<open>http/client\<close>, \<open>http/server\<close>) the same is
  done with requests. The app (\<open>app/rust/src/api\<close>) wraps all this for the user
  interface, which calls it over a bridge of serialised messages (\<open>frb_generated.rs\<close>).

  \<^bold>\<open>Conventions.\<close> Structs are records, enums datatypes, machine integers words of their width, UUIDs
  128-bit words; strings are lists of characters that stand for the bytes of the Rust string. A
  \<open>Result\<close> is a sum with the error on the left, \<open>None\<close> as the result of a whole function marks a
  panic where the source can panic. A \<open>HashMap\<close> is an association list with the operations of
  theory \<open>Hash_Map\<close>, proved equal to a map through an interface locale. Crates are parameters:
  the record \<open>crates\<close> (UUID text, JSON text, base64, SHA-256), the key operations in a token key,
  \<open>x509\<close>, \<open>zlib\<close>, \<open>reqwest\<close>, \<open>lru_cache\<close>, \<open>rustls\<close>, \<open>peer_env\<close>. What the theorems need of them is
  documented behaviour, stated as named laws (\<open>json_law\<close>, \<open>uuid_law\<close>, \<open>b64_law\<close>, \<open>zlib_law\<close>,
  \<open>lru_law\<close>, \<open>sign_law\<close>, \<open>frb_law\<close>); \<open>Sample_Crates\<close> and the samples beside the theorems show that
  they can hold. What the network, the user or the scheduler decides is an argument: an environment
  record for the WebRTC tasks, a schedule of actions for the server, lists of events elsewhere.

  \<^bold>\<open>The theories.\<close>
  \<^item> \<open>Prelude\<close>, \<open>Hash_Map\<close>, \<open>Json\<close>: bytes and UTF-8, number text, splitting at a separator, the result
    type; hash maps; JSON values, the derive-style encoders and the locale \<open>json_codec\<close> (decoding
    undoes encoding) that every message type interprets.
  \<^item> \<open>Core_Model\<close> (\<open>core/src/model\<close>), \<open>Signaling_Messages\<close> (\<open>webrtc/signaling.rs\<close>, messages).
  \<^item> \<open>Ip_Group\<close> (\<open>server/src/util/ip.rs\<close>), \<open>Ws_Controller\<close> (the handler of \<open>ws_controller.rs\<close>: upgrade,
    request counter, the critical sections under the lock, frames), \<open>Ws_Rooms\<close> (abstract rooms, the
    refinement of them by the critical sections, the locale \<open>rate_limiter\<close>), \<open>Ws_System\<close> (all
    connections interleaved: one action per await point, bounded channels, an inductive
    invariant), \<open>Ws_Properties\<close>, \<open>Ws_Startup\<close> (\<open>server/src/main.rs\<close>, \<open>config\<close>).
  \<^item> \<open>Signaling_Client\<close>, \<open>Signaling_Writer\<close> (\<open>webrtc/signaling.rs\<close>, client side): connecting, reading,
    the one-shot callbacks for answers, writing. \<open>Signaling_Exchange\<close>: server and clients composed,
    with the origin of every offer and answer.
  \<^item> \<open>Crypto\<close> (\<open>core/src/crypto\<close>): nonces, tokens, certificates.
  \<^item> \<open>Rtc_Messages\<close>, \<open>Rtc_Prog\<close> (a state and error monad over the messages still to come and the
    trace of effects, with its triples), \<open>Rtc_Chunks\<close> (chunking, delimiters, session descriptions),
    \<open>Rtc_Pin\<close>, \<open>Rtc_Receiver\<close>, \<open>Rtc_Sender\<close>, \<open>Rtc_Connection\<close>: \<open>webrtc/webrtc.rs\<close>. An operation reads
    \<open>rs_rx\<close>, the incoming messages, and appends to \<open>rs_trace\<close>, what it sends and what it tells the app.
    \<open>Rtc_Dialogue\<close> says what it means that two such tasks talk to each other, with rules for each
    construct of the monad; \<open>Rtc_Stages\<close> has what each stage of the two tasks says in it, \<open>Rtc_Session\<close>
    composes the whole sending and the whole receiving task, \<open>Rtc_Call\<close> both with their
    connection set-up, \<open>Call_Exchange\<close> these with the signaling server in between. \<open>Rtc_Lockout\<close> has
    the dialogue of two tasks in which a user runs out of PIN attempts.
  \<^item> \<open>Http_Dto\<close>, \<open>Http_Url\<close>, \<open>Http_Client\<close>, \<open>Http_Client_Properties\<close>, \<open>Http_Download\<close>
    (\<open>core/src/http\<close> with \<open>client\<close>), \<open>Http_Server\<close>, \<open>Http_Startup\<close> (\<open>http/server\<close>), \<open>Http_Exchange\<close>
    (client and server composed over a link that carries requests and responses unchanged).
  \<^item> \<open>App_Streams\<close>, \<open>App_Controllers\<close>, \<open>App_Session\<close>, \<open>App_Http\<close>, \<open>App_Properties\<close>
    (\<open>app/rust/src/api\<close> and \<open>util\<close>): streams, the one-shot handles of both controllers (locale
    \<open>one_shot\<close>), the background tasks, the HTTP wrapper.
  \<^item> \<open>Bridge_Codec\<close>, \<open>Bridge_Types\<close>, \<open>Bridge_Calls\<close>, \<open>Bridge_Properties\<close>, \<open>Bridge_Dart\<close> (\<open>app/rust/src/frb_generated.rs\<close>):
    readers that do not look ahead, the locale \<open>sse_codec\<close> (decoding undoes encoding, and nothing is
    read from a truncated encoding) with its rules for lists, options, pairs and maps; the encoder
    and decoder of every type; one \<open>wire_\<close> function per function of the app's interface and the two
    dispatchers, over a state that holds the objects of the app by address and the calls in
    progress, which go on step by step (\<open>proceed\<close>) and hold their locks until they return; all this as one function of
    events (\<open>bridge_step\<close>): calls, steps of calls, background tasks, the end of a transfer; the
    conversions \<open>IntoDart\<close>, which agree with the encoders on the numbers of variants.
  \<^item> \<open>Test_Driver\<close> (\<open>core/src/main.rs\<close>): the test program as a client of all this; what its handlers
    answer is an environment of the WebRTC tasks.
  \<^item> \<open>Unit_Tests\<close>: the unit tests of the repository, stated over the model, with proofs that they pass.

  \<^bold>\<open>What is proved.\<close> For the signaling server: the critical sections refine adding and removing room
  members; in every reachable state of the interleaving the shared map lists exactly the live
  connections, no message leaves its group, and a client that gets an offer or an answer gets what
  the named client of its group sent to it; budgets and limits are exact; the shared state stays
  well-formed; and a reachable deadlock. For a WebRTC transfer: neither side reveals anything before
  the other one has shown its token and PIN, whatever is received; a file is only opened with the
  token handed out for it; two honest peers that know each other's PINs (after some wrong attempts) and
  keys finish a transfer, and a call whose offer and answer travel through the server, and the files
  the receiver accepted arrive unchanged and in order, or both end when the user declines; a
  user who only guesses makes both tasks fail after the allowed attempts; the test program transfers its file; the PIN
  dialogue in every outcome, and its termination; chunking equals its reference; connecting applies
  and undoes what it should, with the cases in which it does not. For tokens: what an accepted
  token proves, that an own token is accepted, when the check panics. For HTTP: what a success over
  HTTPS says about the peer, nonces agree on both ends, which registrations and uploads the server
  serves, downloads, URLs. For the app: transfers report their end, decisions are final, PINs and
  bytes are neither lost nor duplicated. For the bridge: values survive it, a call reaches its function
  with its arguments or, when it is not complete, does nothing, the first decision and every PIN
  that is asked for reach the transfer and no others, an upload that is not cut off sends exactly the
  chunks the app was told are accepted (one that is cut off, all but at most the last), and a sending
  transfer whose status is listened to is out of reach.

  \<^bold>\<open>Bounds and fuel.\<close> Loops over a channel recurse over the list of what the channel
  delivers until it closes, or terminate by the length of the remaining input (or the number of
  tries left); the server is a step relation without a bound on its runs. The only fuel is that of
  \<open>handle_pin\<close>: one round more than there are incoming messages, which is enough because every round
  takes one (\<open>handle_pin_returns\<close>). Where a channel delivers for ever, the list is what it delivered so
  far. Concrete bounds are the ones of the code: chunks of 16 KiB, blocks of 1 MiB, channels of 4
  or 1 places, 200 nonces, one hour for a token.

  \<^bold>\<open>Not modelled.\<close> Of the bridge: the reference counting of objects (calls of its library,
  one per type and platform), the mirror declarations; \<open>main\<close>
  of the test program; logging everywhere; the crates named above, among them the ICE machinery of
  WebRTC, TLS itself and the real signature schemes; the methods of the client certificate verifier that only hand on to \<open>rustls\<close>. Time appears only as the
  results of the clock and as timeouts that may fire. Dropped futures are modelled where a
  \<open>select!\<close> or a timeout drops them.

  \<^bold>\<open>Granularity.\<close> Some awaits are one step: counting a request and dispatching its message in
  \<open>AFrame\<close> of the server; the end of both tasks of a connection in \<open>AExit\<close>, although \<open>abort\<close> takes effect
  later; a call of the bridge that sends HTTP requests without a stream, or that waits for nothing
  but its locks. A call that has to wait for a lock is made again; the queue of waiting calls is
  not modelled. The server never draws the same UUID twice. Of the client's reader, a second
  \<open>Hello\<close> is dropped, also in the moment in which the receiver of the first one still exists.
  \<open>json_law\<close> speaks of values of any depth; the code only nests as deep as its own message types,
  far from the recursion limit of the parser.

  \<^bold>\<open>Next.\<close> The registration of both clients as a part of the call; a call in which one side cannot connect.
\<close>

end
